(* ===== verification/Kernel_Prelude.thy ===== *)
theory Kernel_Prelude
  imports Main "HOL-Library.Word" "HOL-Library.Signed_Division"
begin

unbundle bit_operations_syntax

text \<open>
  Shared vocabulary of the development: the machine types of the 32-bit kernel, the constants
  of \<^verbatim>\<open>src/config.h\<close>, the status codes of \<^verbatim>\<open>src/status.h\<close>, and the physical memory as a
  function from 32-bit addresses to bytes, with little-endian access to 16 and 32 bits.

  Conventions. A pointer and an unsigned C integer is a word of its width. A signed C \<open>int\<close>
  is an \<open>int\<close>, converted from an unsigned value by \<open>sint\<close> and to one by \<open>word_of_int\<close>;
  signed overflow is undefined in C and is not reached in the ranges the theorems speak of.
  Address arithmetic wraps, as it does on the machine. The difference \<open>a - p\<close> of two
  addresses is the unsigned offset of \<open>a\<close> from \<open>p\<close>, so \<open>a - p < n\<close> says that \<open>a\<close> is one
  of the \<open>n\<close> bytes starting at \<open>p\<close>.
\<close>

type_synonym u8 = "8 word"
type_synonym u16 = "16 word"
type_synonym u32 = "32 word"
type_synonym addr = "32 word"
type_synonym mem = "32 word \<Rightarrow> 8 word"

named_theorems mem_simps \<open>reading the memory after a kernel routine has written to it\<close>
named_theorems kernel_defs \<open>definitions of straight-line kernel routines\<close>

section \<open>Configuration and status codes\<close>

text \<open>\<^verbatim>\<open>src/config.h\<close>, without the prefix of its names.\<close>

abbreviation (input) KERNEL_CODE_SELECTOR :: "'a::numeral" where "KERNEL_CODE_SELECTOR \<equiv> 0x08"
abbreviation (input) KERNEL_DATA_SELECTOR :: "'a::numeral" where "KERNEL_DATA_SELECTOR \<equiv> 0x10"
abbreviation (input) TOTAL_INTERRUPTS :: "'a::numeral" where "TOTAL_INTERRUPTS \<equiv> 512"
abbreviation (input) HEAP_SIZE_BYTES :: "'a::numeral" where "HEAP_SIZE_BYTES \<equiv> 104857600"
abbreviation (input) HEAP_BLOCK_SIZE :: "'a::numeral" where "HEAP_BLOCK_SIZE \<equiv> 4096"
abbreviation (input) HEAP_ADDRESS :: "'a::numeral" where "HEAP_ADDRESS \<equiv> 0x01000000"
abbreviation (input) HEAP_TABLE_ADDRESS :: "'a::numeral" where "HEAP_TABLE_ADDRESS \<equiv> 0x00007E00"
abbreviation (input) SECTOR_SIZE :: "'a::numeral" where "SECTOR_SIZE \<equiv> 512"
abbreviation (input) MAX_FILESYSTEMS :: "'a::numeral" where "MAX_FILESYSTEMS \<equiv> 12"
abbreviation (input) FILE_DESCRIPTOR :: "'a::numeral" where "FILE_DESCRIPTOR \<equiv> 512"
abbreviation (input) MAX_PATH :: "'a::numeral" where "MAX_PATH \<equiv> 108"
abbreviation (input) PROGRAM_VIRTUAL_ADDRESS :: "'a::numeral" where "PROGRAM_VIRTUAL_ADDRESS \<equiv> 0x400000"
abbreviation (input) USER_PROGRAM_STACK_SIZE :: "'a::numeral" where "USER_PROGRAM_STACK_SIZE \<equiv> 16384"
abbreviation (input) PROGRAM_VIRTUAL_STACK_ADDRESS_START :: "'a::numeral" where
  "PROGRAM_VIRTUAL_STACK_ADDRESS_START \<equiv> 0x3FF000"
abbreviation (input) MAX_PROGRAM_ALLOCATIONS :: "'a::numeral" where "MAX_PROGRAM_ALLOCATIONS \<equiv> 1024"
abbreviation (input) MAX_PROCESSES :: "'a::numeral" where "MAX_PROCESSES \<equiv> 12"
abbreviation (input) USER_DATA_SEGMENT :: "'a::numeral" where "USER_DATA_SEGMENT \<equiv> 0x23"
abbreviation (input) USER_CODE_SEGMENT :: "'a::numeral" where "USER_CODE_SEGMENT \<equiv> 0x1b"
abbreviation (input) MAX_ISR80H_COMMANDS :: "'a::numeral" where "MAX_ISR80H_COMMANDS \<equiv> 1024"
abbreviation (input) KEYBOARD_BUFFER_SIZE :: "'a::numeral" where "KEYBOARD_BUFFER_SIZE \<equiv> 1024"

text \<open>
  \<^verbatim>\<open>src/status.h\<close>. A routine that returns a status is modelled with a result
  \<open>error + 'a\<close>: \<open>Inl e\<close> for the C value \<open>- e\<close>, \<open>Inr\<close> for success with its value.
\<close>

datatype error = EIO | EINVARG | ENOMEM | EBADPATH | EFSNOTUS | ERDONLY | EUNIMP | EISTKN | EINFORMAT

fun errno :: "error \<Rightarrow> int" where
  "errno EIO = 1"
| "errno EINVARG = 2"
| "errno ENOMEM = 3"
| "errno EBADPATH = 4"
| "errno EFSNOTUS = 5"
| "errno ERDONLY = 6"
| "errno EUNIMP = 7"
| "errno EISTKN = 8"
| "errno EINFORMAT = 9"

type_synonym status = "error + unit"

abbreviation ALL_OK :: status where "ALL_OK \<equiv> Inr ()"

lemma errno_pos [simp]: "0 < errno e"
  by (cases e) auto

lemma errno_eq_iff [simp]: "errno e = errno e' \<longleftrightarrow> e = e'"
  by (cases e; cases e') auto

section \<open>Unsigned offsets\<close>

lemma uint_eq_iff [simp]: "uint (x :: 'a::len word) = uint y \<longleftrightarrow> x = y"
  by (simp add: word_uint_eq_iff)

lemma unat_of_nat_le: "unat (of_nat n :: 'a::len word) \<le> n"
  by (simp add: unat_of_nat)

lemma offset_self [simp]: "p + n - p = (n :: addr)"
  by simp

lemma offset_add_iff: "a = p + n \<longleftrightarrow> a - p = (n :: addr)"
  by (auto simp: algebra_simps)

lemma word_less_Suc_unat:
  assumes "(i :: 'a::len word) < n" shows "unat (i + 1) = Suc (unat i)"
proof -
  have "unat i < unat n" using assms by (simp add: word_less_nat_alt)
  moreover have "unat n < 2 ^ LENGTH('a)" by (rule unsigned_less)
  ultimately have "unat i + 1 < 2 ^ LENGTH('a)" by linarith
  then show ?thesis by (simp add: unat_word_ariths)
qed

lemma word_less_add1_iff:
  assumes "(i :: 'a::len word) < n" shows "k < i + 1 \<longleftrightarrow> k < i \<or> k = i"
  using word_less_Suc_unat [OF assms]
  by (simp add: word_less_nat_alt less_Suc_eq) (metis unsigned_word_eqI)

lemma unat_minus_one_less: "(n :: 'a::len word) \<noteq> 0 \<Longrightarrow> unat (n - 1) < unat n"
  by (metis diff_less unat_eq_zero unat_minus_one zero_less_one gr0I)

lemma unat_add_no_wrap:
  "unat (a :: 'a::len word) + unat b < 2 ^ LENGTH('a) \<Longrightarrow> unat (a + b) = unat a + unat b"
  by (simp add: unat_add_lem)

lemma of_nat_less_word: "i < unat (n :: 'a::len word) \<Longrightarrow> of_nat i < n"
  using unat_of_nat_le [of i, where ?'a = 'a] by (simp add: word_less_nat_alt)

lemma sint_word_of_int_small:
  "- (2 ^ 31) \<le> x \<Longrightarrow> x < 2 ^ 31 \<Longrightarrow> sint (word_of_int x :: u32) = x"
  by (subst sint_sbintrunc') (simp add: signed_take_bit_int_eq_self)

lemma sint_uint_nonneg:
  fixes w :: u32
  assumes "0 \<le> sint w" shows "sint w = uint w"
  using assms uint_sint [of w] sint_lt [of w] by (simp add: take_bit_eq_mod)

lemma mask_numerals:
  "(0xFF :: 'a::len word) = mask 8" "(0x0F :: 'a::len word) = mask 4" "(0xFFF :: 'a::len word) = mask 12"
  by (simp_all add: mask_eq_exp_minus_1)

text \<open>Pages: multiples of 4096, the size of a heap block and of a page.\<close>

definition page_aligned :: "u32 \<Rightarrow> bool" where
  "page_aligned p \<longleftrightarrow> p mod 4096 = 0"

lemma page_aligned_0 [simp]: "page_aligned 0"
  by (simp add: page_aligned_def)

lemma page_aligned_uint: "page_aligned p \<longleftrightarrow> uint p mod 4096 = 0"
  by (simp add: page_aligned_def word_uint_eq_iff uint_mod del: uint_eq_iff)

lemma page_aligned_add: "page_aligned p \<Longrightarrow> page_aligned (p + word_of_int (b * 4096))"
proof -
  assume "page_aligned p"
  then have p: "uint p mod 4096 = 0" by (simp add: page_aligned_uint)
  have "uint (p + word_of_int (b * 4096)) mod 4096 = (uint p + b * 4096) mod 2 ^ 32 mod 4096"
    by (simp add: uint_word_ariths uint_word_of_int mod_simps)
  also have "\<dots> = (uint p + b * 4096) mod 4096"
    by (rule mod_mod_cancel) simp
  also have "\<dots> = 0" using p by (simp add: mod_add_eq [symmetric])
  finally show ?thesis by (simp add: page_aligned_uint)
qed

lemma page_aligned_bits: "page_aligned p \<Longrightarrow> i < 12 \<Longrightarrow> \<not> bit p i"
proof -
  assume "page_aligned p" "i < 12"
  then have "take_bit 12 p = 0" by (simp add: page_aligned_def take_bit_eq_mod)
  then show ?thesis using \<open>i < 12\<close> by (metis bit_0_eq bit_take_bit_iff bot_apply bot_bool_def)
qed

lemma page_offset_bits: "(f :: u32) < 4096 \<Longrightarrow> 12 \<le> i \<Longrightarrow> \<not> bit f i"
proof -
  assume "f < 4096" "12 \<le> i"
  then have "take_bit 12 f = f" by (simp add: take_bit_eq_mod mod_word_less)
  then show ?thesis using \<open>12 \<le> i\<close> by (metis bit_take_bit_iff not_less)
qed

lemma bit_page_mask: "bit (0xFFFFF000 :: u32) i \<longleftrightarrow> 12 \<le> i \<and> i < 32"
proof -
  have "(0xFFFFF000 :: u32) = push_bit 12 (mask 20)" by (simp add: mask_eq_exp_minus_1)
  moreover have "bit (push_bit 12 (mask 20) :: u32) i \<longleftrightarrow> 12 \<le> i \<and> i < 32"
    by (auto simp: bit_simps)
  ultimately show ?thesis by metis
qed

lemma page_mask_flags:
  assumes "page_aligned p" "f < 4096" shows "(p OR f) AND 0xFFFFF000 = p"
proof (rule bit_word_eqI)
  fix i assume "i < LENGTH(32)"
  then show "bit ((p OR f) AND 0xFFFFF000) i = bit p i"
    using page_aligned_bits [OF assms(1), of i] page_offset_bits [OF assms(2), of i]
      bit_page_mask [of i] \<open>i < LENGTH(32)\<close>
    by (auto simp only: bit_and_iff bit_or_iff) auto
qed

text \<open>The bytes of a range of memory, read in order.\<close>

definition bytes_at :: "mem \<Rightarrow> addr \<Rightarrow> nat \<Rightarrow> u8 list" where
  "bytes_at m p n = map (\<lambda>i. m (p + of_nat i)) [0..<n]"

lemma length_bytes_at [simp]: "length (bytes_at m p n) = n"
  by (simp add: bytes_at_def)

lemma nth_bytes_at [simp]: "i < n \<Longrightarrow> bytes_at m p n ! i = m (p + of_nat i)"
  by (simp add: bytes_at_def)

lemma bytes_at_Suc: "bytes_at m p (Suc n) = m p # bytes_at m (p + 1) n"
proof (rule nth_equalityI)
  fix i assume "i < length (bytes_at m p (Suc n))"
  then show "bytes_at m p (Suc n) ! i = (m p # bytes_at m (p + 1) n) ! i"
    by (cases i) (auto simp: ac_simps)
qed simp

lemma bytes_at_0 [simp]: "bytes_at m p 0 = []"
  by (simp add: bytes_at_def)

text \<open>Writing a list of bytes to consecutive addresses, and disjoint ranges.\<close>

fun write_bytes :: "mem \<Rightarrow> addr \<Rightarrow> u8 list \<Rightarrow> mem" where
  "write_bytes m p [] = m"
| "write_bytes m p (b # bs) = write_bytes (m(p := b)) (p + 1) bs"

definition apart :: "addr \<Rightarrow> nat \<Rightarrow> addr \<Rightarrow> nat \<Rightarrow> bool" where
  "apart p n q k \<longleftrightarrow> (\<forall>i<n. \<forall>j<k. p + of_nat i \<noteq> q + of_nat j)"

lemma apartD: "apart p n q k \<Longrightarrow> i < n \<Longrightarrow> j < k \<Longrightarrow> p + of_nat i \<noteq> q + of_nat j"
  by (simp add: apart_def)

lemma apart_SucD:
  assumes "apart p (Suc n) q (Suc k)" shows "apart (p + 1) n (q + 1) k"
proof -
  have "p + 1 + of_nat i \<noteq> q + 1 + of_nat j" if "i < n" "j < k" for i j
    using apartD [OF assms, of "Suc i" "Suc j"] that by (simp add: ac_simps)
  then show ?thesis by (simp add: apart_def)
qed

lemma apart_neq: "apart p n q k \<Longrightarrow> i < n \<Longrightarrow> 0 < k \<Longrightarrow> q \<noteq> p + of_nat i"
  using apartD [of p n q k i 0] by auto

lemma apart_mono: "apart p n q k \<Longrightarrow> n' \<le> n \<Longrightarrow> k' \<le> k \<Longrightarrow> apart p n' q k'"
  by (simp add: apart_def)

lemma apart_ranges:
  assumes "unat p + n \<le> unat q" "unat q + k \<le> 2 ^ 32" shows "apart p n q k"
  unfolding apart_def
proof (intro allI impI notI)
  fix i j assume ij: "i < n" "j < k" and e: "p + of_nat i = q + of_nat j"
  have "unat (p + of_nat i) = unat p + i" "unat (q + of_nat j) = unat q + j"
    using assms ij by (simp_all add: unat_word_ariths unat_of_nat)
  with e have "unat p + i = unat q + j" by simp
  with ij(1) assms(1) show False by simp
qed

lemma write_bytes_outside [mem_simps]:
  "length bs \<le> unat (a - p) \<Longrightarrow> write_bytes m p bs a = m a"
proof (induction bs arbitrary: m p)
  case (Cons b bs)
  then have "a - p \<noteq> 0" by auto
  then have "unat (a - (p + 1)) = unat (a - p) - 1"
    by (simp add: unat_minus_one diff_diff_eq [symmetric])
  with Cons \<open>a - p \<noteq> 0\<close> show ?case by auto
qed simp

lemma write_bytes_append:
  "write_bytes m p (xs @ ys) = write_bytes (write_bytes m p xs) (p + of_nat (length xs)) ys"
  by (induction xs arbitrary: m p) (simp_all add: ac_simps)

lemma write_bytes_inside [mem_simps]:
  "i < length bs \<Longrightarrow> length bs \<le> 2 ^ 32 \<Longrightarrow> write_bytes m p bs (p + of_nat i) = bs ! i"
proof (induction bs arbitrary: m p i)
  case (Cons b bs)
  show ?case
  proof (cases i)
    case 0
    have "length bs \<le> unat (- 1 :: addr)"
      using Cons.prems(2) by (simp add: unsigned_minus_1_eq_mask mask_eq_exp_minus_1)
    with 0 show ?thesis by (simp add: write_bytes_outside)
  next
    case (Suc j)
    then have "write_bytes (m(p := b)) (p + 1) bs (p + 1 + of_nat j) = bs ! j"
      using Cons.prems by (intro Cons.IH) auto
    then show ?thesis by (simp add: Suc add.assoc)
  qed
qed simp

section \<open>Little-endian access\<close>

definition read16 :: "mem \<Rightarrow> addr \<Rightarrow> u16" where
  "read16 m a = ucast (m a) OR push_bit 8 (ucast (m (a + 1)))"

definition read32 :: "mem \<Rightarrow> addr \<Rightarrow> u32" where
  "read32 m a = ucast (m a) OR push_bit 8 (ucast (m (a + 1)))
     OR push_bit 16 (ucast (m (a + 2))) OR push_bit 24 (ucast (m (a + 3)))"

definition write32 :: "mem \<Rightarrow> addr \<Rightarrow> u32 \<Rightarrow> mem" where
  "write32 m a v = m(a := ucast v, a + 1 := ucast (drop_bit 8 v),
     a + 2 := ucast (drop_bit 16 v), a + 3 := ucast (drop_bit 24 v))"

lemma le_bytes_join32:
  fixes v :: u32
  shows "ucast (ucast v :: u8) OR push_bit 8 (ucast (ucast (drop_bit 8 v) :: u8))
    OR push_bit 16 (ucast (ucast (drop_bit 16 v) :: u8))
    OR push_bit 24 (ucast (ucast (drop_bit 24 v) :: u8)) = v"
proof (rule bit_word_eqI)
  fix n assume "n < LENGTH(32)"
  then show "bit (ucast (ucast v :: u8) OR push_bit 8 (ucast (ucast (drop_bit 8 v) :: u8))
    OR push_bit 16 (ucast (ucast (drop_bit 16 v) :: u8))
    OR push_bit 24 (ucast (ucast (drop_bit 24 v) :: u8)) :: u32) n = bit v n"
    by (cases "n < 8"; cases "n < 16"; cases "n < 24") (auto simp: bit_simps not_less)
qed

lemma read32_write32_same [simp, mem_simps]: "read32 (write32 m a v) a = v"
proof -
  have "a + 1 \<noteq> a" "a + 2 \<noteq> a" "a + 3 \<noteq> a" "a + 2 \<noteq> a + 1" "a + 3 \<noteq> a + 1" "a + 3 \<noteq> a + 2"
    by simp_all
  then show ?thesis
    using le_bytes_join32 [of v] by (simp add: read32_def write32_def)
qed

text \<open>Two words of memory that are apart do not disturb each other.\<close>

lemma write32_other [mem_simps]: "4 \<le> x - a \<Longrightarrow> write32 m a v x = m x"
proof -
  assume far: "4 \<le> x - a"
  then have "x - a \<noteq> 0" "x - a \<noteq> 1" "x - a \<noteq> 2" "x - a \<noteq> 3"
    by (auto simp: word_le_nat_alt)
  then have "x \<noteq> a" "x \<noteq> a + 1" "x \<noteq> a + 2" "x \<noteq> a + 3"
    by (auto simp: offset_add_iff)
  then show ?thesis by (simp add: write32_def)
qed

lemma word_add_small_le:
  fixes d :: u32
  assumes "4 \<le> d" "d \<le> - 4" "k < 4" shows "4 \<le> d + k"
proof -
  have "unat k < 4" "4 \<le> unat d" "unat d \<le> 2 ^ 32 - 4"
    using assms by (auto simp: word_less_nat_alt word_le_nat_alt)
  moreover from this have "unat (d + k) = unat d + unat k" by (intro unat_add_no_wrap) auto
  ultimately show ?thesis by (simp add: word_le_nat_alt)
qed

lemma read32_write32_other [mem_simps]:
  assumes "4 \<le> b - a" "4 \<le> a - b" shows "read32 (write32 m a v) b = read32 m b"
proof -
  have "b - a \<le> - 4"
  proof -
    have "4 \<le> unat (b - a)" "4 \<le> unat (a - b)" using assms by (simp_all add: word_le_nat_alt)
    then show ?thesis
      by (auto simp: word_le_nat_alt unat_sub_if_size word_size split: if_splits)
  qed
  then have "4 \<le> b + k - a" if "k < 4" for k
    using word_add_small_le [OF assms(1) _ that] by (simp add: algebra_simps)
  from this [of 0] this [of 1] this [of 2] this [of 3] show ?thesis
    by (simp add: read32_def write32_other)
qed

definition word_aligned :: "u32 \<Rightarrow> bool" where
  "word_aligned a \<longleftrightarrow> 4 dvd uint a"

lemma word_aligned_apart:
  assumes "word_aligned a" "word_aligned b" "a \<noteq> b" shows "4 \<le> a - b"
proof -
  have "4 dvd uint a - uint b" using assms by (auto simp: word_aligned_def)
  then have "uint (a - b) mod 4 = 0"
    by (simp add: uint_word_ariths mod_mod_cancel)
  moreover have "0 < uint (a - b)" using assms(3) by (simp add: word_neq_0_conv word_less_def [symmetric] uint_0_iff order_less_le)
  ultimately have "4 \<le> uint (a - b)" by presburger
  then show ?thesis by (simp add: word_le_def)
qed

text \<open>An address in a page splits into the page and the offset.\<close>

lemma page_add_or:
  assumes "page_aligned p" "f < 4096" shows "p + f = p OR f"
proof -
  have "p AND f = 0"
  proof (rule bit_word_eqI)
    fix i assume "i < LENGTH(32)"
    then show "bit (p AND f) i = bit 0 i"
      using page_aligned_bits [OF assms(1), of i] page_offset_bits [OF assms(2), of i]
      by (cases "i < 12") (auto simp: bit_and_iff)
  qed
  then show ?thesis by (rule disjunctive_add_eq_or)
qed

lemma page_mask_add: "page_aligned p \<Longrightarrow> f < 4096 \<Longrightarrow> (p + f) AND 0xFFFFF000 = p"
  by (simp add: page_add_or page_mask_flags)

lemma page_aligned_mask [simp]: "page_aligned (x AND 0xFFFFF000)"
proof -
  have "take_bit 12 (x AND 0xFFFFF000) = 0"
    by (rule bit_word_eqI) (auto simp: bit_take_bit_iff bit_and_iff bit_page_mask)
  then show ?thesis by (simp add: page_aligned_def take_bit_eq_mod)
qed

lemma page_aligned_word_aligned: "page_aligned p \<Longrightarrow> word_aligned p"
  by (auto simp: page_aligned_uint word_aligned_def dvd_eq_mod_eq_0 [symmetric]
      intro: dvd_trans [of 4 4096])

lemma word_aligned_add: "word_aligned p \<Longrightarrow> word_aligned (p + 4 * i)"
  by (simp add: word_aligned_def uint_word_ariths dvd_eq_mod_eq_0 mod_mod_cancel mod_simps)

lemma word_slot_less: "(i :: u32) < 1024 \<Longrightarrow> 4 * i < 4096"
proof -
  assume "i < 1024"
  then have "unat i < 1024" by (simp add: word_less_nat_alt)
  then have "unat (4 * i) = 4 * unat i" by (simp add: unat_word_ariths)
  with \<open>unat i < 1024\<close> show ?thesis by (simp add: word_less_nat_alt)
qed

lemma word_slot_inj: "(i :: u32) < 1024 \<Longrightarrow> j < 1024 \<Longrightarrow> 4 * i = 4 * j \<Longrightarrow> i = j"
proof -
  assume b: "i < 1024" "j < 1024" and e: "4 * i = 4 * j"
  then have "unat i < 1024" "unat j < 1024" by (auto simp: word_less_nat_alt)
  then have "unat (4 * i) = 4 * unat i" "unat (4 * j) = 4 * unat j"
    by (simp_all add: unat_word_ariths)
  with e have "unat i = unat j" by simp
  then show "i = j" by (rule unsigned_word_eqI)
qed

text \<open>The words of two tables, one page each: they are apart unless they are the same word.\<close>

lemma table_slots_apart:
  assumes "page_aligned p" "page_aligned q" "i < 1024" "j < 1024" "p \<noteq> q \<or> i \<noteq> j"
  shows "4 \<le> (p + 4 * i) - (q + 4 * j)"
proof (rule word_aligned_apart)
  show "p + 4 * i \<noteq> q + 4 * j"
  proof
    assume e: "p + 4 * i = q + 4 * j"
    have "p = q"
      using page_mask_add [OF assms(1) word_slot_less [OF assms(3)]]
        page_mask_add [OF assms(2) word_slot_less [OF assms(4)]] e by simp
    with e assms(5) word_slot_inj [OF assms(3,4)] show False by simp
  qed
qed (simp_all add: word_aligned_add page_aligned_word_aligned assms)

lemma read32_write32_slots [mem_simps]:
  assumes "page_aligned p" "page_aligned q" "i < 1024" "j < 1024"
  shows "read32 (write32 m (p + 4 * i) v) (q + 4 * j) =
    (if p = q \<and> i = j then v else read32 m (q + 4 * j))"
proof (cases "p = q \<and> i = j")
  case False
  then have "4 \<le> (p + 4 * i) - (q + 4 * j)" "4 \<le> (q + 4 * j) - (p + 4 * i)"
    using table_slots_apart assms by auto
  with False show ?thesis by (auto simp: read32_write32_other)
qed auto

text \<open>A memory given by its words, for concrete page tables: word \<open>n\<close> lies at address \<open>4 * n\<close>.\<close>

definition mem_of_words :: "(u32 \<Rightarrow> u32) \<Rightarrow> mem" where
  "mem_of_words w a = ucast (drop_bit (8 * unat (a mod 4)) (w (a div 4)))"

lemma word_aligned_offset:
  assumes "word_aligned a" "k < 4" shows "(a + k) div 4 = a div 4" "(a + k) mod 4 = k"
proof -
  define q where "q = uint a div 4"
  have a: "uint a = 4 * q" using assms(1) by (auto simp: word_aligned_def q_def)
  have k: "uint k < 4" "0 \<le> uint k" using assms(2) by (simp_all add: word_less_def)
  have "q < 2 ^ 30" using uint_lt2p [of a] a by simp
  then have s: "uint (a + k) = 4 * q + uint k"
    using a k by (simp add: uint_plus_if_size word_size)
  show "(a + k) div 4 = a div 4" "(a + k) mod 4 = k"
    using a k by (simp_all add: word_uint_eq_iff uint_div uint_mod s del: uint_eq_iff)
qed

lemma read32_mem_of_words:
  assumes "word_aligned a" shows "read32 (mem_of_words w) a = w (a div 4)"
  using le_bytes_join32 [of "w (a div 4)"] word_aligned_offset [OF assms, of 0]
    word_aligned_offset [OF assms, of 1] word_aligned_offset [OF assms, of 2]
    word_aligned_offset [OF assms, of 3]
  by (simp add: read32_def mem_of_words_def)

text \<open>Little-endian fields of a packed structure given by its bytes.\<close>

definition le16 :: "u8 list \<Rightarrow> nat \<Rightarrow> u16" where
  "le16 bs i = ucast (bs ! i) OR push_bit 8 (ucast (bs ! (i + 1)))"

definition le32 :: "u8 list \<Rightarrow> nat \<Rightarrow> u32" where
  "le32 bs i = ucast (bs ! i) OR push_bit 8 (ucast (bs ! (i + 1)))
     OR push_bit 16 (ucast (bs ! (i + 2))) OR push_bit 24 (ucast (bs ! (i + 3)))"

section \<open>Tables\<close>

text \<open>The search for the first place of a table that is free, as the kernel's loops do it.\<close>

fun first_slot :: "('a \<Rightarrow> bool) \<Rightarrow> 'a list \<Rightarrow> nat option" where
  "first_slot P [] = None"
| "first_slot P (x # xs) = (if P x then Some 0 else map_option Suc (first_slot P xs))"

lemma first_slot_None [simp]: "first_slot P xs = None \<longleftrightarrow> (\<forall>x\<in>set xs. \<not> P x)"
  by (induction xs) auto

lemma first_slot_Some:
  "first_slot P xs = Some i \<longleftrightarrow> i < length xs \<and> P (xs ! i) \<and> (\<forall>j<i. \<not> P (xs ! j))"
proof (induction xs arbitrary: i)
  case (Cons x xs)
  then show ?case by (cases i) (auto simp: less_Suc_eq_0_disj)
qed simp

lemma first_slot_SomeD:
  "first_slot P xs = Some i \<Longrightarrow> i < length xs" "first_slot P xs = Some i \<Longrightarrow> P (xs ! i)"
  by (simp_all add: first_slot_Some)

end
