(* ===== verification/Memory.thy ===== *)
theory Memory
  imports Kernel_Prelude
begin

text \<open>
  The byte routines of \<^verbatim>\<open>src/memory/memory.c\<close> on the physical memory. Each loop is a
  recursive function over the memory and the loop's own variables; \<open>memset\<close> and \<open>memcpy\<close>
  return the new memory (the C routines also return their first argument).
\<close>

section \<open>memset\<close>

function memset_loop :: "mem \<Rightarrow> addr \<Rightarrow> u8 \<Rightarrow> u32 \<Rightarrow> u32 \<Rightarrow> mem" where
  "memset_loop m ptr c sz i =
     (if i < sz then memset_loop (m(ptr + i := c)) ptr c sz (i + 1) else m)"
  by pat_completeness auto
termination
  by (relation "measure (\<lambda>(m, ptr, c, sz, i). unat sz - unat i)")
    (auto simp: word_less_Suc_unat word_less_nat_alt)

declare memset_loop.simps [simp del]

lemma memset_loop_done [simp]: "memset_loop m ptr c sz sz = m"
  by (subst memset_loop.simps) simp

definition memset :: "mem \<Rightarrow> addr \<Rightarrow> int \<Rightarrow> u32 \<Rightarrow> mem" where
  "memset m ptr c sz = memset_loop m ptr (word_of_int c) sz 0"

lemma memset_loop_apply:
  "i \<le> sz \<Longrightarrow> memset_loop m ptr c sz i a = (if i \<le> a - ptr \<and> a - ptr < sz then c else m a)"
proof (induction m ptr c sz i rule: memset_loop.induct)
  case (1 m ptr c sz i)
  show ?case
  proof (cases "i < sz")
    case True
    have le: "i + 1 \<le> sz" and lt: "\<And>k. k < i + 1 \<longleftrightarrow> k < i \<or> k = i"
      using word_less_Suc_unat [OF True] True word_less_add1_iff [OF True]
      by (auto simp: word_le_nat_alt word_less_nat_alt)
    have "a = ptr + i \<longleftrightarrow> a - ptr = i"
      by (rule offset_add_iff)
    with True show ?thesis
      using lt [of "a - ptr"]
      by (auto simp: memset_loop.simps [of m ptr c sz i] "1.IH" [OF True le] not_less [symmetric])
  next
    case False
    then show ?thesis
      using "1.prems" by auto
  qed
qed

lemma memset_apply [mem_simps]:
  "memset m p c n a = (if a - p < n then word_of_int c else m a)"
  by (simp add: memset_def memset_loop_apply)

section \<open>memcpy\<close>

text \<open>\<open>while(len--)\<close> stops at zero only, so a length is the unsigned value of the C \<open>int\<close>.\<close>

function memcpy :: "mem \<Rightarrow> addr \<Rightarrow> addr \<Rightarrow> u32 \<Rightarrow> mem" where
  "memcpy m d s len =
     (if len = 0 then m else memcpy (m(d := m s)) (d + 1) (s + 1) (len - 1))"
  by pat_completeness auto
termination
  by (relation "measure (\<lambda>(m, d, s, len). unat len)") (auto simp: unat_minus_one_less)

declare memcpy.simps [simp del]

lemma memcpy_0 [simp]: "memcpy m d s 0 = m"
  by (subst memcpy.simps) simp

lemma word_less_step:
  assumes "(n :: addr) \<noteq> 0"
  shows "x - 1 < n - 1 \<or> x = 0 \<longleftrightarrow> x < n"
proof (cases "x = 0")
  case True
  then show ?thesis using assms by (simp add: word_neq_0_conv)
next
  case False
  then have "0 < unat x" by (simp add: unat_gt_0)
  with False assms show ?thesis
    by (auto simp: word_less_nat_alt unat_minus_one)
qed

text \<open>
  The copy runs upwards, so it is right unless the destination starts strictly inside the
  source; in particular for disjoint ranges and for a copy to a lower address.
\<close>

lemma memcpy_apply:
  "n \<le> d - s \<or> d = s \<Longrightarrow> memcpy m d s n a = (if a - d < n then m (s + (a - d)) else m a)"
proof (induction m d s n rule: memcpy.induct)
  case (1 m d s n)
  show ?case
  proof (cases "n = 0")
    case True
    then show ?thesis by simp
  next
    case False
    let ?m = "m(d := m s)"
    have cond: "n - 1 \<le> (d + 1) - (s + 1) \<or> d + 1 = s + 1"
      using "1.prems" False by (auto simp: word_le_nat_alt unat_minus_one)
    have step: "memcpy m d s n a = memcpy ?m (d + 1) (s + 1) (n - 1) a"
      using False by (simp add: memcpy.simps [of m d s n])
    have IH: "memcpy ?m (d + 1) (s + 1) (n - 1) a =
        (if a - (d + 1) < n - 1 then ?m (s + 1 + (a - (d + 1))) else ?m a)"
      by (rule "1.IH" [OF False cond])
    have off: "a - (d + 1) = (a - d) - 1" and src: "s + 1 + (a - (d + 1)) = s + (a - d)"
      by (simp_all add: algebra_simps)
    show ?thesis
    proof (cases "a = d")
      case True
      then have "\<not> a - (d + 1) < n - 1"
        by (simp add: not_less)
      with True show ?thesis
        using False step IH by (simp add: word_neq_0_conv)
    next
      case neq: False
      then have ne0: "a - d \<noteq> 0" by simp
      have same: "a - (d + 1) < n - 1 \<longleftrightarrow> a - d < n"
        using word_less_step [OF False, of "a - d"] ne0 by (simp only: off) blast
      have "memcpy m d s n a = (if a - d < n then ?m (s + (a - d)) else m a)"
        using neq by (simp only: step IH same src fun_upd_apply if_False)
      moreover have "?m (s + (a - d)) = m (s + (a - d))" if lt: "a - d < n"
      proof (cases "s + (a - d) = d")
        case True
        then have "d - s = a - d" by (metis add_diff_cancel_left')
        with "1.prems" lt have "d = s" by auto
        then show ?thesis by simp
      next
        case False
        then show ?thesis by simp
      qed
      ultimately show ?thesis by simp
    qed
  qed
qed

section \<open>memcmp\<close>

text \<open>The bytes are compared as C \<open>char\<close>, which is signed on this target.\<close>

fun memcmp_loop :: "mem \<Rightarrow> addr \<Rightarrow> addr \<Rightarrow> nat \<Rightarrow> int" where
  "memcmp_loop m c1 c2 0 = 0"
| "memcmp_loop m c1 c2 (Suc count) =
     (if m c1 \<noteq> m c2 then (if sint (m c1) < sint (m c2) then -1 else 1)
      else memcmp_loop m (c1 + 1) (c2 + 1) count)"

definition memcmp :: "mem \<Rightarrow> addr \<Rightarrow> addr \<Rightarrow> int \<Rightarrow> int" where
  "memcmp m s1 s2 count = memcmp_loop m s1 s2 (nat count)"

lemma memcmp_loop_0_iff:
  "memcmp_loop m s1 s2 n = 0 \<longleftrightarrow> bytes_at m s1 n = bytes_at m s2 n"
  by (induction n arbitrary: s1 s2) (auto simp: bytes_at_Suc)

lemma memcmp_loop_nonzero_iff:
  "bytes_at m s1 n \<noteq> bytes_at m s2 n \<longleftrightarrow>
     (\<exists>k<n. bytes_at m s1 k = bytes_at m s2 k \<and> m (s1 + of_nat k) \<noteq> m (s2 + of_nat k) \<and>
        memcmp_loop m s1 s2 n =
          (if sint (m (s1 + of_nat k)) < sint (m (s2 + of_nat k)) then -1 else 1))"
proof (induction n arbitrary: s1 s2)
  case (Suc n)
  show ?case
  proof (cases "m s1 = m s2")
    case False
    then show ?thesis by (auto simp: bytes_at_Suc intro!: exI [of _ 0])
  next
    case True
    then show ?thesis
      by (auto simp: bytes_at_Suc Suc.IH [of "s1 + 1" "s2 + 1"] Ex_less_Suc2 add.assoc)
  qed
qed simp

section \<open>Properties\<close>

text \<open>
  \<open>memcpy\<close> copies its source range to its destination and changes no other byte, for every
  pair of ranges in which the destination does not start strictly inside the source (so also for
  overlapping ranges copied downwards).
\<close>
theorem memcpy_copies:
  assumes "n \<le> d - s \<or> d = s"
  shows "bytes_at (memcpy m d s n) d (unat n) = bytes_at m s (unat n) \<and>
    (\<forall>a. n \<le> a - d \<longrightarrow> memcpy m d s n a = m a)"
proof (intro conjI allI impI)
  show "bytes_at (memcpy m d s n) d (unat n) = bytes_at m s (unat n)"
    by (rule nth_equalityI) (simp_all add: memcpy_apply [OF assms] of_nat_less_word)
  show "memcpy m d s n a = m a" if "n \<le> a - d" for a
    using that by (simp add: memcpy_apply [OF assms] not_less [symmetric])
qed

text \<open>The overlapping move of three bytes one address down.\<close>
theorem memcpy_copies_witness:
  "bytes_at (memcpy ((\<lambda>_. 0)(10 := 1, 11 := 2, 12 := 3)) 9 10 3) 9 3 = [1, 2, 3]"
proof -
  have "bytes_at (memcpy ((\<lambda>_. 0)(10 := 1, 11 := 2, 12 := 3)) 9 10 3) 9 (unat (3 :: u32))
      = bytes_at ((\<lambda>_. 0)(10 := 1, 11 := 2, 12 := 3)) 10 (unat (3 :: u32))"
    by (rule conjunct1 [OF memcpy_copies]) simp
  then show ?thesis by (simp add: bytes_at_def upt_rec)
qed

text \<open>
  \<open>memcmp\<close> returns 0 exactly when the two ranges hold the same bytes; otherwise it returns
  -1 or 1 by the first differing bytes read as \<^emph>\<open>signed\<close> chars (0x80 compares below 0x01).
\<close>
theorem memcmp_decides:
  "(memcmp m s1 s2 count = 0 \<longleftrightarrow> bytes_at m s1 (nat count) = bytes_at m s2 (nat count)) \<and>
   (memcmp m s1 s2 count \<noteq> 0 \<longleftrightarrow>
     (\<exists>k<nat count. bytes_at m s1 k = bytes_at m s2 k \<and> m (s1 + of_nat k) \<noteq> m (s2 + of_nat k) \<and>
        memcmp m s1 s2 count =
          (if sint (m (s1 + of_nat k)) < sint (m (s2 + of_nat k)) then -1 else 1)))"
  by (simp add: memcmp_def memcmp_loop_0_iff memcmp_loop_nonzero_iff)

end
