(* ===== verification/Strings.thy ===== *)
theory Strings
  imports Memory
begin

text \<open>
  The C string routines of \<^verbatim>\<open>src/string/string.c\<close> on the physical memory. A loop that
  walks to a terminator is a \<^theory_text>\<open>partial_function (option)\<close>, whose \<open>None\<close> is a loop that
  never ends; a loop with a counter is a function with a measure. \<open>c_string m p xs\<close> says that
  the zero-terminated string at \<open>p\<close> holds the bytes \<open>xs\<close>; the routines are specified by the
  list functions they compute on it.
\<close>

section \<open>Zero-terminated strings in memory\<close>

fun c_string :: "mem \<Rightarrow> addr \<Rightarrow> u8 list \<Rightarrow> bool" where
  "c_string m p [] \<longleftrightarrow> m p = 0"
| "c_string m p (x # xs) \<longleftrightarrow> x \<noteq> 0 \<and> m p = x \<and> c_string m (p + 1) xs"

lemma c_string_iff_nth:
  "c_string m p xs \<longleftrightarrow>
     0 \<notin> set xs \<and> (\<forall>i<length xs. m (p + of_nat i) = xs ! i) \<and> m (p + of_nat (length xs)) = 0"
proof (induction xs arbitrary: p)
  case (Cons x xs)
  show ?case
    by (auto simp: Cons.IH nth_Cons' ac_simps All_less_Suc2)
qed simp

lemma c_string_unique: "c_string m p xs \<Longrightarrow> c_string m p ys \<Longrightarrow> xs = ys"
proof (induction xs arbitrary: p ys)
  case Nil
  then show ?case by (cases ys) auto
next
  case (Cons x xs)
  then show ?case by (cases ys) auto
qed

section \<open>Characters\<close>

text \<open>A C \<open>char\<close> is signed: the comparisons read the byte by \<open>sint\<close>.\<close>

definition tolower :: "u8 \<Rightarrow> u8" where
  "tolower s1 = (if sint s1 \<ge> 65 \<and> sint s1 \<le> 90 then s1 + 32 else s1)"

definition isdigit :: "u8 \<Rightarrow> bool" where
  "isdigit c \<longleftrightarrow> sint c \<ge> 48 \<and> sint c \<le> 57"

definition tonumericdigit :: "u8 \<Rightarrow> int" where
  "tonumericdigit c = sint c - 48"

section \<open>Lengths\<close>

partial_function (option) strlen_loop :: "mem \<Rightarrow> addr \<Rightarrow> int \<Rightarrow> int option" where
  "strlen_loop m ptr i = (if m ptr \<noteq> 0 then strlen_loop m (ptr + 1) (i + 1) else Some i)"

definition strlen :: "mem \<Rightarrow> addr \<Rightarrow> int option" where
  "strlen m ptr = strlen_loop m ptr 0"

function strnlen_loop :: "mem \<Rightarrow> addr \<Rightarrow> int \<Rightarrow> int \<Rightarrow> int" where
  "strnlen_loop m ptr mx i =
     (if i < mx \<and> m (ptr + word_of_int i) \<noteq> 0 then strnlen_loop m ptr mx (i + 1) else i)"
  by pat_completeness auto
termination
  by (relation "measure (\<lambda>(m, ptr, mx, i). nat (mx - i))") auto

declare strnlen_loop.simps [simp del]

definition strnlen :: "mem \<Rightarrow> addr \<Rightarrow> int \<Rightarrow> int" where
  "strnlen m ptr mx = strnlen_loop m ptr mx 0"

function strnlen_terminator_loop :: "mem \<Rightarrow> addr \<Rightarrow> int \<Rightarrow> u8 \<Rightarrow> int \<Rightarrow> int" where
  "strnlen_terminator_loop m str mx terminator i =
     (if i < mx \<and> \<not> (m (str + word_of_int i) = 0 \<or> m (str + word_of_int i) = terminator)
      then strnlen_terminator_loop m str mx terminator (i + 1) else i)"
  by pat_completeness auto
termination
  by (relation "measure (\<lambda>(m, str, mx, t, i). nat (mx - i))") auto

declare strnlen_terminator_loop.simps [simp del]

definition strnlen_terminator :: "mem \<Rightarrow> addr \<Rightarrow> int \<Rightarrow> u8 \<Rightarrow> int" where
  "strnlen_terminator m str mx terminator = strnlen_terminator_loop m str mx terminator 0"

lemma strlen_loop_c_string: "c_string m p xs \<Longrightarrow> strlen_loop m p i = Some (i + int (length xs))"
  by (induction xs arbitrary: p i) (auto simp: strlen_loop.simps)

lemma strlen_c_string: "c_string m p xs \<Longrightarrow> strlen m p = Some (int (length xs))"
  by (simp add: strlen_def strlen_loop_c_string)

text \<open>A pointer wraps, so a walk meets every address: some zero byte anywhere is enough.\<close>

lemma c_string_exists:
  assumes "m a = 0" shows "\<exists>xs. c_string m p xs"
proof -
  have "m (p + of_nat (unat (a - p))) = 0" using assms by simp
  then have ex: "\<exists>n. m (p + of_nat n) = 0" by blast
  define n where "n = (LEAST n. m (p + of_nat n) = 0)"
  have "m (p + of_nat n) = 0" unfolding n_def using ex by (rule LeastI_ex)
  moreover have "m (p + of_nat i) \<noteq> 0" if "i < n" for i
    using that unfolding n_def by (rule not_less_Least)
  ultimately have "c_string m p (bytes_at m p n)"
    by (auto simp: c_string_iff_nth in_set_conv_nth)
  then show ?thesis by blast
qed

lemma strlen_loop_None:
  assumes ret: "strlen_loop m p i = Some r" shows "\<exists>a. m a = 0"
proof (rule strlen_loop.raw_induct [where P = "\<lambda>m p i r. \<exists>a. m a = 0", OF _ ret])
  fix f :: "mem \<Rightarrow> addr \<Rightarrow> int \<Rightarrow> int option" and m p i r
  assume "\<And>m p i r. f m p i = Some r \<Longrightarrow> \<exists>a. m a = 0"
    and "(if m p \<noteq> 0 then f m (p + 1) (i + 1) else Some i) = Some r"
  then show "\<exists>a. m a = 0" by (auto split: if_splits)
qed

lemma strnlen_loop_c_string:
  "c_string m p xs \<Longrightarrow> 0 \<le> i \<Longrightarrow> i \<le> mx \<Longrightarrow> i \<le> int (length xs) \<Longrightarrow>
   strnlen_loop m p mx i = min mx (int (length xs))"
proof (induction m p mx i rule: strnlen_loop.induct)
  case (1 m ptr mx i)
  have nth: "\<forall>k<length xs. m (ptr + of_nat k) \<noteq> 0" and z: "m (ptr + of_nat (length xs)) = 0"
    using "1.prems"(1) by (auto simp: c_string_iff_nth in_set_conv_nth)
  have w: "(word_of_int i :: addr) = of_nat (nat i)" using "1.prems"(2) by simp
  show ?case
  proof (cases "i < mx \<and> m (ptr + word_of_int i) \<noteq> 0")
    case True
    then have "nat i \<noteq> length xs" using z w by auto
    then have "i + 1 \<le> int (length xs)" using "1.prems" by linarith
    with True "1.prems" show ?thesis
      by (simp add: strnlen_loop.simps [of m ptr mx i] "1.IH")
  next
    case False
    have "i = mx" if "i \<noteq> int (length xs)"
    proof -
      have "nat i < length xs" using that "1.prems" by linarith
      then have "m (ptr + word_of_int i) \<noteq> 0" using nth w by simp
      with False "1.prems" show ?thesis by simp
    qed
    then have "i = mx \<or> i = int (length xs)" by blast
    then show ?thesis
      using "1.prems" False by (auto simp: strnlen_loop.simps [of m ptr mx i])
  qed
qed

lemma strnlen_c_string:
  "c_string m p xs \<Longrightarrow> 0 \<le> mx \<Longrightarrow> strnlen m p mx = min mx (int (length xs))"
  by (simp add: strnlen_def strnlen_loop_c_string)

section \<open>Comparison\<close>

text \<open>\<open>while(n-- > 0)\<close>: the loop counter is the number of rounds left.\<close>

fun strncmp_loop :: "mem \<Rightarrow> addr \<Rightarrow> addr \<Rightarrow> nat \<Rightarrow> int" where
  "strncmp_loop m str1 str2 0 = 0"
| "strncmp_loop m str1 str2 (Suc n) =
     (let u1 = m str1; u2 = m str2 in
      if u1 \<noteq> u2 then uint u1 - uint u2
      else if u1 = 0 then 0
      else strncmp_loop m (str1 + 1) (str2 + 1) n)"

definition strncmp :: "mem \<Rightarrow> addr \<Rightarrow> addr \<Rightarrow> int \<Rightarrow> int" where
  "strncmp m str1 str2 n = strncmp_loop m str1 str2 (nat n)"

fun istrncmp_loop :: "mem \<Rightarrow> addr \<Rightarrow> addr \<Rightarrow> nat \<Rightarrow> int" where
  "istrncmp_loop m s1 s2 0 = 0"
| "istrncmp_loop m s1 s2 (Suc n) =
     (let u1 = m s1; u2 = m s2 in
      if u1 \<noteq> u2 \<and> tolower u1 \<noteq> tolower u2 then uint u1 - uint u2
      else if u1 = 0 then 0
      else istrncmp_loop m (s1 + 1) (s2 + 1) n)"

definition istrncmp :: "mem \<Rightarrow> addr \<Rightarrow> addr \<Rightarrow> int \<Rightarrow> int" where
  "istrncmp m s1 s2 n = istrncmp_loop m s1 s2 (nat n)"

lemma tolower_eq_0_iff [simp]: "tolower x = 0 \<longleftrightarrow> x = 0"
proof
  assume h: "tolower x = 0"
  show "x = 0"
  proof (cases "sint x \<ge> 65 \<and> sint x \<le> 90")
    case True
    with h have "x = - 32" by (simp add: tolower_def add_eq_0_iff2)
    with True show ?thesis by simp
  next
    case False
    with h show ?thesis by (simp add: tolower_def split: if_splits)
  qed
qed (simp add: tolower_def)

lemma tolower_0 [simp]: "tolower 0 = 0"
  by simp

lemma strncmp_loop_0_iff:
  "c_string m p xs \<Longrightarrow> c_string m q ys \<Longrightarrow>
   strncmp_loop m p q n = 0 \<longleftrightarrow> take n xs = take n ys"
proof (induction n arbitrary: p q xs ys)
  case (Suc n)
  then show ?case by (cases xs; cases ys) (auto simp: Let_def uint_0_iff)
qed simp

lemma istrncmp_loop_0_iff:
  "c_string m p xs \<Longrightarrow> c_string m q ys \<Longrightarrow>
   istrncmp_loop m p q n = 0 \<longleftrightarrow> take n (map tolower xs) = take n (map tolower ys)"
proof (induction n arbitrary: p q xs ys)
  case (Suc n)
  then show ?case
    by (cases xs; cases ys) (auto simp: Let_def uint_0_iff)
qed simp

text \<open>A result other than zero is the difference of the bytes at the first difference.\<close>

lemma strncmp_loop_first_difference:
  "c_string m p xs \<Longrightarrow> c_string m q ys \<Longrightarrow> strncmp_loop m p q n \<noteq> 0 \<Longrightarrow>
   \<exists>k<n. k \<le> length xs \<and> k \<le> length ys \<and> take k xs = take k ys \<and>
     strncmp_loop m p q n = uint ((xs @ [0]) ! k) - uint ((ys @ [0]) ! k)"
proof (induction n arbitrary: p q xs ys)
  case (Suc n)
  show ?case
  proof (cases "m p = m q \<and> m p \<noteq> 0")
    case True
    then obtain x xs' ys' where xs: "xs = x # xs'" and ys: "ys = x # ys'"
      using Suc.prems(1,2) by (cases xs; cases ys) auto
    with True Suc.prems have ne: "strncmp_loop m (p + 1) (q + 1) n \<noteq> 0"
      and cs: "c_string m (p + 1) xs'" "c_string m (q + 1) ys'" by (auto simp: Let_def)
    from Suc.IH [OF cs ne] obtain k where
      "k < n" "k \<le> length xs'" "k \<le> length ys'" "take k xs' = take k ys'"
      "strncmp_loop m (p + 1) (q + 1) n = uint ((xs' @ [0]) ! k) - uint ((ys' @ [0]) ! k)"
      by blast
    moreover have "strncmp_loop m p q (Suc n) = strncmp_loop m (p + 1) (q + 1) n"
      using xs Suc.prems(1) True by (simp add: Let_def)
    ultimately show ?thesis by (intro exI [of _ "Suc k"]) (simp add: xs ys)
  next
    case False
    have "m p = (xs @ [0]) ! 0" "m q = (ys @ [0]) ! 0"
      using Suc.prems(1,2) by (cases xs; cases ys; auto)+
    with False Suc.prems(3) show ?thesis
      by (intro exI [of _ 0]) (auto simp: Let_def split: if_splits)
  qed
qed simp

section \<open>Copying\<close>

partial_function (option) strcpy_loop :: "mem \<Rightarrow> addr \<Rightarrow> addr \<Rightarrow> mem option" where
  "strcpy_loop m dest src =
     (if m src \<noteq> 0 then strcpy_loop (m(dest := m src)) (dest + 1) (src + 1)
      else Some (m(dest := 0)))"

lemma strcpy_loop_unfold:
  "strcpy_loop m dest src =
     (if m src \<noteq> 0 then strcpy_loop (m(dest := m src)) (dest + 1) (src + 1)
      else Some (m(dest := 0)))"
  by (subst strcpy_loop.simps) (simp add: fun_upd_def)

definition strcpy :: "mem \<Rightarrow> addr \<Rightarrow> addr \<Rightarrow> mem option" where
  "strcpy m dest src = strcpy_loop m dest src"

function strncpy_loop :: "mem \<Rightarrow> addr \<Rightarrow> addr \<Rightarrow> int \<Rightarrow> int \<Rightarrow> mem" where
  "strncpy_loop m dest src count i =
     (if i < count - 1 \<and> m (src + word_of_int i) \<noteq> 0
      then strncpy_loop (m(dest + word_of_int i := m (src + word_of_int i))) dest src count (i + 1)
      else m(dest + word_of_int i := 0))"
  by pat_completeness auto
termination
  by (relation "measure (\<lambda>(m, dest, src, count, i). nat (count - i))") auto

declare strncpy_loop.simps [simp del]

definition strncpy :: "mem \<Rightarrow> addr \<Rightarrow> addr \<Rightarrow> int \<Rightarrow> mem" where
  "strncpy m dest src count = strncpy_loop m dest src count 0"

lemma c_string_upd:
  "(\<And>i. i \<le> length xs \<Longrightarrow> d \<noteq> p + of_nat i) \<Longrightarrow> c_string (m(d := b)) p xs = c_string m p xs"
proof (induction xs arbitrary: p)
  case Nil
  then show ?case using Nil.prems [of 0] by auto
next
  case (Cons x xs)
  have "d \<noteq> p" using Cons.prems [of 0] by simp
  moreover have "d \<noteq> p + 1 + of_nat i" if "i \<le> length xs" for i
    using Cons.prems [of "Suc i"] that by (simp add: ac_simps)
  ultimately show ?case using Cons.IH [of "p + 1"] by auto
qed

lemma strcpy_loop_c_string:
  "c_string m src xs \<Longrightarrow> apart src (Suc (length xs)) dest (Suc (length xs)) \<Longrightarrow>
   strcpy_loop m dest src = Some (write_bytes m dest (xs @ [0]))"
proof (induction xs arbitrary: m dest src)
  case Nil
  then show ?case by (simp add: strcpy_loop_unfold fun_upd_def)
next
  case (Cons x xs)
  have ap: "apart (src + 1) (Suc (length xs)) (dest + 1) (Suc (length xs))"
    using Cons.prems(2) by (auto dest: apart_SucD)
  have "dest \<noteq> src + 1 + of_nat i" if "i \<le> length xs" for i
    using apart_neq [OF Cons.prems(2), of "Suc i"] that by (simp add: ac_simps)
  then have "c_string (m(dest := x)) (src + 1) xs"
    using Cons.prems(1) by (simp add: c_string_upd)
  from Cons.IH [OF this ap] Cons.prems(1) show ?case
    by (simp add: strcpy_loop_unfold [of m dest src] fun_upd_def)
qed

lemma strncpy_loop_c_string:
  "c_string m (src + of_nat i) xs \<Longrightarrow>
   apart (src + of_nat i) (Suc (length xs)) (dest + of_nat i) (Suc (length (take n xs))) \<Longrightarrow>
   n = nat (count - 1 - int i) \<Longrightarrow>
   strncpy_loop m dest src count (int i) = write_bytes m (dest + of_nat i) (take n xs @ [0])"
proof (induction xs arbitrary: m i n)
  case Nil
  then show ?case by (simp add: strncpy_loop.simps [of m dest src count "int i"])
next
  case (Cons x xs)
  show ?case
  proof (cases "int i < count - 1")
    case False
    with Cons.prems(3) show ?thesis
      by (simp add: strncpy_loop.simps [of m dest src count "int i"])
  next
    case True
    then obtain n' where n: "n = Suc n'" and n': "n' = nat (count - 1 - int (Suc i))"
      using Cons.prems(3) by (cases n) auto
    let ?m = "m(dest + of_nat i := x)"
    have ap: "apart (src + of_nat (Suc i)) (Suc (length xs)) (dest + of_nat (Suc i)) (Suc (length (take n' xs)))"
      using apart_SucD [of "src + of_nat i" _ "dest + of_nat i"] Cons.prems(2) n by (simp add: ac_simps)
    have "dest + of_nat i \<noteq> src + of_nat (Suc i) + of_nat k" if "k \<le> length xs" for k
      using apart_neq [OF Cons.prems(2), of "Suc k"] that by (simp add: ac_simps)
    then have "c_string ?m (src + of_nat (Suc i)) xs"
      using Cons.prems(1) by (simp add: c_string_upd ac_simps)
    from Cons.IH [OF this ap n'] True Cons.prems(1) show ?thesis
      by (simp add: n strncpy_loop.simps [of m dest src count "int i"] ac_simps fun_upd_def)
  qed
qed

lemma strncpy_c_string:
  assumes "c_string m src xs"
    and "apart src (Suc (length xs)) dest (Suc (length (take (nat (count - 1)) xs)))"
  shows "strncpy m dest src count = write_bytes m dest (take (nat (count - 1)) xs @ [0])"
proof -
  have "strncpy_loop m dest src count (int 0)
      = write_bytes m (dest + of_nat 0) (take (nat (count - 1)) xs @ [0])"
    by (rule strncpy_loop_c_string) (use assms in simp_all)
  then show ?thesis by (simp add: strncpy_def)
qed

text \<open>Whatever the source, \<open>strncpy\<close> writes inside the first \<open>count\<close> bytes of its buffer.\<close>

lemma strncpy_loop_frame:
  assumes "0 \<le> i" "i < count" "count \<le> int (unat (a - dest))"
  shows "strncpy_loop m dest src count i a = m a"
  using assms
proof (induction m dest src count i rule: strncpy_loop.induct)
  case (1 m dest src count i)
  have ne: "a \<noteq> dest + word_of_int i"
  proof
    assume "a = dest + word_of_int i"
    then have "unat (a - dest) = unat (word_of_int i :: addr)" by simp
    also have "\<dots> \<le> nat i" using "1.prems" using unat_of_nat_le [of "nat i"] by simp
    finally show False using "1.prems" by linarith
  qed
  show ?case
    by (subst strncpy_loop.simps) (use "1.IH" "1.prems" ne in \<open>auto simp: fun_upd_def\<close>)
qed

lemma c_string_length:
  assumes "c_string m p xs" shows "length xs < 2 ^ 32"
proof (rule ccontr)
  assume "\<not> length xs < 2 ^ 32"
  then obtain k where k: "length xs = 2 ^ 32 + k" using le_Suc_ex not_less by blast
  have "(of_nat (length xs) :: addr) = of_nat k"
    unfolding k of_nat_add by simp
  then have "m (p + of_nat k) = 0"
    using assms by (simp add: c_string_iff_nth)
  moreover have "k < length xs" using k by simp
  ultimately show False using assms by (auto simp: c_string_iff_nth in_set_conv_nth)
qed

lemma c_string_write_bytes:
  assumes "0 \<notin> set ys" "length ys < 2 ^ 32" shows "c_string (write_bytes m d (ys @ [0])) d ys"
  unfolding c_string_iff_nth
proof (intro conjI allI impI)
  show "write_bytes m d (ys @ [0]) (d + of_nat i) = ys ! i" if "i < length ys" for i
    using write_bytes_inside [of i "ys @ [0]" m d] that assms by (simp add: nth_append)
  show "write_bytes m d (ys @ [0]) (d + of_nat (length ys)) = 0"
    using write_bytes_inside [of "length ys" "ys @ [0]" m d] assms by (simp add: nth_append)
qed (use assms in simp)

section \<open>Properties\<close>

text \<open>
  \<open>strlen\<close> returns exactly when some byte of memory is zero, and then returns the length of
  the string at its argument; on a memory without a zero byte its loop never ends.
\<close>
theorem strlen_returns_iff:
  "((\<exists>n. strlen m p = Some n) \<longleftrightarrow> (\<exists>a. m a = 0)) \<and>
   (strlen m p = Some k \<longleftrightarrow> (\<exists>xs. c_string m p xs \<and> k = int (length xs)))"
proof -
  have iff: "(\<exists>n. strlen m p = Some n) \<longleftrightarrow> (\<exists>a. m a = 0)"
    using c_string_exists [of m _ p] strlen_c_string strlen_loop_None
    unfolding strlen_def by blast
  then show ?thesis
    using c_string_exists [of m _ p] strlen_c_string [of m p] by fastforce
qed

text \<open>
  C40: \<open>strncpy\<close> into a buffer of \<open>count \<ge> 1\<close> bytes apart from the source leaves a terminated
  string there, the source cut to \<open>count - 1\<close> characters, and writes no byte outside the buffer.
\<close>
theorem strncpy_bounded:
  assumes "c_string m src xs" "1 \<le> count"
    and "apart src (Suc (length xs)) dest (nat count)"
  shows "c_string (strncpy m dest src count) dest (take (nat (count - 1)) xs) \<and>
    (\<forall>a. count \<le> int (unat (a - dest)) \<longrightarrow> strncpy m dest src count a = m a)"
proof (intro conjI allI impI)
  have "apart src (Suc (length xs)) dest (Suc (length (take (nat (count - 1)) xs)))"
    by (rule apart_mono [OF assms(3)]) (use assms(2) in auto)
  then have "strncpy m dest src count = write_bytes m dest (take (nat (count - 1)) xs @ [0])"
    by (rule strncpy_c_string [OF assms(1)])
  moreover have "0 \<notin> set (take (nat (count - 1)) xs)"
    using assms(1) in_set_takeD [of 0 "nat (count - 1)" xs] by (auto simp: c_string_iff_nth)
  ultimately show "c_string (strncpy m dest src count) dest (take (nat (count - 1)) xs)"
    using c_string_length [OF assms(1)] by (simp add: c_string_write_bytes)
  show "strncpy m dest src count a = m a" if "count \<le> int (unat (a - dest))" for a
    using that assms(2) by (simp add: strncpy_def strncpy_loop_frame)
qed

text \<open>The string \<open>abc\<close> copied into a buffer of three bytes.\<close>
theorem strncpy_bounded_witness:
  "c_string (strncpy ((\<lambda>_. 0)(100 := 97, 101 := 98, 102 := 99)) 200 100 3) 200 [97, 98]"
proof -
  have "apart 100 (Suc (length [97 :: u8, 98, 99])) 200 (nat 3)"
    by (auto simp: apart_def less_Suc_eq numeral_3_eq_3)
  moreover have "c_string ((\<lambda>_. 0)(100 := 97, 101 := 98, 102 := 99)) 100 [97, 98, 99]"
    by simp
  ultimately show ?thesis
    using conjunct1 [OF strncpy_bounded, of "(\<lambda>_. 0)(100 := 97, 101 := 98, 102 := 99)" 100 "[97, 98, 99]" 3 200]
    by (simp add: numeral_2_eq_2)
qed

text \<open>
  \<open>strncmp\<close> and \<open>istrncmp\<close> return 0 exactly when the first \<open>n\<close> characters agree, for
  \<open>istrncmp\<close> up to the case of ASCII letters; the comparison stops at the terminator.
\<close>
theorem strncmp_decides:
  assumes "c_string m p xs" "c_string m q ys"
  shows "(strncmp m p q n = 0 \<longleftrightarrow> take (nat n) xs = take (nat n) ys) \<and>
    (istrncmp m p q n = 0 \<longleftrightarrow> take (nat n) (map tolower xs) = take (nat n) (map tolower ys))"
  by (simp add: strncmp_def istrncmp_def strncmp_loop_0_iff [OF assms] istrncmp_loop_0_iff [OF assms])

text \<open>\<open>Ab\<close> against \<open>aB\<close>.\<close>
theorem strncmp_decides_witness:
  "istrncmp ((\<lambda>_. 0)(10 := 65, 11 := 98, 20 := 97, 21 := 66)) 10 20 9 = 0"
  using strncmp_decides [of "(\<lambda>_. 0)(10 := 65, 11 := 98, 20 := 97, 21 := 66)" 10 "[65, 98]" 20 "[97, 66]" 9]
  by (simp add: tolower_def)

end
