(* ===== verification/Heap.thy ===== *)
theory Heap
  imports Memory
begin

text \<open>
  The kernel heap: \<^verbatim>\<open>src/memory/heap/heap.c\<close> and \<^verbatim>\<open>kheap.c\<close>. A heap is a table with one
  byte per 4096-byte block, at the address \<open>entries\<close> of the physical memory, and the start
  address of the data pool. The table lives in the same memory as everything else, so an index
  outside the table reads and writes the bytes next to it, as it does in C.

  \<open>heap_malloc\<close> and \<open>kmalloc\<close> return the block's address (0 for none) and the new memory.
\<close>

section \<open>The table\<close>

record heap_table =
  entries :: addr
  total :: u32

record heap =
  heap_table_of :: heap_table
  saddr :: addr

abbreviation (input) BLOCK_TABLE_ENTRY_TAKEN :: u8 where "BLOCK_TABLE_ENTRY_TAKEN \<equiv> 0x01"
abbreviation (input) BLOCK_TABLE_ENTRY_FREE :: u8 where "BLOCK_TABLE_ENTRY_FREE \<equiv> 0x00"
abbreviation (input) BLOCK_HAS_NEXT :: u8 where "BLOCK_HAS_NEXT \<equiv> 0x80"
abbreviation (input) BLOCK_IS_FIRST :: u8 where "BLOCK_IS_FIRST \<equiv> 0x40"

text \<open>The address of \<open>table->entries[i]\<close> for a C \<open>int\<close> index.\<close>

abbreviation entry_addr :: "heap_table \<Rightarrow> int \<Rightarrow> addr" where
  "entry_addr t i \<equiv> entries t + word_of_int i"

section \<open>Creation\<close>

definition heap_validate_table :: "addr \<Rightarrow> addr \<Rightarrow> heap_table \<Rightarrow> status" where
  "heap_validate_table ptr end_ptr t =
     (let table_size = end_ptr - ptr;
          table_blocks = table_size div HEAP_BLOCK_SIZE
      in if total t \<noteq> table_blocks then Inl EINVARG else ALL_OK)"

definition heap_validate_alignment :: "addr \<Rightarrow> bool" where
  "heap_validate_alignment ptr \<longleftrightarrow> ptr mod HEAP_BLOCK_SIZE = 0"

definition heap_create :: "heap \<Rightarrow> addr \<Rightarrow> addr \<Rightarrow> heap_table \<Rightarrow> mem \<Rightarrow> status \<times> heap \<times> mem" where
  "heap_create h ptr end_ptr t m =
     (if \<not> heap_validate_alignment ptr \<or> \<not> heap_validate_alignment end_ptr then (Inl EINVARG, h, m)
      else let h = \<lparr>heap_table_of = t, saddr = ptr\<rparr> in
        (case heap_validate_table ptr end_ptr t of
           Inl e \<Rightarrow> (Inl e, h, m)
         | Inr _ \<Rightarrow> (ALL_OK, h, memset m (entries t) 0 (total t))))"

section \<open>Allocation\<close>

definition heap_align_value_to_upper :: "u32 \<Rightarrow> u32" where
  "heap_align_value_to_upper val =
     (if val mod HEAP_BLOCK_SIZE = 0 then val
      else val - val mod HEAP_BLOCK_SIZE + HEAP_BLOCK_SIZE)"

definition heap_get_entry_type :: "u8 \<Rightarrow> u8" where
  "heap_get_entry_type entry = entry AND 0x0f"

text \<open>The search loop, with its index \<open>i\<close>, its count \<open>bc\<close> and its start block \<open>bs\<close>.\<close>

function start_block_loop :: "mem \<Rightarrow> heap_table \<Rightarrow> int \<Rightarrow> u32 \<Rightarrow> int \<Rightarrow> int \<Rightarrow> int" where
  "start_block_loop m t total_blocks i bc bs =
     (if i < total t then
        (if heap_get_entry_type (m (entries t + i)) = BLOCK_TABLE_ENTRY_FREE
         then start_block_loop m t total_blocks (i + 1) 0 (-1)
         else let bs' = (if bs = -1 then sint i else bs); bc' = bc + 1 in
           if bc' = total_blocks then bs'
           else start_block_loop m t total_blocks (i + 1) bc' bs')
      else if bs = -1 then - errno ENOMEM
      else bs)"
  by pat_completeness auto
termination
  by (relation "measure (\<lambda>(m, t, n, i, bc, bs). unat (total t) - unat i)")
    (auto simp: word_less_Suc_unat word_less_nat_alt)

declare start_block_loop.simps [simp del]

definition heap_get_start_block :: "mem \<Rightarrow> heap \<Rightarrow> int \<Rightarrow> int" where
  "heap_get_start_block m h total_blocks =
     start_block_loop m (heap_table_of h) total_blocks 0 0 (-1)"

definition heap_block_to_address :: "heap \<Rightarrow> int \<Rightarrow> addr" where
  "heap_block_to_address h block = saddr h + word_of_int (block * HEAP_BLOCK_SIZE)"

function mark_taken_loop :: "mem \<Rightarrow> heap_table \<Rightarrow> int \<Rightarrow> u8 \<Rightarrow> int \<Rightarrow> mem" where
  "mark_taken_loop m t end_block entry i =
     (if i \<le> end_block then
        mark_taken_loop (m(entry_addr t i := entry)) t end_block
          (if i = end_block - 1 then BLOCK_TABLE_ENTRY_TAKEN OR BLOCK_HAS_NEXT
           else BLOCK_TABLE_ENTRY_TAKEN) (i + 1)
      else m)"
  by pat_completeness auto
termination
  by (relation "measure (\<lambda>(m, t, end_block, entry, i). nat (end_block + 1 - i))") auto

declare mark_taken_loop.simps [simp del]

definition heap_mark_blocks_taken :: "mem \<Rightarrow> heap \<Rightarrow> int \<Rightarrow> int \<Rightarrow> mem" where
  "heap_mark_blocks_taken m h start_block total_blocks =
     (let end_block = (start_block + total_blocks) - 1;
          entry = BLOCK_TABLE_ENTRY_TAKEN OR BLOCK_IS_FIRST;
          entry = (if end_block > 1 then entry OR BLOCK_HAS_NEXT else entry)
      in mark_taken_loop m (heap_table_of h) end_block entry start_block)"

definition heap_malloc_blocks :: "mem \<Rightarrow> heap \<Rightarrow> u32 \<Rightarrow> addr \<times> mem" where
  "heap_malloc_blocks m h total_blocks =
     (let start_block = heap_get_start_block m h (sint total_blocks) in
      if start_block < 0 then (0, m)
      else (heap_block_to_address h start_block,
            heap_mark_blocks_taken m h start_block (sint total_blocks)))"

definition heap_malloc :: "mem \<Rightarrow> heap \<Rightarrow> u32 \<Rightarrow> addr \<times> mem" where
  "heap_malloc m h sz =
     (let aligned_size = heap_align_value_to_upper sz;
          total_blocks = aligned_size div HEAP_BLOCK_SIZE
      in heap_malloc_blocks m h total_blocks)"

section \<open>Release\<close>

function mark_free_loop :: "mem \<Rightarrow> heap_table \<Rightarrow> int \<Rightarrow> mem" where
  "mark_free_loop m t i =
     (if i < sint (total t) then
        let entry = m (entry_addr t i);
            m' = m(entry_addr t i := BLOCK_TABLE_ENTRY_FREE)
        in if entry AND BLOCK_HAS_NEXT = 0 then m' else mark_free_loop m' t (i + 1)
      else m)"
  by pat_completeness auto
termination
  by (relation "measure (\<lambda>(m, t, i). nat (sint (total t) - i))") auto

declare mark_free_loop.simps [simp del]

definition heap_mark_blocks_free :: "mem \<Rightarrow> heap \<Rightarrow> int \<Rightarrow> mem" where
  "heap_mark_blocks_free m h starting_block = mark_free_loop m (heap_table_of h) starting_block"

text \<open>C division truncates towards zero, as \<open>sdiv\<close> does.\<close>

definition heap_address_to_block :: "heap \<Rightarrow> addr \<Rightarrow> int" where
  "heap_address_to_block h address = sint (address - saddr h) sdiv HEAP_BLOCK_SIZE"

definition heap_free :: "mem \<Rightarrow> heap \<Rightarrow> addr \<Rightarrow> mem" where
  "heap_free m h ptr = heap_mark_blocks_free m h (heap_address_to_block h ptr)"

section \<open>The kernel's heap\<close>

text \<open>
  \<open>kheap_init\<close> fills the globals \<open>kernel_heap_table\<close> and \<open>kernel_heap\<close>; a failure is only
  printed. The other routines work on the global heap \<open>h\<close>.
\<close>

definition kheap_init :: "heap \<Rightarrow> mem \<Rightarrow> status \<times> heap \<times> mem" where
  "kheap_init h m =
     (let total_heap_entries = HEAP_SIZE_BYTES div HEAP_BLOCK_SIZE;
          t = \<lparr>entries = HEAP_TABLE_ADDRESS, total = total_heap_entries\<rparr>;
          end_ptr = HEAP_ADDRESS + HEAP_SIZE_BYTES
      in heap_create h HEAP_ADDRESS end_ptr t m)"

definition kmalloc :: "mem \<Rightarrow> heap \<Rightarrow> u32 \<Rightarrow> addr \<times> mem" where
  "kmalloc m h sz = heap_malloc m h sz"

definition kzalloc :: "mem \<Rightarrow> heap \<Rightarrow> u32 \<Rightarrow> addr \<times> mem" where
  "kzalloc m h sz =
     (let (ptr, m) = kmalloc m h sz in
      if ptr = 0 then (0, m) else (ptr, memset m ptr 0 sz))"

definition kfree :: "mem \<Rightarrow> heap \<Rightarrow> addr \<Rightarrow> mem" where
  "kfree m h ptr = heap_free m h ptr"

lemmas heap_defs = heap_create_def heap_validate_table_def heap_validate_alignment_def
  heap_malloc_def heap_malloc_blocks_def heap_free_def heap_mark_blocks_free_def
  heap_mark_blocks_taken_def kmalloc_def kzalloc_def kfree_def

section \<open>Lemmas: search\<close>

text \<open>A block is free when the low nibble of its entry is zero.\<close>

abbreviation block_free :: "mem \<Rightarrow> heap_table \<Rightarrow> u32 \<Rightarrow> bool" where
  "block_free m t i \<equiv> heap_get_entry_type (m (entries t + i)) = BLOCK_TABLE_ENTRY_FREE"

definition all_free :: "mem \<Rightarrow> heap_table \<Rightarrow> bool" where
  "all_free m t \<longleftrightarrow> (\<forall>i<total t. block_free m t i)"

lemma entry_type_0 [simp]: "heap_get_entry_type 0 = 0"
  by (simp add: heap_get_entry_type_def)

lemma start_block_loop_all_free:
  "all_free m t \<Longrightarrow> bs = -1 \<Longrightarrow> start_block_loop m t n i bc bs = - errno ENOMEM"
proof (induction m t n i bc bs rule: start_block_loop.induct)
  case (1 m t n i bc bs)
  show ?case
    by (subst start_block_loop.simps) (use 1 in \<open>auto simp: all_free_def\<close>)
qed

text \<open>The block the search returns is one that is marked taken.\<close>

lemma start_block_loop_taken:
  "(bs = -1 \<or> (\<exists>k<i. bs = sint k \<and> k < total t \<and> \<not> block_free m t k)) \<Longrightarrow>
   0 \<le> start_block_loop m t n i bc bs \<Longrightarrow>
   \<exists>k<total t. start_block_loop m t n i bc bs = sint k \<and> \<not> block_free m t k"
proof (induction m t n i bc bs rule: start_block_loop.induct)
  case (1 m t n i bc bs)
  show ?case
  proof (cases "i < total t")
    case False
    with "1.prems" show ?thesis
      by (auto simp: start_block_loop.simps [of m t n i bc bs] split: if_splits)
  next
    case lt: True
    show ?thesis
    proof (cases "block_free m t i")
      case True
      with lt "1.prems" show ?thesis
        using "1.IH"(1) [OF lt True] by (simp add: start_block_loop.simps [of m t n i bc bs])
    next
      case taken: False
      let ?bs = "if bs = -1 then sint i else bs"
      have inv: "\<exists>k<i + 1. ?bs = sint k \<and> k < total t \<and> \<not> block_free m t k"
        using "1.prems"(1) lt taken by (auto simp: word_less_add1_iff [OF lt])
      show ?thesis
      proof (cases "bc + 1 = n")
        case True
        with lt taken inv show ?thesis
          by (auto simp: start_block_loop.simps [of m t n i bc bs] Let_def)
      next
        case False
        have step: "start_block_loop m t n i bc bs = start_block_loop m t n (i + 1) (bc + 1) ?bs"
          using lt taken False by (simp add: start_block_loop.simps [of m t n i bc bs] Let_def)
        show ?thesis
          unfolding step
          by (rule "1.IH"(2) [OF lt taken refl refl False]) (use inv "1.prems"(2) step in auto)
      qed
    qed
  qed
qed

lemma heap_get_start_block_taken:
  assumes "0 \<le> heap_get_start_block m h n"
  shows "\<exists>k<total (heap_table_of h).
    heap_get_start_block m h n = sint k \<and> \<not> block_free m (heap_table_of h) k"
  unfolding heap_get_start_block_def
  by (rule start_block_loop_taken) (use assms in \<open>auto simp: heap_get_start_block_def\<close>)

lemma heap_malloc_all_free:
  "all_free m (heap_table_of h) \<Longrightarrow> heap_malloc m h sz = (0, m)"
  by (simp add: heap_malloc_def heap_malloc_blocks_def heap_get_start_block_def
      start_block_loop_all_free)

section \<open>Lemmas: marking\<close>

lemma mark_taken_loop_done [simp]: "end_block < i \<Longrightarrow> mark_taken_loop m t end_block e i = m"
  by (subst mark_taken_loop.simps) simp

text \<open>What one run of the marking loop leaves in the table; its entries are fewer than \<open>2 ^ 32\<close>.\<close>

lemma mark_taken_loop_outside:
  "(\<And>k. i \<le> k \<Longrightarrow> k \<le> end_block \<Longrightarrow> a \<noteq> entry_addr t k) \<Longrightarrow>
   mark_taken_loop m t end_block e i a = m a"
proof (induction m t end_block e i rule: mark_taken_loop.induct)
  case (1 m t end_block e i)
  show ?case
  proof (cases "i \<le> end_block")
    case True
    have "a \<noteq> entry_addr t i" using "1.prems" [of i] True by simp
    moreover have "mark_taken_loop m t end_block e i a
        = (m(entry_addr t i := e)) a"
      using True "1.prems" by (subst mark_taken_loop.simps) (simp add: "1.IH")
    ultimately show ?thesis by simp
  qed simp
qed

lemma word_of_int_eq_close:
  assumes "(word_of_int i :: u32) = word_of_int j" "i \<le> j" "j < i + 2 ^ 32"
  shows "i = j"
proof -
  have "(2 ^ 32 :: int) dvd j - i"
    using assms(1) by (simp add: word_of_int_eq_iff take_bit_eq_mod mod_eq_dvd_iff dvd_diff_commute)
  with assms(2,3) show ?thesis
    by (metis diff_ge_0_iff_ge diff_less_eq dvd_imp_le_int zdvd_not_zless add.commute
        le_neq_trans diff_gt_0_iff_gt)
qed

lemma mark_taken_loop_inside:
  "i \<le> k \<Longrightarrow> k \<le> end_block \<Longrightarrow> end_block < i + 2 ^ 32 \<Longrightarrow>
   mark_taken_loop m t end_block e i (entry_addr t k) =
     (if k = i then e
      else if k = end_block then BLOCK_TABLE_ENTRY_TAKEN OR BLOCK_HAS_NEXT
      else BLOCK_TABLE_ENTRY_TAKEN)"
proof (induction m t end_block e i rule: mark_taken_loop.induct)
  case (1 m t end_block e i)
  let ?e = "if i = end_block - 1 then BLOCK_TABLE_ENTRY_TAKEN OR BLOCK_HAS_NEXT
            else BLOCK_TABLE_ENTRY_TAKEN"
  let ?m = "m(entry_addr t i := e)"
  have le: "i \<le> end_block" using "1.prems" by simp
  have step: "mark_taken_loop m t end_block e i (entry_addr t k)
      = mark_taken_loop ?m t end_block ?e (i + 1) (entry_addr t k)"
    using le by (subst mark_taken_loop.simps) simp
  show ?case
  proof (cases "k = i")
    case True
    have "entry_addr t i \<noteq> entry_addr t k'" if "i + 1 \<le> k'" "k' \<le> end_block" for k'
      using word_of_int_eq_close [of i k'] that "1.prems" by auto
    then have "mark_taken_loop ?m t end_block ?e (i + 1) (entry_addr t i) = ?m (entry_addr t i)"
      by (intro mark_taken_loop_outside) auto
    with True step show ?thesis by simp
  next
    case False
    then have "mark_taken_loop ?m t end_block ?e (i + 1) (entry_addr t k) =
        (if k = i + 1 then ?e
         else if k = end_block then BLOCK_TABLE_ENTRY_TAKEN OR BLOCK_HAS_NEXT
         else BLOCK_TABLE_ENTRY_TAKEN)"
      using "1.prems" by (intro "1.IH" [OF le]) auto
    with False step show ?thesis by auto
  qed
qed

section \<open>Lemmas: release\<close>

lemma mark_free_loop_done [simp]: "sint (total t) \<le> i \<Longrightarrow> mark_free_loop m t i = m"
  by (subst mark_free_loop.simps) simp

text \<open>Releasing a chain of entries \<open>i..j\<close> clears them and nothing else.\<close>

lemma mark_free_loop_chain:
  "i \<le> j \<Longrightarrow> j < sint (total t) \<Longrightarrow> j < i + 2 ^ 32 \<Longrightarrow>
   (\<And>k. i \<le> k \<Longrightarrow> k < j \<Longrightarrow> m (entry_addr t k) AND BLOCK_HAS_NEXT \<noteq> 0) \<Longrightarrow>
   m (entry_addr t j) AND BLOCK_HAS_NEXT = 0 \<or> j = sint (total t) - 1 \<Longrightarrow>
   mark_free_loop m t i a = (if \<exists>k. i \<le> k \<and> k \<le> j \<and> a = entry_addr t k then 0 else m a)"
proof (induction m t i rule: mark_free_loop.induct)
  case (1 m t i)
  let ?m = "m(entry_addr t i := 0)"
  have lt: "i < sint (total t)" using "1.prems" by simp
  show ?case
  proof (cases "i = j")
    case True
    then have "mark_free_loop m t i = ?m"
      using "1.prems"(2,5) lt
      by (subst mark_free_loop.simps) (auto simp: Let_def)
    then show ?thesis using True by auto
  next
    case False
    with "1.prems"(1) have ij: "i < j" by simp
    then have more: "m (entry_addr t i) AND BLOCK_HAS_NEXT \<noteq> 0" using "1.prems"(4) by simp
    have apart: "entry_addr t k \<noteq> entry_addr t i" if "i < k" "k \<le> j" for k
      using word_of_int_eq_close [of i k] that "1.prems"(3) by auto
    have step: "mark_free_loop m t i = mark_free_loop ?m t (i + 1)"
      using lt more by (subst mark_free_loop.simps) (simp add: Let_def)
    have "mark_free_loop ?m t (i + 1) a =
        (if \<exists>k. i + 1 \<le> k \<and> k \<le> j \<and> a = entry_addr t k then 0 else ?m a)"
      by (rule "1.IH" [OF lt refl refl more]) (use "1.prems" ij apart in auto)
    moreover have "(\<exists>k. i \<le> k \<and> k \<le> j \<and> a = entry_addr t k) \<longleftrightarrow>
        (\<exists>k. (k = i \<or> i + 1 \<le> k) \<and> k \<le> j \<and> a = entry_addr t k)"
      by (rule ex_cong1) auto
    then have "(\<exists>k. i \<le> k \<and> k \<le> j \<and> a = entry_addr t k) \<longleftrightarrow>
        a = entry_addr t i \<or> (\<exists>k. i + 1 \<le> k \<and> k \<le> j \<and> a = entry_addr t k)"
      using ij by (simp only: conj_disj_distribR ex_disj_distrib) auto
    ultimately show ?thesis
      unfolding step by (simp only: fun_upd_apply) auto
  qed
qed

text \<open>In every case release writes only zeros.\<close>

lemma mark_free_loop_zero: "mark_free_loop m t i a = m a \<or> mark_free_loop m t i a = 0"
proof (induction m t i rule: mark_free_loop.induct)
  case (1 m t i)
  let ?m = "m(entry_addr t i := 0)"
  show ?case
  proof (cases "i < sint (total t) \<and> m (entry_addr t i) AND BLOCK_HAS_NEXT \<noteq> 0")
    case True
    then have "mark_free_loop ?m t (i + 1) a = ?m a \<or> mark_free_loop ?m t (i + 1) a = 0"
      by (intro "1.IH" [OF _ refl refl]) auto
    moreover have "mark_free_loop m t i = mark_free_loop ?m t (i + 1)"
      using True by (subst mark_free_loop.simps) (simp add: Let_def)
    ultimately show ?thesis by auto
  next
    case False
    then show ?thesis by (subst (1 2) mark_free_loop.simps) (auto simp: Let_def)
  qed
qed

lemma mark_free_loop_head:
  "i < sint (total t) \<Longrightarrow> mark_free_loop m t i (entry_addr t i) = 0"
proof -
  assume i: "i < sint (total t)"
  let ?m = "m(entry_addr t i := 0)"
  have "mark_free_loop ?m t (i + 1) (entry_addr t i) = 0"
    using mark_free_loop_zero [of ?m t "i + 1" "entry_addr t i"] by auto
  with i show ?thesis by (subst mark_free_loop.simps) (simp add: Let_def)
qed

lemma heap_free_zero: "heap_free m h p a = m a \<or> heap_free m h p a = 0"
  by (simp add: heap_free_def heap_mark_blocks_free_def mark_free_loop_zero)

lemma all_free_heap_free: "all_free m t \<Longrightarrow> all_free (heap_free m h p) t"
  using heap_free_zero [of m h p] unfolding all_free_def by (metis entry_type_0)

section \<open>The life of a heap\<close>

text \<open>
  The states a heap passes through: it is created, then blocks are allocated and released in
  any order, with any sizes and any addresses, while the rest of the kernel writes the memory
  outside the table as it likes.
\<close>

inductive heap_reachable :: "heap \<Rightarrow> mem \<Rightarrow> bool" where
  create: "heap_create h0 p e t m0 = (ALL_OK, h, m) \<Longrightarrow> heap_reachable h m"
| malloc: "heap_reachable h m \<Longrightarrow> heap_malloc m h sz = (p, m') \<Longrightarrow> heap_reachable h m'"
| free: "heap_reachable h m \<Longrightarrow> heap_reachable h (heap_free m h p)"
| other: "heap_reachable h m \<Longrightarrow>
    (\<And>i. i < total (heap_table_of h) \<Longrightarrow>
       m' (entries (heap_table_of h) + i) = m (entries (heap_table_of h) + i)) \<Longrightarrow>
    heap_reachable h m'"

lemma heap_create_all_free:
  "heap_create h0 p e t m0 = (ALL_OK, h, m) \<Longrightarrow> all_free m (heap_table_of h)"
  by (auto simp: heap_create_def Let_def all_free_def memset_apply split: if_splits sum.splits)

lemma heap_reachable_all_free: "heap_reachable h m \<Longrightarrow> all_free m (heap_table_of h)"
proof (induction rule: heap_reachable.induct)
  case create
  then show ?case by (rule heap_create_all_free)
next
  case (malloc h m sz p m')
  then show ?case by (simp add: heap_malloc_all_free)
next
  case free
  then show ?case by (simp add: all_free_heap_free)
next
  case (other h m m')
  then show ?case by (simp add: all_free_def)
qed

lemma kzalloc_all_free: "all_free m (heap_table_of h) \<Longrightarrow> kzalloc m h sz = (0, m)"
  by (simp add: kzalloc_def kmalloc_def heap_malloc_all_free)

section \<open>The allocator as its clients see it\<close>

text \<open>
  What the rest of the kernel may rely on: a non-null result is page aligned and its bytes are
  zero. The laws do not say that the block is fresh: the theorem \<open>heap_malloc_not_free\<close> below
  shows that it never is.
\<close>

locale zero_page_allocator =
  fixes zalloc :: "'s \<Rightarrow> u32 \<Rightarrow> addr \<times> 's"
    and rd :: "'s \<Rightarrow> mem"
    and ok :: "'s \<Rightarrow> bool"
  assumes zalloc_aligned: "ok s \<Longrightarrow> zalloc s n = (p, s') \<Longrightarrow> page_aligned p"
    and zalloc_zero: "ok s \<Longrightarrow> zalloc s n = (p, s') \<Longrightarrow> p \<noteq> 0 \<Longrightarrow> a - p < n \<Longrightarrow> rd s' a = 0"
    and zalloc_ok: "ok s \<Longrightarrow> zalloc s n = (p, s') \<Longrightarrow> ok s'"
begin

text \<open>Flag bits below the page size do not disturb an address taken from the allocator.\<close>

lemma zalloc_mask_flags:
  assumes "ok s" "zalloc s n = (p, s')" "flags < HEAP_BLOCK_SIZE"
  shows "(p OR flags) AND 0xFFFFF000 = p"
  using zalloc_aligned [OF assms(1,2)] assms(3) by (simp add: page_mask_flags)

lemma zalloc_bytes:
  assumes "ok s" "zalloc s n = (p, s')" "p \<noteq> 0" "k \<le> unat n"
  shows "bytes_at (rd s') p k = replicate k 0"
proof (rule nth_equalityI)
  fix i assume "i < length (bytes_at (rd s') p k)"
  then have "i < k" by simp
  then have "(of_nat i :: u32) < n"
    using assms(4) unat_of_nat_le [of i, where ?'a = 32] by (simp add: word_less_nat_alt)
  then show "bytes_at (rd s') p k ! i = replicate k 0 ! i"
    using zalloc_zero [OF assms(1,2,3), of "p + of_nat i"] \<open>i < k\<close> by simp
qed simp

end

lemma block_address_aligned:
  assumes "page_aligned (saddr h)" shows "page_aligned (heap_block_to_address h b)"
  using page_aligned_add [OF assms] by (simp add: heap_block_to_address_def)

lemma heap_malloc_address:
  "heap_malloc m h sz = (p, m') \<Longrightarrow> p = 0 \<or> (\<exists>b\<ge>0. p = heap_block_to_address h b)"
  by (auto simp: heap_malloc_def heap_malloc_blocks_def Let_def not_less split: if_splits)

interpretation kernel_allocator: zero_page_allocator
  "\<lambda>s n. case kzalloc (fst s) (snd s) n of (p, m) \<Rightarrow> (p, (m, snd s))"
  fst "\<lambda>s. page_aligned (saddr (snd s))"
proof unfold_locales
  fix s :: "mem \<times> heap" and n p s'
  assume ok: "page_aligned (saddr (snd s))"
    and z: "(case kzalloc (fst s) (snd s) n of (p, m) \<Rightarrow> (p, (m, snd s))) = (p, s')"
  obtain q m' where mal: "heap_malloc (fst s) (snd s) n = (q, m')" by fastforce
  from z mal have p: "p = q"
    by (auto simp: kzalloc_def kmalloc_def split: if_splits)
  show "page_aligned p"
    using heap_malloc_address [OF mal] block_address_aligned [OF ok] p by auto
  show "page_aligned (saddr (snd s'))"
    using z ok by (auto split: prod.splits)
  show "fst s' a = 0" if "p \<noteq> 0" "a - p < n" for a
    using z mal that p by (auto simp: kzalloc_def kmalloc_def memset_apply split: if_splits)
qed

section \<open>Properties\<close>

text \<open>
  The kernel's own heap passes the validation of \<open>heap_create\<close>: 25600 blocks over the
  100 MB at 16 MB, every entry of its table free.
\<close>
theorem kheap_init_succeeds:
  "kheap_init h m =
     (ALL_OK, \<lparr>heap_table_of = \<lparr>entries = 0x7E00, total = 25600\<rparr>, saddr = 0x1000000\<rparr>,
      \<lambda>a. if a - 0x7E00 < 25600 then 0 else m a)"
  by (simp add: kheap_init_def heap_create_def heap_validate_alignment_def
      heap_validate_table_def Let_def memset_apply fun_eq_iff)

text \<open>
  \<open>heap_align_value_to_upper\<close> rounds a size up to a whole number of blocks, modulo
  \<open>2 ^ 32\<close>: a size above 0xFFFFF000 wraps to 0.
\<close>
theorem heap_align_value_to_upper_rounds:
  "uint (heap_align_value_to_upper val) = (4096 * ((uint val + 4095) div 4096)) mod 2 ^ 32"
proof -
  define q r where "q = uint val div 4096" and "r = uint val mod 4096"
  have eq: "uint (val mod 4096) = r" by (simp add: uint_mod r_def)
  have d: "uint val = r + 4095 - 4095 + 4096 * q" by (simp add: q_def r_def)
  have r: "0 \<le> r" "r < 4096" by (simp_all add: r_def)
  have bound: "uint val < 2 ^ 32" using uint_lt2p [of val] by simp
  have "(uint val + 4095) div 4096 = (r + 4095 + q * 4096) div 4096" by (simp add: d)
  then have quot: "(uint val + 4095) div 4096 = q + (r + 4095) div 4096"
    by (simp only: div_mult_self1 add.commute)
  show ?thesis
  proof (cases "r = 0")
    case True
    then have "val mod 4096 = 0" by (simp add: word_uint_eq_iff eq del: uint_eq_iff)
    moreover have "0 \<le> q" by (simp add: q_def pos_imp_zdiv_nonneg_iff)
    ultimately show ?thesis
      using True d quot bound by (simp add: heap_align_value_to_upper_def)
  next
    case False
    then have "(r + 4095) div 4096 = 1" using r by (simp add: int_div_pos_eq [where q = 1])
    moreover have "val mod 4096 \<noteq> 0" using eq False by (metis unsigned_0)
    then have "uint (heap_align_value_to_upper val) = (uint val - r + 4096) mod 2 ^ 32"
      by (simp add: heap_align_value_to_upper_def uint_word_ariths eq mod_simps)
    ultimately show ?thesis using d quot by simp
  qed
qed

text \<open>
  A block's address leads back to its block, for every block of a heap of up to 2 GB.
\<close>
theorem heap_block_address_roundtrip:
  assumes "0 \<le> b" "b < 2 ^ 19"
  shows "heap_address_to_block h (heap_block_to_address h b) = b"
proof -
  have "sint (word_of_int (b * 4096) :: u32) = b * 4096"
    using assms by (intro sint_word_of_int_small) auto
  then show ?thesis
    using assms by (simp add: heap_address_to_block_def heap_block_to_address_def
        signed_divide_int_def sgn_if)
qed

theorem heap_block_address_roundtrip_witness:
  "heap_address_to_block \<lparr>heap_table_of = \<lparr>entries = 0x7E00, total = 25600\<rparr>, saddr = 0x1000000\<rparr>
     (heap_block_to_address \<lparr>heap_table_of = \<lparr>entries = 0x7E00, total = 25600\<rparr>, saddr = 0x1000000\<rparr> 25599)
   = 25599"
  by (rule heap_block_address_roundtrip) simp_all

text \<open>
  \<open>heap_malloc\<close> only ever hands out a block that is marked taken already: the test in
  \<open>heap_get_start_block\<close> skips the free blocks, and collects the taken ones.
\<close>
theorem heap_malloc_not_free:
  assumes "heap_malloc m h sz = (p, m')" "p \<noteq> 0"
  shows "\<exists>k<total (heap_table_of h).
    p = heap_block_to_address h (sint k) \<and> \<not> block_free m (heap_table_of h) k"
proof -
  let ?n = "sint (heap_align_value_to_upper sz div 4096)"
  have "0 \<le> heap_get_start_block m h ?n"
    and p: "p = heap_block_to_address h (heap_get_start_block m h ?n)"
    using assms by (auto simp: heap_malloc_def heap_malloc_blocks_def Let_def not_less split: if_splits)
  with heap_get_start_block_taken [of m h ?n] show ?thesis by auto
qed

text \<open>A table whose block 1 is taken: the next request for a page gets block 1 again.\<close>
theorem heap_malloc_not_free_witness:
  "\<exists>k<total \<lparr>entries = 0, total = 4\<rparr>.
     0x2000 = heap_block_to_address \<lparr>heap_table_of = \<lparr>entries = 0, total = 4\<rparr>, saddr = 0x1000\<rparr> (sint k)
     \<and> \<not> block_free ((\<lambda>_. 0)(1 := 1)) \<lparr>entries = 0, total = 4\<rparr> k"
proof -
  let ?h = "\<lparr>heap_table_of = \<lparr>entries = 0, total = 4\<rparr>, saddr = 0x1000\<rparr>"
  let ?m = "(\<lambda>_. 0)(1 := 1) :: mem"
  have "fst (heap_malloc ?m ?h 4096) = 0x2000"
    by (simp add: heap_malloc_def heap_align_value_to_upper_def heap_malloc_blocks_def
        heap_get_start_block_def start_block_loop.simps heap_get_entry_type_def
        heap_block_to_address_def Let_def)
  then have "heap_malloc ?m ?h 4096 = (0x2000, snd (heap_malloc ?m ?h 4096))"
    by (metis prod.collapse)
  from heap_malloc_not_free [OF this] show ?thesis by simp
qed

text \<open>
  C1: So an allocation never succeeds on a heap that was created empty, whatever allocations and
  releases came before: \<open>kmalloc\<close> and \<open>kzalloc\<close> return the null pointer.
\<close>
theorem heap_reachable_malloc_fails:
  assumes "heap_reachable h m"
  shows "kmalloc m h sz = (0, m) \<and> kzalloc m h sz = (0, m)"
  using heap_reachable_all_free [OF assms]
  by (simp add: kmalloc_def heap_malloc_all_free kzalloc_all_free)

text \<open>The kernel's heap right after \<open>kheap_init\<close>, over a memory of zeros.\<close>
theorem heap_reachable_malloc_fails_witness:
  "case kheap_init \<lparr>heap_table_of = \<lparr>entries = 0, total = 0\<rparr>, saddr = 0\<rparr> (\<lambda>_. 0) of
     (_, h, m) \<Rightarrow> kmalloc m h 512 = (0, m)"
proof -
  let ?h = "\<lparr>heap_table_of = \<lparr>entries = 0, total = 0\<rparr>, saddr = 0\<rparr>" and ?m = "\<lambda>_. 0 :: u8"
  obtain h' m' where k: "kheap_init ?h ?m = (ALL_OK, h', m')"
    by (simp add: kheap_init_def heap_create_def heap_validate_alignment_def
        heap_validate_table_def Let_def)
  then have "heap_reachable h' m'"
    unfolding kheap_init_def Let_def by (rule heap_reachable.create)
  from heap_reachable_malloc_fails [OF this] show ?thesis by (simp add: k)
qed

text \<open>
  Releasing a one-block allocation at block 2 or above releases its neighbour too, because
  \<open>heap_mark_blocks_taken\<close> gives its only entry the has-next flag.
\<close>
theorem heap_free_single_overruns:
  assumes "2 \<le> b" "b + 1 < sint (total (heap_table_of h))"
  shows "heap_mark_blocks_free (heap_mark_blocks_taken m h b 1) h b
    (entry_addr (heap_table_of h) (b + 1)) = 0"
proof -
  let ?t = "heap_table_of h"
  let ?m = "m(entry_addr ?t b := 0xC1)" and ?m1 = "m(entry_addr ?t b := 0)"
  have taken: "heap_mark_blocks_taken m h b 1 = ?m"
    using assms by (simp add: heap_mark_blocks_taken_def Let_def mark_taken_loop.simps [of m ?t b _ b])
  have step: "mark_free_loop ?m ?t b = mark_free_loop ?m1 ?t (b + 1)"
    using assms by (simp add: mark_free_loop.simps [of ?m ?t b] Let_def)
  have "mark_free_loop ?m1 ?t (b + 1) (entry_addr ?t (b + 1)) = 0"
    by (rule mark_free_loop_head) (use assms in simp)
  then show ?thesis by (simp add: heap_mark_blocks_free_def taken step)
qed

theorem heap_free_single_overruns_witness:
  "heap_mark_blocks_free
     (heap_mark_blocks_taken ((\<lambda>_. 0)(3 := 0x41)) \<lparr>heap_table_of = \<lparr>entries = 0, total = 8\<rparr>, saddr = 0\<rparr> 2 1)
     \<lparr>heap_table_of = \<lparr>entries = 0, total = 8\<rparr>, saddr = 0\<rparr> 2 3 = 0"
  using heap_free_single_overruns
    [of 2 "\<lparr>heap_table_of = \<lparr>entries = 0, total = 8\<rparr>, saddr = 0\<rparr>" "(\<lambda>_. 0)(3 := 0x41)"]
  by simp



text \<open>
  On a heap whose data pool starts on a page, a block from \<open>kzalloc\<close> is page aligned and
  its \<open>sz\<close> bytes are zero.
\<close>
theorem kzalloc_aligned_zeroed:
  assumes "page_aligned (saddr h)" "kzalloc m h sz = (p, m')" "p \<noteq> 0"
  shows "page_aligned p \<and> bytes_at m' p (unat sz) = replicate (unat sz) 0"
  using kernel_allocator.zalloc_aligned [of "(m, h)" sz p "(m', h)"]
    kernel_allocator.zalloc_bytes [of "(m, h)" sz p "(m', h)" "unat sz"] assms
  by simp

theorem kzalloc_aligned_zeroed_witness:
  "let h = \<lparr>heap_table_of = \<lparr>entries = 0, total = 4\<rparr>, saddr = 0x1000\<rparr>;
       (p, m') = kzalloc ((\<lambda>_. 7)(0 := 0, 1 := 1)) h 2
   in p = 0x2000 \<and> bytes_at m' p (unat (2 :: u32)) = replicate (unat (2 :: u32)) 0"
proof -
  let ?h = "\<lparr>heap_table_of = \<lparr>entries = 0, total = 4\<rparr>, saddr = 0x1000\<rparr>"
  let ?m = "(\<lambda>_. 7)(0 := 0, 1 := 1) :: mem"
  obtain p m' where k: "kzalloc ?m ?h 2 = (p, m')" by fastforce
  then have p: "p = 0x2000"
    by (simp add: kzalloc_def kmalloc_def heap_malloc_def heap_align_value_to_upper_def
        heap_malloc_blocks_def heap_get_start_block_def start_block_loop.simps
        heap_get_entry_type_def heap_block_to_address_def Let_def)
  have "page_aligned (saddr ?h)" by (simp add: page_aligned_def)
  from kzalloc_aligned_zeroed [OF this k] show ?thesis
    by (simp add: k p Let_def)
qed

end
