(* ===== verification/Paging.thy ===== *)
theory Paging
  imports Heap
begin

unbundle bit_operations_syntax

text \<open>
  The two-level page tables of \<^verbatim>\<open>src/memory/paging/paging.c\<close>, kept in the physical memory: a
  chunk is the address of a word that holds the directory's address, the directory is 1024 words,
  each the address of a table with its flags, and a table is 1024 words, each the physical page
  mapped there with its flags. The C \<open>int\<close> counter \<open>offset\<close> of \<open>paging_new_4gb\<close> is modelled
  with the wrap-around of its 32 bits.
\<close>

abbreviation (input) PAGING_CACHE_DISABLED :: "'a::numeral" where "PAGING_CACHE_DISABLED \<equiv> 16"
abbreviation (input) PAGING_WRITE_THROUGH :: "'a::numeral" where "PAGING_WRITE_THROUGH \<equiv> 8"
abbreviation (input) PAGING_ACCESS_FROM_ALL :: "'a::numeral" where "PAGING_ACCESS_FROM_ALL \<equiv> 4"
abbreviation (input) PAGING_IS_WRITEABLE :: "'a::numeral" where "PAGING_IS_WRITEABLE \<equiv> 2"
abbreviation (input) PAGING_IS_PRESENT :: "'a::{one}" where "PAGING_IS_PRESENT \<equiv> 1"
abbreviation (input) PAGING_TOTAL_ENTRIES_PER_TABLE :: "'a::numeral" where
  "PAGING_TOTAL_ENTRIES_PER_TABLE \<equiv> 1024"
abbreviation (input) PAGING_PAGE_SIZE :: "'a::numeral" where "PAGING_PAGE_SIZE \<equiv> 4096"

section \<open>Operations\<close>

text \<open>The entries of one new table: \<open>b\<close> counts down the entries left to write.\<close>

fun fill_table :: "mem \<Rightarrow> addr \<Rightarrow> u32 \<Rightarrow> u8 \<Rightarrow> nat \<Rightarrow> mem" where
  "fill_table m entry offset flags 0 = m"
| "fill_table m entry offset flags (Suc b) =
     (let m' = fill_table m entry offset flags b
      in write32 m' (entry + 4 * of_nat b)
           ((offset + of_nat b * PAGING_PAGE_SIZE) OR ucast flags))"

fun fill_directory :: "mem \<Rightarrow> heap \<Rightarrow> addr \<Rightarrow> u8 \<Rightarrow> nat \<Rightarrow> mem" where
  "fill_directory m h directory flags 0 = m"
| "fill_directory m h directory flags (Suc i) =
     (let m1 = fill_directory m h directory flags i;
          (entry, m2) = kzalloc m1 h (4 * PAGING_TOTAL_ENTRIES_PER_TABLE);
          offset = of_nat i * (PAGING_PAGE_SIZE * PAGING_TOTAL_ENTRIES_PER_TABLE);
          m3 = fill_table m2 entry offset flags PAGING_TOTAL_ENTRIES_PER_TABLE
      in write32 m3 (directory + 4 * of_nat i) (entry OR ucast flags OR PAGING_IS_WRITEABLE))"

definition paging_new_4gb :: "mem \<Rightarrow> heap \<Rightarrow> u8 \<Rightarrow> addr \<times> mem" where
  "paging_new_4gb m h flags =
     (let (directory, m1) = kzalloc m h (4 * PAGING_TOTAL_ENTRIES_PER_TABLE);
          m2 = fill_directory m1 h directory flags PAGING_TOTAL_ENTRIES_PER_TABLE;
          (chunk_4gb, m3) = kzalloc m2 h 4
      in (chunk_4gb, write32 m3 chunk_4gb directory))"

definition directory_entry :: "mem \<Rightarrow> addr \<Rightarrow> addr" where
  "directory_entry m chunk = read32 m chunk"

text \<open>
  The new value of the static variable \<open>current_directory\<close>; \<open>paging_load_directory\<close>
  (assembly) puts the same address into CR3.
\<close>

definition paging_switch :: "mem \<Rightarrow> addr \<Rightarrow> addr" where
  "paging_switch m directory = directory_entry m directory"

fun free_tables :: "mem \<Rightarrow> heap \<Rightarrow> addr \<Rightarrow> nat \<Rightarrow> mem" where
  "free_tables m h chunk 0 = m"
| "free_tables m h chunk (Suc i) =
     (let m' = free_tables m h chunk i;
          entry = read32 m' (directory_entry m' chunk + 4 * of_nat i);
          table = entry AND 0xfffff000
      in kfree m' h table)"

definition paging_free_4gb :: "mem \<Rightarrow> heap \<Rightarrow> addr \<Rightarrow> mem" where
  "paging_free_4gb m h chunk =
     (let m1 = free_tables m h chunk 1024;
          m2 = kfree m1 h (directory_entry m1 chunk)
      in kfree m2 h chunk)"

definition paging_4gb_chunk_get_directory :: "mem \<Rightarrow> addr \<Rightarrow> addr" where
  "paging_4gb_chunk_get_directory m chunk = directory_entry m chunk"

definition paging_is_aligned :: "addr \<Rightarrow> bool" where
  "paging_is_aligned a \<longleftrightarrow> a mod PAGING_PAGE_SIZE = 0"

definition paging_get_indexes :: "addr \<Rightarrow> error + u32 \<times> u32" where
  "paging_get_indexes virt =
     (if \<not> paging_is_aligned virt then Inl EINVARG
      else Inr (virt div (PAGING_TOTAL_ENTRIES_PER_TABLE * PAGING_PAGE_SIZE),
                virt mod (PAGING_TOTAL_ENTRIES_PER_TABLE * PAGING_PAGE_SIZE) div PAGING_PAGE_SIZE))"

definition paging_align_address :: "addr \<Rightarrow> addr" where
  "paging_align_address p =
     (if p mod PAGING_PAGE_SIZE \<noteq> 0 then p + PAGING_PAGE_SIZE - p mod PAGING_PAGE_SIZE else p)"

definition paging_align_to_lower_page :: "addr \<Rightarrow> addr" where
  "paging_align_to_lower_page a = a - a mod PAGING_PAGE_SIZE"

definition paging_set :: "mem \<Rightarrow> addr \<Rightarrow> addr \<Rightarrow> u32 \<Rightarrow> status \<times> mem" where
  "paging_set m directory virt val =
     (if \<not> paging_is_aligned virt then (Inl EINVARG, m)
      else case paging_get_indexes virt of
        Inl e \<Rightarrow> (Inl e, m)
      | Inr (directory_index, table_index) \<Rightarrow>
          (let entry = read32 m (directory + 4 * directory_index);
               table = entry AND 0xfffff000
           in (ALL_OK, write32 m (table + 4 * table_index) val)))"

definition paging_get :: "mem \<Rightarrow> addr \<Rightarrow> addr \<Rightarrow> u32" where
  "paging_get m directory virt =
     (let (directory_index, table_index) =
            (case paging_get_indexes virt of Inl _ \<Rightarrow> (0, 0) | Inr i \<Rightarrow> i);
          entry = read32 m (directory + 4 * directory_index);
          table = entry AND 0xfffff000
      in read32 m (table + 4 * table_index))"

definition paging_map :: "mem \<Rightarrow> addr \<Rightarrow> addr \<Rightarrow> addr \<Rightarrow> u32 \<Rightarrow> status \<times> mem" where
  "paging_map m directory virt phys flags =
     (if virt mod PAGING_PAGE_SIZE \<noteq> 0 \<or> phys mod PAGING_PAGE_SIZE \<noteq> 0 then (Inl EINVARG, m)
      else paging_set m (directory_entry m directory) virt (phys OR flags))"

fun map_range_loop :: "mem \<Rightarrow> addr \<Rightarrow> addr \<Rightarrow> addr \<Rightarrow> nat \<Rightarrow> u32 \<Rightarrow> status \<times> mem" where
  "map_range_loop m directory virt phys 0 flags = (ALL_OK, m)"
| "map_range_loop m directory virt phys (Suc n) flags =
     (case paging_map m directory virt phys flags of
        (Inl e, m') \<Rightarrow> (Inl e, m')
      | (Inr _, m') \<Rightarrow>
          map_range_loop m' directory (virt + PAGING_PAGE_SIZE) (phys + PAGING_PAGE_SIZE) n flags)"

definition paging_map_range ::
    "mem \<Rightarrow> addr \<Rightarrow> addr \<Rightarrow> addr \<Rightarrow> int \<Rightarrow> u32 \<Rightarrow> status \<times> mem" where
  "paging_map_range m directory virt phys count flags =
     map_range_loop m directory virt phys (nat count) flags"

definition paging_map_to ::
    "mem \<Rightarrow> addr \<Rightarrow> addr \<Rightarrow> addr \<Rightarrow> addr \<Rightarrow> u32 \<Rightarrow> status \<times> mem" where
  "paging_map_to m directory virt phys phys_end flags =
     (if virt mod PAGING_PAGE_SIZE \<noteq> 0 then (Inl EINVARG, m)
      else if phys mod PAGING_PAGE_SIZE \<noteq> 0 then (Inl EINVARG, m)
      else if phys_end mod PAGING_PAGE_SIZE \<noteq> 0 then (Inl EINVARG, m)
      else if phys_end < phys then (Inl EINVARG, m)
      else let total_bytes = phys_end - phys;
               total_pages = sint (total_bytes div PAGING_PAGE_SIZE)
           in paging_map_range m directory virt phys total_pages flags)"

definition paging_get_physical_address :: "mem \<Rightarrow> addr \<Rightarrow> addr \<Rightarrow> addr" where
  "paging_get_physical_address m directory virt =
     (let virt_addr_new = paging_align_to_lower_page virt;
          difference = virt - virt_addr_new
      in (paging_get m directory virt_addr_new AND 0xfffff000) + difference)"

section \<open>The invariant of a directory\<close>

text \<open>
  The tables of a directory are pages of their own: none is the directory, no two are the same.
  The chunk that owns the directory lies in none of the tables.
\<close>

definition table_of :: "mem \<Rightarrow> addr \<Rightarrow> u32 \<Rightarrow> addr" where
  "table_of m d i = read32 m (d + 4 * i) AND 0xfffff000"

definition wf_directory :: "mem \<Rightarrow> addr \<Rightarrow> bool" where
  "wf_directory m d \<longleftrightarrow> page_aligned d
     \<and> (\<forall>i<1024. table_of m d i \<noteq> d)
     \<and> (\<forall>i<1024. \<forall>j<1024. table_of m d i = table_of m d j \<longrightarrow> i = j)"

definition wf_chunk :: "mem \<Rightarrow> addr \<Rightarrow> addr \<Rightarrow> bool" where
  "wf_chunk m c d \<longleftrightarrow> wf_directory m d \<and> word_aligned c \<and> directory_entry m c = d
     \<and> (\<forall>i<1024. table_of m d i \<noteq> c AND 0xfffff000)"

definition dir_index :: "addr \<Rightarrow> u32" where "dir_index v = v div 0x400000"
definition tab_index :: "addr \<Rightarrow> u32" where "tab_index v = v mod 0x400000 div 0x1000"

lemma paging_is_aligned_iff [simp]: "paging_is_aligned v \<longleftrightarrow> page_aligned v"
  by (simp add: paging_is_aligned_def page_aligned_def)

lemma paging_get_indexes_aligned:
  "page_aligned v \<Longrightarrow> paging_get_indexes v = Inr (dir_index v, tab_index v)"
  by (simp add: paging_get_indexes_def dir_index_def tab_index_def)

lemma uint_dir_index: "uint (dir_index v) = uint v div 0x400000"
  by (simp add: dir_index_def uint_div)

lemma uint_tab_index: "uint (tab_index v) = uint v mod 0x400000 div 0x1000"
  by (simp add: tab_index_def uint_div uint_mod)

lemma dir_index_less [simp]: "dir_index v < 1024"
proof -
  have "uint v < 1024 * 0x400000" using uint_lt2p [of v] by simp
  then have "uint v div 0x400000 < 1024" by (simp add: div_less_iff_less_mult)
  then show ?thesis by (simp add: word_less_def uint_dir_index)
qed

lemma tab_index_less [simp]: "tab_index v < 1024"
proof -
  have "uint v mod 0x400000 < 1024 * 0x1000" by simp
  then have "uint v mod 0x400000 div 0x1000 < 1024" by (simp add: div_less_iff_less_mult)
  then show ?thesis by (simp add: word_less_def uint_tab_index)
qed

lemma indexes_inj:
  assumes "page_aligned v" "page_aligned w"
    and "dir_index v = dir_index w" "tab_index v = tab_index w"
  shows "v = w"
proof -
  have split: "uint x = uint (dir_index x) * 0x400000 + uint (tab_index x) * 0x1000"
    if "page_aligned x" for x
  proof -
    define q r where "q = uint x div 0x400000" and "r = uint x mod 0x400000"
    have x: "uint x = q * 0x400000 + r" by (simp add: q_def r_def)
    have "uint x mod 0x1000 = 0" using that by (simp add: page_aligned_uint)
    moreover have "(q * 0x400000 + r) mod 0x1000 = r mod 0x1000"
    proof -
      have "q * 0x400000 + r = r + 0x1000 * (q * 0x400)" by simp
      then show ?thesis by (simp only: mod_mult_self2)
    qed
    ultimately have "r mod 0x1000 = 0" using x by simp
    then have "r = r div 0x1000 * 0x1000" using div_mult_mod_eq [of r "0x1000"] by simp
    moreover have "uint (dir_index x) = q" "uint (tab_index x) = r div 0x1000"
      by (simp_all add: uint_dir_index uint_tab_index q_def r_def)
    ultimately show ?thesis using x by linarith
  qed
  have "uint v = uint w" using split [OF assms(1)] split [OF assms(2)] assms(3,4) by simp
  then show ?thesis by simp
qed

text \<open>A lookup reads one slot, an update writes it.\<close>

definition pte_slot :: "mem \<Rightarrow> addr \<Rightarrow> addr \<Rightarrow> addr" where
  "pte_slot m d v = table_of m d (dir_index v) + 4 * tab_index v"

lemma paging_get_slot: "page_aligned v \<Longrightarrow> paging_get m d v = read32 m (pte_slot m d v)"
  by (simp add: paging_get_def paging_get_indexes_aligned pte_slot_def table_of_def Let_def)

lemma paging_set_slot: "page_aligned v \<Longrightarrow> paging_set m d v x = (ALL_OK, write32 m (pte_slot m d v) x)"
  by (simp add: paging_set_def paging_get_indexes_aligned pte_slot_def table_of_def Let_def)

lemma page_aligned_table_of [simp]: "page_aligned (table_of m d i)"
  by (simp add: table_of_def)

lemma table_of_set:
  assumes "wf_directory m d" "i < 1024"
  shows "table_of (write32 m (pte_slot m d v) x) d i = table_of m d i"
proof -
  have "table_of m d (dir_index v) \<noteq> d" "page_aligned d"
    using assms(1) by (simp_all add: wf_directory_def)
  then have "read32 (write32 m (table_of m d (dir_index v) + 4 * tab_index v) x) (d + 4 * i)
      = read32 m (d + 4 * i)"
    using assms(2) by (simp add: read32_write32_slots)
  then show ?thesis by (simp add: table_of_def pte_slot_def)
qed

lemma wf_directory_set:
  "wf_directory m d \<Longrightarrow> wf_directory (write32 m (pte_slot m d v) x) d"
  by (simp add: wf_directory_def [of "write32 m (pte_slot m d v) x"] table_of_set)
     (simp add: wf_directory_def)

lemma paging_get_set:
  assumes wf: "wf_directory m d" and al: "page_aligned v" "page_aligned w"
  shows "paging_get (write32 m (pte_slot m d v) x) d w = (if w = v then x else paging_get m d w)"
proof -
  let ?m' = "write32 m (pte_slot m d v) x"
  have slot: "pte_slot ?m' d w = pte_slot m d w"
    using table_of_set [OF wf] by (simp add: pte_slot_def)
  have same: "table_of m d (dir_index v) = table_of m d (dir_index w) \<and> tab_index v = tab_index w
      \<longleftrightarrow> v = w"
    using wf indexes_inj [OF al] by (auto simp: wf_directory_def)
  have "read32 ?m' (pte_slot m d w) = (if v = w then x else read32 m (pte_slot m d w))"
    using same by (simp add: pte_slot_def read32_write32_slots)
  then show ?thesis using al by (simp add: paging_get_slot slot)
qed

lemma directory_entry_set:
  assumes "wf_chunk m c d"
  shows "directory_entry (write32 m (pte_slot m d v) x) c = directory_entry m c"
proof -
  let ?t = "table_of m d (dir_index v)"
  have ne: "?t \<noteq> c AND 0xfffff000" and c: "word_aligned c"
    using assms by (simp_all add: wf_chunk_def)
  have "c \<noteq> pte_slot m d v"
    using ne page_mask_add [OF page_aligned_table_of word_slot_less [OF tab_index_less]]
    by (auto simp: pte_slot_def)
  moreover have "word_aligned (pte_slot m d v)"
    by (simp add: pte_slot_def word_aligned_add page_aligned_word_aligned)
  ultimately show ?thesis
    using c by (simp add: directory_entry_def read32_write32_other word_aligned_apart)
qed

lemma wf_chunk_set:
  "wf_chunk m c d \<Longrightarrow> wf_chunk (write32 m (pte_slot m d v) x) c d"
  by (simp add: wf_chunk_def [of "write32 m (pte_slot m d v) x"] directory_entry_set wf_directory_set table_of_set)
     (simp add: wf_chunk_def wf_directory_set table_of_set)

section \<open>The page map contract\<close>

text \<open>
  What the users of paging rely on: mapping one page changes the entry of that page and of no
  other, and keeps the tables well-formed. Mapping a range follows, for any such map.
\<close>

lemma unat_page_step: "i < 0x100000 \<Longrightarrow> unat (of_nat i * 4096 :: u32) = i * 4096"
  using unat_of_nat [of "i * 4096", where 'a = 32] by simp

lemma page_step_inj:
  assumes "k < 0x100000" "n < 0x100000" "(of_nat k * 4096 :: u32) = of_nat n * 4096" shows "k = n"
proof -
  have "k * 4096 = n * 4096"
    using unat_page_step [OF assms(1)] unat_page_step [OF assms(2)] assms(3) by metis
  then show ?thesis by simp
qed

lemma page_aligned_step: "page_aligned v \<Longrightarrow> page_aligned (v + of_nat k * 4096)"
  using page_aligned_add [of v "int k"] by simp

locale page_map =
  fixes lookup :: "'s \<Rightarrow> addr \<Rightarrow> u32"
    and map_page :: "'s \<Rightarrow> addr \<Rightarrow> addr \<Rightarrow> u32 \<Rightarrow> 's"
    and ok :: "'s \<Rightarrow> bool"
  assumes ok_map: "ok s \<Longrightarrow> page_aligned v \<Longrightarrow> page_aligned p \<Longrightarrow> ok (map_page s v p f)"
    and lookup_map: "ok s \<Longrightarrow> page_aligned v \<Longrightarrow> page_aligned p \<Longrightarrow> page_aligned w
      \<Longrightarrow> lookup (map_page s v p f) w = (if w = v then p OR f else lookup s w)"
begin

lemma range_ok:
  assumes "ok s" "page_aligned v" "page_aligned p"
  shows "ok (fold (\<lambda>k s. map_page s (v + of_nat k * 4096) (p + of_nat k * 4096) f) [0..<n] s)"
  using assms by (induction n) (auto intro!: ok_map page_aligned_step)

lemma range_lookup_outside:
  assumes "ok s" "page_aligned v" "page_aligned p" "page_aligned w"
    and "\<And>k. k < n \<Longrightarrow> w \<noteq> v + of_nat k * 4096"
  shows "lookup (fold (\<lambda>k s. map_page s (v + of_nat k * 4096) (p + of_nat k * 4096) f) [0..<n] s) w
    = lookup s w"
  using assms(5)
  by (induction n) (simp_all add: lookup_map range_ok page_aligned_step assms(1-4))

lemma range_lookup_inside:
  assumes "ok s" "page_aligned v" "page_aligned p" "k < n" "n \<le> 0x100000"
  shows "lookup (fold (\<lambda>k s. map_page s (v + of_nat k * 4096) (p + of_nat k * 4096) f) [0..<n] s)
      (v + of_nat k * 4096) = (p + of_nat k * 4096) OR f"
  using assms(4,5)
proof (induction n)
  case (Suc n)
  show ?case
  proof (cases "k = n")
    case True
    then show ?thesis by (simp add: lookup_map range_ok page_aligned_step assms(1-3))
  next
    case False
    then have "v + of_nat k * 4096 \<noteq> v + of_nat n * 4096"
      using page_step_inj [of k n] Suc.prems by auto
    with False Suc show ?thesis
      by (simp add: lookup_map range_ok page_aligned_step assms(1-3))
  qed
qed simp

end

text \<open>The page directory of a chunk meets the contract.\<close>

lemma paging_map_aligned:
  "page_aligned v \<Longrightarrow> page_aligned p \<Longrightarrow> wf_chunk m c d
    \<Longrightarrow> paging_map m c v p f = (ALL_OK, write32 m (pte_slot m d v) (p OR f))"
  by (simp add: paging_map_def paging_set_slot wf_chunk_def page_aligned_def)

interpretation chunk_map: page_map "\<lambda>m v. paging_get m d v" "\<lambda>m v p f. snd (paging_map m c v p f)"
    "\<lambda>m. wf_chunk m c d" for c d
  by unfold_locales
    (auto simp: paging_map_aligned wf_chunk_set paging_get_set wf_chunk_def wf_directory_set
      directory_entry_set table_of_set)

lemma map_range_loop_fold:
  assumes "wf_chunk m c d" "page_aligned v" "page_aligned p"
  shows "map_range_loop m c v p n f = (ALL_OK,
    fold (\<lambda>k m. snd (paging_map m c (v + of_nat k * 4096) (p + of_nat k * 4096) f)) [0..<n] m)"
  using assms
proof (induction n arbitrary: m v p)
  case (Suc n)
  let ?m = "write32 m (pte_slot m d v) (p OR f)"
  have step: "paging_map m c v p f = (ALL_OK, ?m)" using Suc.prems by (simp add: paging_map_aligned)
  have al: "page_aligned (v + 4096)" "page_aligned (p + 4096)"
    using page_aligned_step [of _ 1] Suc.prems by simp_all
  have up: "[0..<Suc n] = 0 # map Suc [0..<n]" by (simp add: upt_conv_Cons map_Suc_upt)
  have "map_range_loop m c v p (Suc n) f = map_range_loop ?m c (v + 4096) (p + 4096) n f"
    by (simp add: step)
  also have "\<dots> = (ALL_OK, fold (\<lambda>k m. snd (paging_map m c (v + 4096 + of_nat k * 4096)
      (p + 4096 + of_nat k * 4096) f)) [0..<n] ?m)"
    using Suc.prems al by (intro Suc.IH) (simp_all add: wf_chunk_set)
  finally show ?case
    unfolding up by (simp add: step fold_map comp_def algebra_simps del: upt_Suc)
qed simp

text \<open>Whatever the arguments are, \<open>paging_map_to\<close> keeps what every update of an entry keeps.\<close>

lemma paging_map_to_keeps:
  assumes "P m" and wf: "\<And>m. P m \<Longrightarrow> wf_chunk m c d" and set: "\<And>m v x. P m \<Longrightarrow> P (write32 m (pte_slot m d v) x)"
  shows "P (snd (paging_map_to m c virt phys phys_end f))"
proof -
  have loop: "P (snd (map_range_loop m c v p n f))" if "page_aligned v" "page_aligned p" "P m" for v p n m
    using that
  proof (induction n arbitrary: m v p)
    case (Suc n)
    have "page_aligned (v + 4096)" "page_aligned (p + 4096)"
      using page_aligned_step [of _ 1] Suc.prems by simp_all
    then show ?case
      using Suc paging_map_aligned [OF Suc.prems(1,2) wf [OF Suc.prems(3)]] set by simp
  qed simp
  show ?thesis
    using assms(1) loop
    by (simp add: paging_map_to_def paging_map_range_def page_aligned_def Let_def)
qed

lemma paging_get_physical_address_split:
  assumes "page_aligned v" "r < 4096"
  shows "paging_get_physical_address m d (v + r) = (paging_get m d v AND 0xfffff000) + r"
proof -
  have v: "uint v mod 4096 = 0" using assms(1) by (simp add: page_aligned_uint)
  have "uint ((v + r) mod 4096) = (uint v + uint r) mod 4096"
    by (simp add: uint_mod uint_word_ariths mod_mod_cancel)
  also have "\<dots> = (uint v mod 4096 + uint r) mod 4096" by (simp only: mod_add_left_eq)
  also have "\<dots> = uint r" using assms(2) v by (simp add: word_less_def)
  finally have "(v + r) mod 4096 = r" by (simp only: uint_eq_iff)
  then show ?thesis
    by (simp add: paging_get_physical_address_def paging_align_to_lower_page_def Let_def)
qed

lemma page_split: "x = of_nat (unat x div 4096) * 4096 + x mod (4096 :: u32)"
proof -
  have "unat x div 4096 < 2 ^ 32"
    using le_less_trans [OF div_le_dividend unsigned_less [of x]] by simp
  then have "of_nat (unat x div 4096) = x div 4096"
    by (simp add: word_unat_eq_iff unat_div unat_of_nat)
  then show ?thesis by (simp add: word_mod_div_equality)
qed

lemma range_pages:
  assumes "page_aligned p" "page_aligned q" "p \<le> q"
  shows "unat (q - p) = nat (sint ((q - p) div 4096)) * 4096 \<and> nat (sint ((q - p) div 4096)) < 0x100000"
proof -
  have u: "uint (q - p) = uint q - uint p" using assms(3) by (simp add: uint_sub_if_size word_le_def)
  have "uint q mod 4096 = 0" "uint p mod 4096 = 0" using assms by (simp_all add: page_aligned_uint)
  then obtain n where n: "uint (q - p) = n * 4096" using u by (metis dvd_diff dvd_eq_mod_eq_0 dvdE mult.commute)
  have lt: "uint (q - p) < 2 ^ 32" using uint_lt2p [of "q - p"] by simp
  have n0: "0 \<le> n" using n uint_ge_0 [of "q - p"] by linarith
  have "uint ((q - p) div 4096) = n" using n by (simp add: uint_div)
  moreover have "signed_take_bit 31 n = n"
    using n lt n0 by (intro signed_take_bit_int_eq_self) auto
  ultimately have "sint ((q - p) div 4096) = n" by (simp add: sint_uint)
  moreover have "unat (q - p) = nat n * 4096" using n n0 by (simp add: unat_eq_nat_uint nat_mult_distrib)
  ultimately show ?thesis using lt n n0 by simp
qed

text \<open>Mapping a range, for the directory of a chunk.\<close>

lemma paging_map_to_ranges:
  assumes wf: "wf_chunk m c d" and al: "page_aligned virt" "page_aligned phys" "page_aligned phys_end"
    and le: "phys \<le> phys_end" and fl: "flags < 4096"
  shows "\<exists>m'. paging_map_to m c virt phys phys_end flags = (ALL_OK, m') \<and> wf_chunk m' c d
    \<and> (\<forall>n<phys_end - phys. paging_get_physical_address m' d (virt + n) = phys + n)
    \<and> (\<forall>w. page_aligned w \<and> phys_end - phys \<le> w - virt
          \<longrightarrow> paging_get m' d w = paging_get m d w)"
proof -
  let ?L = "phys_end - phys"
  define n where "n = nat (sint (?L div 4096))"
  let ?m' = "fold (\<lambda>k m. snd (paging_map m c (virt + of_nat k * 4096) (phys + of_nat k * 4096) flags))
    [0..<n] m"
  have L: "unat ?L = n * 4096" "n < 0x100000"
    using range_pages [OF al(2,3) le] by (simp_all add: n_def)
  have "paging_map_to m c virt phys phys_end flags = (ALL_OK, ?m')"
    using al le map_range_loop_fold [OF wf al(1,2), of n flags]
    by (simp add: paging_map_to_def paging_map_range_def Let_def n_def page_aligned_def)
  moreover have "wf_chunk ?m' c d" by (rule chunk_map.range_ok [OF wf al(1,2)])
  moreover have "paging_get_physical_address ?m' d (virt + x) = phys + x" if "x < ?L" for x
  proof -
    define k r where "k = unat x div 4096" and "r = x mod 4096"
    have k: "k < n" using that L by (simp add: k_def word_less_nat_alt less_mult_imp_div_less)
    have x: "x = of_nat k * 4096 + r" by (simp add: k_def r_def page_split)
    have r: "r < 4096" by (simp add: r_def word_mod_less_divisor)
    have "paging_get ?m' d (virt + of_nat k * 4096) = (phys + of_nat k * 4096) OR flags"
      using chunk_map.range_lookup_inside [OF wf al(1,2) k] L by simp
    then show ?thesis
      using paging_get_physical_address_split [OF page_aligned_step [OF al(1)] r, of ?m' d k]
        page_mask_flags [OF page_aligned_step [OF al(2)] fl]
      by (simp add: x add.assoc)
  qed
  moreover have "paging_get ?m' d w = paging_get m d w" if "page_aligned w" "?L \<le> w - virt" for w
  proof (rule chunk_map.range_lookup_outside [OF wf al(1,2) that(1)])
    fix k assume "k < n"
    then show "w \<noteq> virt + of_nat k * 4096"
      using that(2) L unat_page_step [of k] by (auto simp: word_le_nat_alt)
  qed
  ultimately show ?thesis by blast
qed

section \<open>New tables\<close>

lemma fill_table_read:
  assumes "page_aligned e" "n \<le> 1024" "b < 1024"
  shows "read32 (fill_table m e offset flags n) (e + 4 * b) =
    (if unat b < n then (offset + b * 4096) OR ucast flags else read32 m (e + 4 * b))"
  using assms(2)
proof (induction n)
  case (Suc n)
  have n: "(of_nat n :: u32) < 1024" "unat (of_nat n :: u32) = n"
    using Suc.prems by (simp_all add: word_less_nat_alt unat_of_nat)
  have "of_nat n = b \<longleftrightarrow> unat b = n" using n(2) by (auto simp: word_unat_eq_iff)
  then show ?case
    using Suc n assms(1,3) by (auto simp: Let_def read32_write32_slots)
qed simp

text \<open>With a null table the entries overwrite the first page of memory, and nothing else.\<close>

lemma far_from_slot:
  assumes "n < 1024" "4096 \<le> (x :: u32)" shows "4 \<le> x - 4 * of_nat n"
proof -
  have n: "unat (4 * of_nat n :: u32) = 4 * n"
    using assms(1) unat_of_nat [of "4 * n", where 'a = 32] by simp
  moreover have "4096 \<le> unat x" using assms(2) by (simp add: word_le_nat_alt)
  ultimately have "unat (x - 4 * of_nat n) = unat x - 4 * n"
    using assms(1) by (simp add: unat_sub_if_size)
  then show ?thesis using assms(1) \<open>4096 \<le> unat x\<close> by (simp add: word_le_nat_alt)
qed

lemma fill_table_null: "n \<le> 1024 \<Longrightarrow> 4096 \<le> x \<Longrightarrow> fill_table m 0 offset flags n x = m x"
  by (induction n) (auto simp: Let_def write32_other far_from_slot)

lemma kernel_entry_high: "i < 25600 \<Longrightarrow> 4096 \<le> 0x7E00 + (i :: u32)"
  using unat_add_no_wrap [of "0x7E00 :: u32" i] by (simp add: word_le_nat_alt word_less_nat_alt)

text \<open>A new chunk on the kernel's heap: null, and only the first page of memory is written.\<close>

lemma kernel_paging_new:
  assumes "heap_reachable h m" "heap_table_of h = \<lparr>entries = 0x7E00, total = 25600\<rparr>"
  shows "fst (paging_new_4gb m h flags) = 0" "4096 \<le> x \<Longrightarrow> snd (paging_new_4gb m h flags) x = m x"
    "directory_entry (snd (paging_new_4gb m h flags)) 0 = 0"
proof -
  have free: "all_free m' (heap_table_of h)" if "\<And>x. 4096 \<le> x \<Longrightarrow> m' x = m x" for m'
    using heap_reachable_all_free [OF assms(1)] that kernel_entry_high assms(2)
    by (simp add: all_free_def)
  have dir: "4096 \<le> x \<Longrightarrow> fill_directory m h 0 flags n x = m x" if "n \<le> 1024" for n x
    using that
  proof (induction n arbitrary: x)
    case (Suc n)
    have "kzalloc (fill_directory m h 0 flags n) h 4096 = (0, fill_directory m h 0 flags n)"
      using Suc by (intro kzalloc_all_free free) simp
    then show ?case
      using Suc by (simp add: Let_def write32_other far_from_slot fill_table_null)
  qed simp
  then have "kzalloc (fill_directory m h 0 flags 1024) h 4 = (0, fill_directory m h 0 flags 1024)"
    by (intro kzalloc_all_free free) simp
  moreover have "kzalloc m h 4096 = (0, m)" by (intro kzalloc_all_free free) simp
  ultimately have new: "paging_new_4gb m h flags = (0, write32 (fill_directory m h 0 flags 1024) 0 0)"
    by (simp add: paging_new_4gb_def Let_def)
  then show "fst (paging_new_4gb m h flags) = 0" "directory_entry (snd (paging_new_4gb m h flags)) 0 = 0"
    by (simp_all add: directory_entry_def)
  show "4096 \<le> x \<Longrightarrow> snd (paging_new_4gb m h flags) x = m x"
    using new dir [of 1024 x] far_from_slot [of 0 x] by (simp add: write32_other)
qed

section \<open>A concrete directory\<close>

text \<open>
  A chunk at 0x3000, its directory at 0x100000 and its 1024 tables from 0x200000 on: the invariant can
  hold, in any memory with these words.
\<close>

definition table_words :: "(u32 \<Rightarrow> u32) \<Rightarrow> bool" where
  "table_words w \<longleftrightarrow> w 0xC00 = 0x100000 \<and> (\<forall>i<1024. w (0x40000 + i) = 0x200000 + i * 4096)"

lemma words_table:
  assumes "table_words w" "i < 1024" shows "table_of (mem_of_words w) 0x100000 i = 0x200000 + i * 4096"
proof -
  have i: "unat i < 1024" using assms(2) by (simp add: word_less_nat_alt)
  have al: "word_aligned (0x100000 + 4 * i)"
    by (rule word_aligned_add) (simp add: word_aligned_def)
  have u: "unat (0x100000 + 4 * i) = 0x100000 + 4 * unat i"
    using i by (simp add: unat_word_ariths)
  have "unat ((0x100000 + 4 * i) div 4) = unat (0x40000 + i)"
    using i by (simp add: unat_div u unat_word_ariths)
  then have q: "(0x100000 + 4 * i) div 4 = 0x40000 + i" by (rule unsigned_word_eqI)
  have "page_aligned (0x200000 + of_nat (unat i) * 4096)"
    by (rule page_aligned_step) (simp add: page_aligned_def)
  then have "(0x200000 + i * 4096 + 0) AND 0xfffff000 = 0x200000 + i * 4096"
    by (intro page_mask_add) simp_all
  then show ?thesis
    using assms by (simp add: table_of_def read32_mem_of_words al q table_words_def)
qed

lemma sample_table_unat: "(i :: u32) < 1024 \<Longrightarrow> unat (0x200000 + i * 4096) = 0x200000 + unat i * 4096"
  by (simp add: word_less_nat_alt unat_word_ariths)

lemma words_wf:
  assumes "table_words w" shows "wf_chunk (mem_of_words w) 0x3000 0x100000"
proof -
  have low: "table_of (mem_of_words w) 0x100000 i \<noteq> p" if "i < 1024" "p < 0x200000" for i p
    using that sample_table_unat [of i] by (auto simp: words_table [OF assms] word_less_nat_alt)
  have "directory_entry (mem_of_words w) 0x3000 = 0x100000"
    using assms by (simp add: directory_entry_def read32_mem_of_words word_aligned_def table_words_def)
  moreover have "i = j" if "i < 1024" "j < 1024"
      "table_of (mem_of_words w) 0x100000 i = table_of (mem_of_words w) 0x100000 j" for i j
    using that sample_table_unat [of i] sample_table_unat [of j]
    by (simp add: words_table [OF assms] word_unat_eq_iff)
  ultimately show ?thesis
    using low by (auto simp: wf_chunk_def wf_directory_def page_aligned_def word_aligned_def)
qed

text \<open>All tables empty.\<close>

definition sample_words :: "u32 \<Rightarrow> u32" where
  "sample_words x = (if x = 0xC00 then 0x100000
     else if x - 0x40000 < 1024 then 0x200000 + (x - 0x40000) * 4096 else 0)"

definition sample_tables :: mem where
  "sample_tables = mem_of_words sample_words"

lemma sample_table_words: "table_words sample_words"
proof -
  have "0x40000 + i \<noteq> 0xC00" if "i < 1024" for i :: u32
    using that by (auto simp: word_unat_eq_iff word_less_nat_alt unat_word_ariths)
  then show ?thesis by (simp add: table_words_def sample_words_def)
qed

lemma sample_table: "i < 1024 \<Longrightarrow> table_of sample_tables 0x100000 i = 0x200000 + i * 4096"
  unfolding sample_tables_def by (rule words_table [OF sample_table_words])

lemma sample_tables_wf: "wf_chunk sample_tables 0x3000 0x100000"
  unfolding sample_tables_def by (rule words_wf [OF sample_table_words])

section \<open>Properties\<close>

text \<open>
  C2: Mapping a page-aligned range succeeds, and afterwards every byte of it translates to the
  byte at the same offset of the physical range, every other page translates as before, and the
  tables are well-formed again.
\<close>
theorem paging_map_to_translates:
  assumes wf: "wf_chunk m c d" and al: "page_aligned virt" "page_aligned phys" "page_aligned phys_end"
    and le: "phys \<le> phys_end" and fl: "flags < 4096"
  shows "\<exists>m'. paging_map_to m c virt phys phys_end flags = (ALL_OK, m') \<and> wf_chunk m' c d
    \<and> (\<forall>n<phys_end - phys. paging_get_physical_address m' d (virt + n) = phys + n)
    \<and> (\<forall>w. page_aligned w \<and> phys_end - phys \<le> w - virt
          \<longrightarrow> paging_get m' d w = paging_get m d w)"
  using paging_map_to_ranges [OF assms] by blast

theorem paging_map_to_translates_witness:
  "\<exists>m'. paging_map_to sample_tables 0x3000 0x400000 0x800000 0x802000 7 = (ALL_OK, m')
    \<and> paging_get_physical_address m' 0x100000 0x401234 = 0x801234"
proof -
  have "\<exists>m'. paging_map_to sample_tables 0x3000 0x400000 0x800000 0x802000 7 = (ALL_OK, m')
    \<and> wf_chunk m' 0x3000 0x100000
    \<and> (\<forall>n<0x802000 - 0x800000. paging_get_physical_address m' 0x100000 (0x400000 + n) = 0x800000 + n)
    \<and> (\<forall>w. page_aligned w \<and> 0x802000 - 0x800000 \<le> w - 0x400000
          \<longrightarrow> paging_get m' 0x100000 w = paging_get sample_tables 0x100000 w)"
    by (rule paging_map_to_translates [OF sample_tables_wf]) (simp_all add: page_aligned_def)
  then obtain m' where m': "paging_map_to sample_tables 0x3000 0x400000 0x800000 0x802000 7 = (ALL_OK, m')"
    and t: "\<forall>n<0x802000 - 0x800000. paging_get_physical_address m' 0x100000 (0x400000 + n) = 0x800000 + n"
    by blast
  from t [rule_format, of "0x1234"] m' show ?thesis by simp
qed

text \<open>
  \<open>paging_map_to\<close> refuses, without touching memory, exactly the requests with an unaligned
  address or an end before the start; every other request is carried out page by page.
\<close>
theorem paging_map_to_refuses:
  "paging_map_to m c virt phys phys_end flags =
    (if page_aligned virt \<and> page_aligned phys \<and> page_aligned phys_end \<and> phys \<le> phys_end
     then (ALL_OK, snd (paging_map_range m c virt phys (sint ((phys_end - phys) div 4096)) flags))
     else (Inl EINVARG, m))"
proof -
  have "fst (map_range_loop m c v p n flags) = ALL_OK" if "page_aligned v" "page_aligned p" for m v p n
    using that
  proof (induction n arbitrary: m v p)
    case (Suc n)
    then have "paging_map m c v p flags = (ALL_OK, snd (paging_map m c v p flags))"
      by (simp add: paging_map_def paging_set_slot page_aligned_def)
    moreover have "page_aligned (v + 4096)" "page_aligned (p + 4096)"
      using page_aligned_step [of _ 1] Suc.prems by simp_all
    ultimately show ?case using Suc.IH by (metis (no_types, lifting) case_prod_conv map_range_loop.simps(2) old.sum.simps(6))
  qed simp
  then show ?thesis
    by (auto simp: paging_map_to_def paging_map_range_def page_aligned_def Let_def not_less
        prod_eq_iff)
qed

text \<open>
  Setting one entry is the update of a map from pages to entries: the page itself reads
  back the value, every other page what it read before, and the directory stays well-formed.
\<close>
theorem paging_set_get:
  assumes "wf_directory m d" "page_aligned v"
  shows "\<exists>m'. paging_set m d v x = (ALL_OK, m') \<and> wf_directory m' d
    \<and> (\<forall>w. page_aligned w \<longrightarrow> paging_get m' d w = (if w = v then x else paging_get m d w))"
  using assms by (auto simp: paging_set_slot paging_get_set intro: wf_directory_set)

theorem paging_set_get_witness:
  "\<exists>m'. paging_set sample_tables 0x100000 0x401000 0x900007 = (ALL_OK, m')
    \<and> paging_get m' 0x100000 0x401000 = 0x900007"
proof -
  have wf: "wf_directory sample_tables 0x100000" using sample_tables_wf by (simp add: wf_chunk_def)
  have al: "page_aligned 0x401000" by (simp add: page_aligned_def)
  from paging_set_get [OF wf al, of "0x900007"] al show ?thesis by fastforce
qed

text \<open>
  A new table is the identity from its offset on: its entry \<open>b\<close> is the page
  \<open>offset + 4096 * b\<close> with the flags, for each of its 1024 entries.
\<close>
theorem new_table_identity:
  assumes "page_aligned e" "b < 1024"
  shows "read32 (fill_table m e offset flags 1024) (e + 4 * b) = (offset + b * 4096) OR ucast flags"
  using fill_table_read [OF assms(1) _ assms(2), of 1024 m offset flags] assms(2)
  by (simp add: word_less_nat_alt)

theorem new_table_identity_witness:
  "read32 (fill_table (\<lambda>_. 0) 0x200000 0x400000 7 1024) (0x200000 + 4 * 1023) = 0x7FF007"
  using new_table_identity [of "0x200000" 1023 "\<lambda>_. 0" "0x400000" 7]
  by (simp add: page_aligned_def)

text \<open>
  On the kernel's heap, after any history of allocations and releases, \<open>paging_new_4gb\<close>
  returns a null chunk: none of its allocations succeeds, and the tables it writes overwrite the
  first page of memory.
\<close>
theorem kernel_paging_new_null:
  assumes "heap_reachable h m" "heap_table_of h = \<lparr>entries = 0x7E00, total = 25600\<rparr>"
  shows "fst (paging_new_4gb m h flags) = 0"
  by (rule kernel_paging_new [OF assms])

theorem kernel_paging_new_null_witness:
  "case kheap_init \<lparr>heap_table_of = \<lparr>entries = 0, total = 0\<rparr>, saddr = 0\<rparr> (\<lambda>_. 0) of
     (_, h, m) \<Rightarrow> fst (paging_new_4gb m h 7) = 0"
proof -
  let ?h = "\<lparr>heap_table_of = \<lparr>entries = 0, total = 0\<rparr>, saddr = 0\<rparr>" and ?m = "\<lambda>_. 0 :: u8"
  obtain h' m' where k: "kheap_init ?h ?m = (ALL_OK, h', m')"
      and t: "heap_table_of h' = \<lparr>entries = 0x7E00, total = 25600\<rparr>"
    by (simp add: kheap_init_def heap_create_def heap_validate_alignment_def
        heap_validate_table_def Let_def)
  then have "heap_reachable h' m'"
    unfolding kheap_init_def Let_def by (intro heap_reachable.create)
  from kernel_paging_new_null [OF this t] show ?thesis by (simp add: k)
qed

end
