(* ===== verification/Gdt.thy ===== *)
theory Gdt
  imports Memory
begin

unbundle bit_operations_syntax

text \<open>
  The segment descriptors of \<^verbatim>\<open>src/gdt/gdt.c\<close> and the table of \<^verbatim>\<open>src/kernel.c\<close>. A descriptor
  is eight bytes of memory. \<open>panic\<close> prints and never returns: the result \<open>None\<close>. The reader
  of descriptors (\<open>gdt_base\<close>, \<open>gdt_limit\<close>, \<open>gdt_access\<close>) is the processor's own
  interpretation of the eight bytes, the granularity bit included.
\<close>

record gdt_structured =
  base :: u32
  limit :: u32
  access_type :: u8

definition encodeGdtEntry :: "mem \<Rightarrow> addr \<Rightarrow> gdt_structured \<Rightarrow> mem option" where
  "encodeGdtEntry m target source =
     (if limit source > 65536 \<and> limit source AND 0xFFF \<noteq> 0xFFF then None
      else
        let m = m(target + 6 := 0x40);
            lim = (if limit source > 65536 then drop_bit 12 (limit source) else limit source);
            m = (if limit source > 65536 then m(target + 6 := 0xC0) else m);
            m = m(target := ucast (lim AND 0xFF));
            m = m(target + 1 := ucast (drop_bit 8 lim AND 0xFF));
            m = m(target + 6 := m (target + 6) OR ucast (drop_bit 16 lim AND 0x0F));
            m = m(target + 2 := ucast (base source AND 0xFF));
            m = m(target + 3 := ucast (drop_bit 8 (base source) AND 0xFF));
            m = m(target + 4 := ucast (drop_bit 16 (base source) AND 0xFF));
            m = m(target + 7 := ucast (drop_bit 24 (base source) AND 0xFF))
        in Some (m(target + 5 := access_type source)))"

fun gdt_structured_to_gdt :: "mem \<Rightarrow> addr \<Rightarrow> gdt_structured list \<Rightarrow> mem option" where
  "gdt_structured_to_gdt m gdt [] = Some m"
| "gdt_structured_to_gdt m gdt (s # structured_gdt) =
     (case encodeGdtEntry m gdt s of
        None \<Rightarrow> None
      | Some m' \<Rightarrow> gdt_structured_to_gdt m' (gdt + 8) structured_gdt)"

text \<open>The kernel's six segments; the linker places \<open>tss\<close>, whose size is 25 words.\<close>

definition kernel_segments :: "addr \<Rightarrow> gdt_structured list" where
  "kernel_segments tss =
     [\<lparr>base = 0x00, limit = 0x00, access_type = 0x00\<rparr>,
      \<lparr>base = 0x00, limit = 0xffffffff, access_type = 0x9a\<rparr>,
      \<lparr>base = 0x00, limit = 0xffffffff, access_type = 0x92\<rparr>,
      \<lparr>base = 0x00, limit = 0xffffffff, access_type = 0xf8\<rparr>,
      \<lparr>base = 0x00, limit = 0xffffffff, access_type = 0xf2\<rparr>,
      \<lparr>base = tss, limit = 100, access_type = 0xE9\<rparr>]"

section \<open>Reading a descriptor back\<close>

definition gdt_base :: "mem \<Rightarrow> addr \<Rightarrow> u32" where
  "gdt_base m g = ucast (m (g + 2)) OR push_bit 8 (ucast (m (g + 3)))
     OR push_bit 16 (ucast (m (g + 4))) OR push_bit 24 (ucast (m (g + 7)))"

definition gdt_raw_limit :: "mem \<Rightarrow> addr \<Rightarrow> u32" where
  "gdt_raw_limit m g = ucast (m g) OR push_bit 8 (ucast (m (g + 1)))
     OR push_bit 16 (ucast (m (g + 6) AND 0x0F))"

definition gdt_limit :: "mem \<Rightarrow> addr \<Rightarrow> u32" where
  "gdt_limit m g = (if bit (m (g + 6)) 7 then push_bit 12 (gdt_raw_limit m g) OR 0xFFF
     else gdt_raw_limit m g)"

definition gdt_access :: "mem \<Rightarrow> addr \<Rightarrow> u8" where
  "gdt_access m g = m (g + 5)"

lemma base_bytes_join:
  fixes v :: u32
  shows "ucast (ucast (v AND 0xFF) :: u8) OR push_bit 8 (ucast (ucast (drop_bit 8 v AND 0xFF) :: u8))
    OR push_bit 16 (ucast (ucast (drop_bit 16 v AND 0xFF) :: u8))
    OR push_bit 24 (ucast (ucast (drop_bit 24 v AND 0xFF) :: u8)) = v"
proof -
  have "(ucast (x AND 0xFF) :: u8) = ucast x" for x :: u32
    by (rule bit_word_eqI) (simp add: bit_simps mask_numerals)
  then show ?thesis using le_bytes_join32 [of v] by simp
qed

lemma limit_bytes_join:
  fixes v :: u32 and c :: u8
  assumes "v < 2 ^ 20" "c AND 0x0F = 0"
  shows "ucast (ucast (v AND 0xFF) :: u8) OR push_bit 8 (ucast (ucast (drop_bit 8 v AND 0xFF) :: u8))
    OR push_bit 16 (ucast ((c OR ucast (drop_bit 16 v AND 0x0F)) AND 0x0F)) = v"
proof -
  have "take_bit 20 v = v" using assms(1) by (simp add: take_bit_eq_mod mod_word_less)
  then have high: "\<not> bit v n" if "20 \<le> n" for n using that by (metis bit_take_bit_iff not_less)
  have "(c OR ucast (drop_bit 16 v AND 0x0F)) AND 0x0F = ucast (drop_bit 16 v AND 0x0F)"
  proof (rule bit_word_eqI)
    fix n assume "n < LENGTH(8)"
    have "bit (c AND 0x0F) n = False" using assms(2) by simp
    then show "bit ((c OR ucast (drop_bit 16 v AND 0x0F)) AND 0x0F) n = bit (ucast (drop_bit 16 v AND 0x0F) :: u8) n"
      by (auto simp: bit_simps mask_numerals)
  qed
  note low = this
  show ?thesis
  proof (rule bit_word_eqI)
    fix n assume "n < LENGTH(32)"
    have "bit v n \<Longrightarrow> n < 20" using high [of n] by (auto simp: not_less [symmetric])
    then show "bit (ucast (ucast (v AND 0xFF) :: u8) OR push_bit 8 (ucast (ucast (drop_bit 8 v AND 0xFF) :: u8))
      OR push_bit 16 (ucast ((c OR ucast (drop_bit 16 v AND 0x0F)) AND 0x0F)) :: u32) n = bit v n"
      unfolding low
      by (cases "n < 8"; cases "n < 16") (auto simp: bit_simps mask_numerals not_less)
  qed
qed

lemma gdt_fields_encode:
  assumes "encodeGdtEntry m g s = Some m'"
  shows "gdt_base m' g = base s \<and> gdt_limit m' g = limit s \<and> gdt_access m' g = access_type s"
proof (cases "limit s > 65536")
  case True
  then have low: "limit s AND 0xFFF = 0xFFF"
    using assms by (auto simp: encodeGdtEntry_def split: if_splits)
  let ?v = "drop_bit 12 (limit s)"
  have "unat (limit s) div 4096 < 2 ^ 20"
    using unsigned_less [of "limit s"] by (simp add: div_less_iff_less_mult)
  then have v: "?v < 2 ^ 20" by (simp add: word_less_nat_alt unat_drop_bit_eq drop_bit_eq_div unat_div)
  have join: "push_bit 12 ?v OR 0xFFF = limit s"
  proof (rule bit_word_eqI)
    fix n assume "n < LENGTH(32)"
    have "bit (limit s AND 0xFFF) n = bit (0xFFF :: u32) n" using low by simp
    then show "bit (push_bit 12 ?v OR 0xFFF) n = bit (limit s) n"
      using \<open>n < LENGTH(32)\<close> by (auto simp: bit_simps mask_numerals)
  qed
  have "bit ((0xC0 :: u8) OR ucast (drop_bit 16 ?v AND 0x0F)) 7" by (simp add: bit_simps)
  then have "bit (m' (g + 6)) 7"
    using True low assms by (auto simp: encodeGdtEntry_def Let_def)
  moreover have "gdt_raw_limit m' g = ?v"
    using True low v assms limit_bytes_join [of ?v "0xC0"]
    by (auto simp: encodeGdtEntry_def gdt_raw_limit_def Let_def)
  ultimately have "gdt_limit m' g = limit s" using join by (simp add: gdt_limit_def)
  then show ?thesis
    using True low assms base_bytes_join [of "base s"]
    by (auto simp: encodeGdtEntry_def gdt_base_def gdt_access_def Let_def)
next
  case False
  then have "limit s < 2 ^ 20" by (simp add: word_less_nat_alt not_less word_le_nat_alt)
  moreover have "\<not> bit ((0x40 :: u8) OR ucast (drop_bit 16 (limit s) AND 0x0F)) 7"
    by (simp add: bit_simps)
  ultimately show ?thesis
    using False assms base_bytes_join [of "base s"] limit_bytes_join [of "limit s" "0x40"]
    by (auto simp: encodeGdtEntry_def gdt_base_def gdt_limit_def gdt_raw_limit_def gdt_access_def Let_def)
qed

lemma encodeGdtEntry_outside: "encodeGdtEntry m g s = Some m' \<Longrightarrow> 8 \<le> a - g \<Longrightarrow> m' a = m a"
proof -
  assume e: "encodeGdtEntry m g s = Some m'" and far: "8 \<le> a - g"
  have "a \<noteq> g" "a \<noteq> g + 1" "a \<noteq> g + 2" "a \<noteq> g + 3" "a \<noteq> g + 4" "a \<noteq> g + 5" "a \<noteq> g + 6" "a \<noteq> g + 7"
    using far by (auto simp: word_le_nat_alt)
  with e show ?thesis by (auto simp: encodeGdtEntry_def Let_def split: if_splits)
qed

lemma gdt_table_outside:
  "gdt_structured_to_gdt m g ss = Some m' \<Longrightarrow> 8 * length ss \<le> unat (a - g) \<Longrightarrow> m' a = m a"
proof (induction ss arbitrary: m g)
  case (Cons s ss)
  then obtain m1 where m1: "encodeGdtEntry m g s = Some m1" "gdt_structured_to_gdt m1 (g + 8) ss = Some m'"
    by (auto split: option.splits)
  have "8 \<le> a - g" using Cons.prems(2) by (simp add: word_le_nat_alt)
  moreover from this have "unat (a - (g + 8)) = unat (a - g) - 8"
  proof -
    have "unat (a - g - 8) = unat (a - g) - unat (8 :: u32)"
      using \<open>8 \<le> a - g\<close> by (rule unat_sub)
    moreover have "unat (8 :: u32) = 8" by simp
    ultimately show ?thesis by (simp only: diff_diff_eq)
  qed
  ultimately show ?case
    using Cons m1 encodeGdtEntry_outside [OF m1(1), of a] by simp
qed simp

lemma gdt_fields_cong:
  assumes "\<And>k. k < 8 \<Longrightarrow> m (g + k) = m' (g + k)"
  shows "gdt_base m g = gdt_base m' g" "gdt_limit m g = gdt_limit m' g" "gdt_access m g = gdt_access m' g"
  using assms [of 0] assms [of 1] assms [of 2] assms [of 3] assms [of 4] assms [of 5]
    assms [of 6] assms [of 7]
  by (simp_all add: gdt_base_def gdt_limit_def gdt_raw_limit_def gdt_access_def)

lemma gdt_entry_after_table:
  assumes "gdt_structured_to_gdt m (g + 8) ss = Some m'" "length ss < 0x1000000"
  shows "gdt_base m' g = gdt_base m g \<and> gdt_limit m' g = gdt_limit m g \<and> gdt_access m' g = gdt_access m g"
proof -
  have "m' (g + k) = m (g + k)" if "k < 8" for k
  proof (rule gdt_table_outside [OF assms(1)])
    have "unat k < 8" using that by (simp add: word_less_nat_alt)
    then have "unat (k - 8) = unat k + 2 ^ 32 - 8" by (simp add: unat_sub_if_size word_size)
    then show "8 * length ss \<le> unat (g + k - (g + 8))" using assms(2) by simp
  qed
  then show ?thesis using gdt_fields_cong [of m' g m] by simp
qed

section \<open>Properties\<close>

text \<open>
  A segment that can be described, one of at most 65536 bytes or of whole 4 KB pages, is
  encoded into a descriptor from which the processor reads the same base, limit and type; any
  other limit panics.
\<close>
theorem encodeGdtEntry_roundtrip:
  "case encodeGdtEntry m g s of
     None \<Rightarrow> 65536 < limit s \<and> limit s AND 0xFFF \<noteq> 0xFFF
   | Some m' \<Rightarrow> (limit s \<le> 65536 \<or> limit s AND 0xFFF = 0xFFF)
       \<and> gdt_base m' g = base s \<and> gdt_limit m' g = limit s \<and> gdt_access m' g = access_type s"
  using gdt_fields_encode [of m g s]
  by (auto simp: encodeGdtEntry_def Let_def not_less split: option.splits if_splits)

text \<open>
  Every segment of a table is found at its own place in the encoded table: encoding the
  later segments does not disturb the earlier ones.
\<close>
theorem gdt_table_roundtrip:
  assumes "gdt_structured_to_gdt m g ss = Some m'" "i < length ss" "length ss \<le> 8192"
  shows "gdt_base m' (g + 8 * of_nat i) = base (ss ! i)
    \<and> gdt_limit m' (g + 8 * of_nat i) = limit (ss ! i)
    \<and> gdt_access m' (g + 8 * of_nat i) = access_type (ss ! i)"
  using assms
proof (induction ss arbitrary: m g i)
  case (Cons s ss)
  then obtain m1 where m1: "encodeGdtEntry m g s = Some m1" "gdt_structured_to_gdt m1 (g + 8) ss = Some m'"
    by (auto split: option.splits)
  show ?case
  proof (cases i)
    case 0
    then show ?thesis
      using gdt_fields_encode [OF m1(1)] gdt_entry_after_table [OF m1(2)] Cons.prems(3) by simp
  next
    case (Suc j)
    then show ?thesis using Cons.IH [OF m1(2), of j] Cons.prems by (simp add: algebra_simps)
  qed
qed simp

text \<open>The kernel's own table, with its TSS at 0x9000: segment 4 is the flat user data segment.\<close>
theorem gdt_table_roundtrip_witness:
  "case gdt_structured_to_gdt (\<lambda>_. 0) 0x8000 (kernel_segments 0x9000) of
     Some m \<Rightarrow> gdt_base m 0x8020 = 0 \<and> gdt_limit m 0x8020 = 0xffffffff \<and> gdt_access m 0x8020 = 0xf2
   | None \<Rightarrow> False"
proof -
  obtain m where m: "gdt_structured_to_gdt (\<lambda>_. 0) 0x8000 (kernel_segments 0x9000) = Some m"
    by (simp add: kernel_segments_def encodeGdtEntry_def Let_def)
  show ?thesis
    using gdt_table_roundtrip [OF m, of 4] m by (simp add: kernel_segments_def)
qed

end
