(* ===== verification/Terminal.thy ===== *)
theory Terminal
  imports Strings
begin

unbundle bit_operations_syntax

text \<open>
  The text terminal of \<^verbatim>\<open>src/kernel.c\<close>: the cursor, and the cells of the video memory by their
  index from \<open>video_mem\<close> (cell \<open>i\<close> is the half word at \<open>0xB8000 + 2 * i\<close>). The cursor keeps
  its 16 bits, so it wraps as the code's does. The index is not confined to the screen, neither
  here nor in the code.
\<close>

abbreviation (input) VGA_WIDTH :: "'a::numeral" where "VGA_WIDTH \<equiv> 80"
abbreviation (input) VGA_HEIGHT :: "'a::numeral" where "VGA_HEIGHT \<equiv> 20"

record terminal =
  cells :: "int \<Rightarrow> u16"
  terminal_row :: u16
  terminal_col :: u16

definition terminal_make_char :: "u8 \<Rightarrow> u8 \<Rightarrow> u16" where
  "terminal_make_char c colour = push_bit 8 (scast colour) OR scast c"

definition terminal_putchar :: "int \<Rightarrow> int \<Rightarrow> u8 \<Rightarrow> u8 \<Rightarrow> terminal \<Rightarrow> terminal" where
  "terminal_putchar x y c colour t =
     t\<lparr>cells := (cells t)(y * VGA_WIDTH + x := terminal_make_char c colour)\<rparr>"

function terminal_backspace :: "terminal \<Rightarrow> terminal"
  and terminal_writechar :: "u8 \<Rightarrow> u8 \<Rightarrow> terminal \<Rightarrow> terminal" where
  "terminal_backspace t =
     (if terminal_row t = 0 \<and> terminal_col t = 0 then t
      else
        let t = (if terminal_col t = 0
                 then t\<lparr>terminal_row := terminal_row t - 1, terminal_col := VGA_WIDTH\<rparr> else t);
            t = t\<lparr>terminal_col := terminal_col t - 1\<rparr>;
            t = terminal_writechar 0x20 15 t
        in t\<lparr>terminal_col := terminal_col t - 1\<rparr>)"
| "terminal_writechar c colour t =
     (if c = 0x0A then t\<lparr>terminal_row := terminal_row t + 1, terminal_col := 0\<rparr>
      else if c = 0x08 then terminal_backspace t
      else
        let t = terminal_putchar (uint (terminal_col t)) (uint (terminal_row t)) c colour t;
            t = t\<lparr>terminal_col := terminal_col t + 1\<rparr>
        in if VGA_WIDTH \<le> terminal_col t
           then t\<lparr>terminal_col := 0, terminal_row := terminal_row t + 1\<rparr> else t)"
  by pat_completeness auto
termination
  by (relation "measure (\<lambda>x. case x of Inl _ \<Rightarrow> 1 | Inr (c, _, _) \<Rightarrow> if c = 8 then 2 else 0)") auto

declare terminal_backspace.simps [simp del] terminal_writechar.simps [simp del]

definition terminal_initialize :: "terminal \<Rightarrow> terminal" where
  "terminal_initialize t =
     fold (\<lambda>y. fold (\<lambda>x. terminal_putchar (int x) (int y) 0x20 0) [0..<VGA_WIDTH]) [0..<VGA_HEIGHT]
       (t\<lparr>terminal_row := 0, terminal_col := 0\<rparr>)"

text \<open>The characters of \<open>print\<close>: \<open>len\<close> is an unsigned count, \<open>i\<close> runs up to it.\<close>

definition print_chars :: "mem \<Rightarrow> addr \<Rightarrow> nat \<Rightarrow> terminal \<Rightarrow> terminal" where
  "print_chars m str len t = fold (\<lambda>i. terminal_writechar (m (str + of_nat i)) 15) [0..<len] t"

definition print :: "mem \<Rightarrow> addr \<Rightarrow> terminal \<Rightarrow> terminal option" where
  "print m str t = map_option (\<lambda>len. print_chars m str (nat len) t) (strlen m str)"

section \<open>The cursor as a position\<close>

definition cursor :: "terminal \<Rightarrow> int" where
  "cursor t = uint (terminal_row t) * VGA_WIDTH + uint (terminal_col t)"

definition in_line :: "terminal \<Rightarrow> bool" where
  "in_line t \<longleftrightarrow> terminal_col t < VGA_WIDTH"

definition printable :: "u8 \<Rightarrow> bool" where
  "printable c \<longleftrightarrow> c \<noteq> 0x0A \<and> c \<noteq> 0x08 \<and> c \<noteq> 0"

lemma writechar_printable:
  assumes "printable c" "in_line t" "uint (terminal_row t) < 65535"
  shows "cells (terminal_writechar c k t) = (cells t)(cursor t := terminal_make_char c k)"
    and "cursor (terminal_writechar c k t) = cursor t + 1"
    and "in_line (terminal_writechar c k t)"
proof -
  have col: "uint (terminal_col t) < 80" using assms(2) by (simp add: in_line_def word_less_def)
  have c1: "uint (terminal_col t + 1) = uint (terminal_col t) + 1"
    using col by (simp add: uint_plus_if_size word_size)
  have r1: "uint (terminal_row t + 1) = uint (terminal_row t) + 1"
    using assms(3) by (simp add: uint_plus_if_size word_size)
  have w: "terminal_writechar c k t =
    (let t' = t\<lparr>cells := (cells t)(cursor t := terminal_make_char c k), terminal_col := terminal_col t + 1\<rparr>
     in if 80 \<le> terminal_col t + 1
        then t'\<lparr>terminal_col := 0, terminal_row := terminal_row t + 1\<rparr> else t')"
    using assms(1)
    by (simp add: terminal_writechar.simps printable_def terminal_putchar_def cursor_def Let_def)
  show "cells (terminal_writechar c k t) = (cells t)(cursor t := terminal_make_char c k)"
    by (simp add: w Let_def)
  have le: "80 \<le> terminal_col t + 1 \<longleftrightarrow> uint (terminal_col t) = 79"
    using col by (auto simp: word_le_def c1 simp del: uint_eq_iff)
  show "cursor (terminal_writechar c k t) = cursor t + 1"
    using col c1 r1 le by (simp add: w Let_def cursor_def)
  show "in_line (terminal_writechar c k t)"
    using col c1 le by (simp add: w Let_def in_line_def word_less_def)
qed

lemma cursor_row: "in_line t \<Longrightarrow> cursor t < 65535 * 80 \<Longrightarrow> uint (terminal_row t) < 65535"
  by (simp add: cursor_def in_line_def) (use uint_ge_0 [of "terminal_col t"] in linarith)

text \<open>Printable characters in a row are laid out from the cursor on, over the ends of lines.\<close>

lemma writechars_printable:
  assumes "\<forall>c\<in>set xs. printable c" "in_line t" "cursor t + int (length xs) \<le> 65535 * 80"
  shows "in_line (fold (\<lambda>c. terminal_writechar c 15) xs t)
    \<and> cursor (fold (\<lambda>c. terminal_writechar c 15) xs t) = cursor t + int (length xs)
    \<and> cells (fold (\<lambda>c. terminal_writechar c 15) xs t) = (\<lambda>p. if cursor t \<le> p \<and> p < cursor t + int (length xs)
        then terminal_make_char (xs ! nat (p - cursor t)) 15 else cells t p)"
  using assms
proof (induction xs rule: rev_induct)
  case (snoc c xs)
  let ?t = "fold (\<lambda>c. terminal_writechar c 15) xs t"
  have IH: "in_line ?t" "cursor ?t = cursor t + int (length xs)"
    "cells ?t = (\<lambda>p. if cursor t \<le> p \<and> p < cursor t + int (length xs)
        then terminal_make_char (xs ! nat (p - cursor t)) 15 else cells t p)"
    using snoc by auto
  have c: "printable c" "uint (terminal_row ?t) < 65535"
    using snoc.prems IH by (auto intro: cursor_row)
  note w = writechar_printable [OF c(1) IH(1) c(2), of 15]
  show ?case using w IH by (auto simp: fun_eq_iff nth_append)
qed (auto simp: fun_eq_iff)

lemma print_chars_string:
  assumes "\<And>i. i < length xs \<Longrightarrow> m (s + of_nat i) = xs ! i"
  shows "print_chars m s (length xs) t = fold (\<lambda>c. terminal_writechar c 15) xs t"
proof -
  have "map (\<lambda>i. m (s + of_nat i)) [0..<length xs] = xs"
    using assms by (intro nth_equalityI) simp_all
  then have "fold (\<lambda>c. terminal_writechar c 15) xs t
      = fold (\<lambda>c. terminal_writechar c 15) (map (\<lambda>i. m (s + of_nat i)) [0..<length xs]) t"
    by simp
  then show ?thesis by (simp only: print_chars_def fold_map comp_def)
qed

text \<open>The cleared screen: blanks in black, and the cursor at its start.\<close>

lemma blank_cells:
  "terminal_row (fold (\<lambda>x. terminal_putchar (int x) y c k) xs t) = terminal_row t"
  "terminal_col (fold (\<lambda>x. terminal_putchar (int x) y c k) xs t) = terminal_col t"
  "cells (fold (\<lambda>x. terminal_putchar (int x) y c k) xs t)
     = (\<lambda>p. if p \<in> (\<lambda>x. y * 80 + int x) ` set xs then terminal_make_char c k else cells t p)"
  by (induction xs arbitrary: t) (auto simp: terminal_putchar_def fun_eq_iff)

lemma blank_rows:
  "terminal_row (fold (\<lambda>y. fold (\<lambda>x. terminal_putchar (int x) (int y) c k) xs) ys t) = terminal_row t"
  "terminal_col (fold (\<lambda>y. fold (\<lambda>x. terminal_putchar (int x) (int y) c k) xs) ys t) = terminal_col t"
  "cells (fold (\<lambda>y. fold (\<lambda>x. terminal_putchar (int x) (int y) c k) xs) ys t)
     = (\<lambda>p. if \<exists>y\<in>set ys. \<exists>x\<in>set xs. p = int y * 80 + int x then terminal_make_char c k else cells t p)"
  by (induction ys arbitrary: t) (auto simp: blank_cells fun_eq_iff)

lemma terminal_initialize_blank:
  "terminal_row (terminal_initialize t) = 0" "terminal_col (terminal_initialize t) = 0"
  "cells (terminal_initialize t) p = (if 0 \<le> p \<and> p < 1600 then 0x20 else cells t p)"
proof -
  have "(\<exists>y\<in>set [0..<20]. \<exists>x\<in>set [0..<80]. p = int y * 80 + int x) \<longleftrightarrow> 0 \<le> p \<and> p < 1600" (is "?l \<longleftrightarrow> ?r")
  proof
    assume ?r
    then have "nat (p div 80) \<in> set [0..<20]" "nat (p mod 80) \<in> set [0..<80]" "p = int (nat (p div 80)) * 80 + int (nat (p mod 80))"
      by auto
    then show ?l by blast
  qed auto
  then show "cells (terminal_initialize t) p = (if 0 \<le> p \<and> p < 1600 then 0x20 else cells t p)"
    by (simp only: terminal_initialize_def blank_rows) (simp add: terminal_make_char_def)
qed (simp_all only: terminal_initialize_def blank_rows, simp_all)

section \<open>Properties\<close>

text \<open>
  \<open>print\<close> of a terminated text without control characters returns, writes its characters in
  order from the cursor on, over the ends of lines, changes no other cell, and leaves the cursor
  behind the last one.
\<close>
theorem print_lays_out:
  assumes "c_string m s xs" "\<forall>c\<in>set xs. printable c"
    and "in_line t" "cursor t + int (length xs) \<le> 65535 * 80"
  shows "\<exists>t'. print m s t = Some t' \<and> in_line t' \<and> cursor t' = cursor t + int (length xs)
    \<and> (\<forall>p. cells t' p = (if cursor t \<le> p \<and> p < cursor t + int (length xs)
         then terminal_make_char (xs ! nat (p - cursor t)) 15 else cells t p))"
proof -
  have xs: "m (s + of_nat i) = xs ! i" if "i < length xs" for i
    using that assms(1) by (simp add: c_string_iff_nth)
  have "print m s t = Some (print_chars m s (length xs) t)"
    using strlen_c_string [OF assms(1)] by (simp add: print_def)
  moreover have "print_chars m s (length xs) t = fold (\<lambda>c. terminal_writechar c 15) xs t"
    by (rule print_chars_string) (rule xs)
  ultimately show ?thesis using writechars_printable [OF assms(2-4)] by auto
qed

text \<open>The two characters of \<open>Hi\<close> at the end of a line, the second on the next line.\<close>
theorem print_lays_out_witness:
  "\<exists>t'. print (\<lambda>a. if a = 0 then 0x48 else if a = 1 then 0x69 else 0) 0
       \<lparr>cells = \<lambda>_. 0, terminal_row = 3, terminal_col = 79\<rparr> = Some t'
    \<and> cursor t' = 4 * 80 + 1 \<and> cells t' (3 * 80 + 79) = 0x0F48 \<and> cells t' (4 * 80) = 0x0F69"
proof -
  let ?m = "\<lambda>a :: addr. if a = 0 then 0x48 else if a = 1 then 0x69 else 0 :: u8"
  let ?t = "\<lparr>cells = \<lambda>_. 0, terminal_row = 3, terminal_col = 79\<rparr>"
  have "c_string ?m 0 [0x48, 0x69]" by simp
  from print_lays_out [OF this, of ?t]
  show ?thesis by (auto simp: printable_def in_line_def cursor_def terminal_make_char_def)
qed

text \<open>
  A backspace right after a character restores the cursor and blanks the character's cell,
  when the character did not fill its line.
\<close>
theorem backspace_undoes_writechar:
  assumes "printable c" "terminal_col t < 79"
  shows "terminal_backspace (terminal_writechar c k t) =
    t\<lparr>cells := (cells t)(cursor t := terminal_make_char 0x20 15)\<rparr>"
proof -
  have col: "uint (terminal_col t) < 79" using assms(2) by (simp add: word_less_def)
  then have c1: "uint (terminal_col t + 1) = uint (terminal_col t) + 1"
    by (simp add: uint_plus_if_size word_size)
  then have "uint (terminal_col t + 1) \<noteq> 0" using uint_ge_0 [of "terminal_col t"] by linarith
  then have "terminal_col t + 1 \<noteq> 0" by (metis unsigned_0)
  moreover have "\<not> 80 \<le> terminal_col t + 1" using col c1 by (simp add: word_le_def)
  ultimately show ?thesis
    using assms(1)
    by (simp add: terminal_writechar.simps terminal_backspace.simps printable_def
        terminal_putchar_def cursor_def Let_def)
qed

theorem backspace_undoes_writechar_witness:
  "terminal_backspace (terminal_writechar 0x41 15 \<lparr>cells = \<lambda>_. 0, terminal_row = 2, terminal_col = 5\<rparr>)
   = \<lparr>cells = (\<lambda>_. 0)(165 := 0x0F20), terminal_row = 2, terminal_col = 5\<rparr>"
  using backspace_undoes_writechar [of "0x41" "\<lparr>cells = \<lambda>_. 0, terminal_row = 2, terminal_col = 5\<rparr>" 15]
  by (simp add: printable_def cursor_def terminal_make_char_def)

text \<open>
  A backspace at the start of a line does not go back to the line above: writing the blank
  moves the cursor down again, and the second decrement wraps the column to 65535, so the next
  character is written 65535 cells behind the start of the line, off the screen.
\<close>
theorem backspace_line_start_wraps:
  assumes "terminal_col t = 0" "terminal_row t \<noteq> 0"
  shows "terminal_col (terminal_backspace t) = 0xFFFF
    \<and> terminal_row (terminal_backspace t) = terminal_row t
    \<and> cells (terminal_backspace t) = (cells t)(cursor t - 1 := terminal_make_char 0x20 15)"
proof -
  have "uint (terminal_row t) \<noteq> 0" using assms(2) by (simp add: uint_0_iff)
  then have "1 \<le> uint (terminal_row t)" using uint_ge_0 [of "terminal_row t"] by linarith
  then have "uint (terminal_row t - 1) = uint (terminal_row t) - 1"
    by (simp add: uint_sub_if_size word_size)
  then show ?thesis
    using assms
    by (simp add: terminal_backspace.simps terminal_writechar.simps terminal_putchar_def cursor_def Let_def)
qed

theorem backspace_line_start_wraps_witness:
  "terminal_col (terminal_backspace \<lparr>cells = \<lambda>_. 0, terminal_row = 1, terminal_col = 0\<rparr>) = 0xFFFF"
  using backspace_line_start_wraps [of "\<lparr>cells = \<lambda>_. 0, terminal_row = 1, terminal_col = 0\<rparr>"] by simp

end
