(* ===== verification/Keyboard.thy ===== *)
theory Keyboard
  imports Strings
begin

unbundle bit_operations_syntax

text \<open>
  The keyboard: the ring buffer each process owns (\<^verbatim>\<open>src/keyboard/keyboard.c\<close>, the structure in
  \<^verbatim>\<open>src/task/process.h\<close>), the list of keyboard drivers, and the classic PS/2 driver
  (\<^verbatim>\<open>src/keyboard/classic.c\<close>). The buffer of the current process is an option: \<open>None\<close> when
  there is no current process. A zero byte in the buffer means an empty place.
\<close>

section \<open>The ring buffer\<close>

record keyboard_buffer =
  buffer :: "u8 list"
  tail :: int
  head :: int

definition ring_index :: "int \<Rightarrow> nat" where
  "ring_index i = unat ((word_of_int i :: u32) mod KEYBOARD_BUFFER_SIZE)"

definition keyboard_get_tail_index :: "keyboard_buffer \<Rightarrow> nat" where
  "keyboard_get_tail_index kb = ring_index (tail kb)"

definition keyboard_backspace :: "keyboard_buffer \<Rightarrow> keyboard_buffer" where
  "keyboard_backspace kb =
     (let kb = kb\<lparr>tail := tail kb - 1\<rparr>;
          real_index = keyboard_get_tail_index kb
      in kb\<lparr>buffer := (buffer kb)[real_index := 0]\<rparr>)"

definition keyboard_push :: "u8 \<Rightarrow> keyboard_buffer option \<Rightarrow> keyboard_buffer option" where
  "keyboard_push c process_current =
     (case process_current of
        None \<Rightarrow> None
      | Some kb \<Rightarrow>
          if c = 0 then Some kb
          else let real_index = keyboard_get_tail_index kb
               in Some (kb\<lparr>buffer := (buffer kb)[real_index := c], tail := tail kb + 1\<rparr>))"

definition keyboard_pop :: "keyboard_buffer option \<Rightarrow> u8 \<times> keyboard_buffer option" where
  "keyboard_pop task_current =
     (case task_current of
        None \<Rightarrow> (0, None)
      | Some kb \<Rightarrow>
          let real_index = ring_index (head kb);
              c = buffer kb ! real_index
          in if c = 0 then (0, Some kb)
             else (c, Some (kb\<lparr>buffer := (buffer kb)[real_index := 0], head := head kb + 1\<rparr>)))"

section \<open>The list of keyboards\<close>

abbreviation (input) KEYBOARD_CAPS_LOCK_ON :: int where "KEYBOARD_CAPS_LOCK_ON \<equiv> 1"
abbreviation (input) KEYBOARD_CAPS_LOCK_OFF :: int where "KEYBOARD_CAPS_LOCK_OFF \<equiv> 0"

record keyboard =
  has_init :: bool
  capslock_state :: int
  next_keyboard :: addr

record keyboard_list =
  keyboards :: "addr \<Rightarrow> keyboard"
  keyboard_list_head :: addr
  keyboard_list_last :: addr

definition keyboard_set_capslock :: "keyboard \<Rightarrow> int \<Rightarrow> keyboard" where
  "keyboard_set_capslock keyboard state = keyboard\<lparr>capslock_state := state\<rparr>"

definition keyboard_get_capslock :: "keyboard \<Rightarrow> int" where
  "keyboard_get_capslock keyboard = capslock_state keyboard"

text \<open>\<open>run_init\<close> is the call of the driver's function pointer \<open>keyboard->init\<close>.\<close>

definition keyboard_insert ::
    "(keyboard_list \<Rightarrow> status \<times> keyboard_list) \<Rightarrow> addr \<Rightarrow> keyboard_list \<Rightarrow> status \<times> keyboard_list" where
  "keyboard_insert run_init keyboard s =
     (if \<not> has_init (keyboards s keyboard) then (Inl EINVARG, s)
      else
        let s = (if keyboard_list_last s \<noteq> 0
                 then s\<lparr>keyboards := (keyboards s)(keyboard_list_last s :=
                          (keyboards s (keyboard_list_last s))\<lparr>next_keyboard := keyboard\<rparr>),
                        keyboard_list_last := keyboard\<rparr>
                 else s\<lparr>keyboard_list_head := keyboard, keyboard_list_last := keyboard\<rparr>)
        in run_init s)"

section \<open>The classic driver\<close>

definition keyboard_scan_set_one :: "u8 list" where
  "keyboard_scan_set_one =
    [0x00, 0x1B, 0x31, 0x32, 0x33, 0x34, 0x35,
     0x36, 0x37, 0x38, 0x39, 0x30, 0x2D, 0x3D,
     0x08, 0x09, 0x51, 0x57, 0x45, 0x52, 0x54,
     0x59, 0x55, 0x49, 0x4F, 0x50, 0x5B, 0x5D,
     0x0d, 0x00, 0x41, 0x53, 0x44, 0x46, 0x47,
     0x48, 0x4A, 0x4B, 0x4C, 0x3B, 0x27, 0x60,
     0x00, 0x5C, 0x5A, 0x58, 0x43, 0x56, 0x42,
     0x4E, 0x4D, 0x2C, 0x2E, 0x2F, 0x00, 0x2A,
     0x00, 0x20, 0x00, 0x00, 0x00, 0x00,
     0x00, 0x00, 0x00, 0x00, 0x00, 0x00,
     0x00, 0x37, 0x38, 0x39, 0x2D, 0x34, 0x35,
     0x36, 0x2B, 0x31, 0x32, 0x33, 0x30, 0x2E]"

text \<open>
  The bound is tested with \<open>>\<close>, so the scancode equal to the size reads the byte after the
  table; \<open>after\<close> is that byte. The conversion works on a signed \<open>char\<close>.
\<close>

definition classic_keyboard_scancode_to_char :: "u8 \<Rightarrow> int \<Rightarrow> u8 \<Rightarrow> u8" where
  "classic_keyboard_scancode_to_char after capslock scancode =
     (if length keyboard_scan_set_one < unat scancode then 0
      else
        let c = (keyboard_scan_set_one @ [after]) ! unat scancode
        in if capslock = KEYBOARD_CAPS_LOCK_OFF \<and> 0x41 \<le> sint c \<and> sint c \<le> 0x5A then c + 32 else c)"

text \<open>
  The state the handler works on: the lock, the buffer of the current process, and whether the
  pages of the kernel or of the task are loaded.
\<close>

record classic_state =
  capslock :: int
  current_buffer :: "keyboard_buffer option"
  kernel_pages :: bool

definition clasic_keyboard_handle_interrupt :: "u8 \<Rightarrow> u8 \<Rightarrow> classic_state \<Rightarrow> classic_state" where
  "clasic_keyboard_handle_interrupt after scancode s =
     (let s = s\<lparr>kernel_pages := True\<rparr> in
      if scancode AND 0x80 \<noteq> 0 then s
      else
        let s = (if scancode = 0x3A
                 then s\<lparr>capslock := (if capslock s = KEYBOARD_CAPS_LOCK_ON
                                      then KEYBOARD_CAPS_LOCK_OFF else KEYBOARD_CAPS_LOCK_ON)\<rparr>
                 else s);
            c = classic_keyboard_scancode_to_char after (capslock s) scancode;
            s = (if c \<noteq> 0 then s\<lparr>current_buffer := keyboard_push c (current_buffer s)\<rparr> else s)
        in s\<lparr>kernel_pages := False\<rparr>)"

section \<open>The queue contract\<close>

text \<open>
  What the writer (the interrupt handler) and the reader (the kernel command that fetches a key)
  rely on: a bounded queue of nonzero characters in the order of their arrival.
\<close>

locale char_queue =
  fixes push :: "u8 \<Rightarrow> 'q \<Rightarrow> 'q"
    and pop :: "'q \<Rightarrow> u8 \<times> 'q"
    and contents :: "'q \<Rightarrow> u8 list"
    and ok :: "'q \<Rightarrow> bool"
    and capacity :: nat
  assumes ok_push: "ok q \<Longrightarrow> c \<noteq> 0 \<Longrightarrow> length (contents q) < capacity \<Longrightarrow> ok (push c q)"
    and contents_push: "ok q \<Longrightarrow> c \<noteq> 0 \<Longrightarrow> length (contents q) < capacity
      \<Longrightarrow> contents (push c q) = contents q @ [c]"
    and pop_Cons: "ok q \<Longrightarrow> contents q = c # cs
      \<Longrightarrow> \<exists>q'. pop q = (c, q') \<and> ok q' \<and> contents q' = cs"
    and pop_Nil: "ok q \<Longrightarrow> contents q = [] \<Longrightarrow> pop q = (0, q)"
begin

lemma push_all:
  "ok q \<Longrightarrow> 0 \<notin> set cs \<Longrightarrow> length (contents q) + length cs \<le> capacity
    \<Longrightarrow> ok (fold push cs q) \<and> contents (fold push cs q) = contents q @ cs"
proof (induction cs arbitrary: q)
  case (Cons c cs)
  then have "ok (push c q)" "contents (push c q) = contents q @ [c]"
    by (simp_all add: ok_push contents_push)
  with Cons.IH [of "push c q"] Cons.prems show ?case by simp
qed simp

end

text \<open>Popping \<open>n\<close> times: the characters in the order they come out.\<close>

fun pop_all :: "nat \<Rightarrow> keyboard_buffer option \<Rightarrow> u8 list \<times> keyboard_buffer option" where
  "pop_all 0 q = ([], q)"
| "pop_all (Suc n) q = (let (c, q1) = keyboard_pop q; (cs, q2) = pop_all n q1 in (c # cs, q2))"

lemma ring_index_mod: "ring_index i = nat (i mod 1024)"
proof -
  have "uint ((word_of_int i :: u32) mod 1024) = i mod 2 ^ 32 mod 1024"
    by (simp add: uint_mod uint_word_of_int)
  also have "\<dots> = i mod 1024" by (rule mod_mod_cancel) simp
  finally show ?thesis by (simp add: ring_index_def unat_eq_nat_uint)
qed

lemma ring_index_less [simp]: "ring_index i < 1024"
  by (simp add: ring_index_mod nat_less_iff)

lemma ring_index_inj:
  assumes "j < 1024" "k < 1024" "ring_index (h + int j) = ring_index (h + int k)" shows "j = k"
proof -
  have "(h + int j) mod 1024 = (h + int k) mod 1024"
    using assms(3) by (simp add: ring_index_mod eq_nat_nat_iff)
  then have "1024 dvd (int j - int k)" by (simp add: mod_eq_dvd_iff)
  moreover have "\<bar>int j - int k\<bar> < 1024" using assms(1,2) by linarith
  ultimately have "int j - int k = 0" by (metis dvd_imp_le_int linorder_not_le abs_of_nonneg zero_le_numeral)
  then show ?thesis by simp
qed

lemma ring_index_wrap: "ring_index (1024 + h) = ring_index h"
  by (simp add: ring_index_mod)

text \<open>
  The invariant: the places from \<open>head\<close> up to \<open>tail\<close> hold characters, all others are empty.
\<close>

definition kb_ok :: "keyboard_buffer \<Rightarrow> bool" where
  "kb_ok kb \<longleftrightarrow> length (buffer kb) = 1024 \<and> head kb \<le> tail kb \<and> tail kb \<le> head kb + 1024
     \<and> (\<forall>k<1024. buffer kb ! ring_index (head kb + int k) \<noteq> 0 \<longleftrightarrow> int k < tail kb - head kb)"

definition kb_contents :: "keyboard_buffer \<Rightarrow> u8 list" where
  "kb_contents kb = map (\<lambda>k. buffer kb ! ring_index (head kb + int k)) [0..<nat (tail kb - head kb)]"

lemma kb_push:
  assumes "kb_ok kb" "c \<noteq> 0" "length (kb_contents kb) < 1024"
  shows "kb_ok (kb\<lparr>buffer := (buffer kb)[keyboard_get_tail_index kb := c], tail := tail kb + 1\<rparr>)"
    and "kb_contents (kb\<lparr>buffer := (buffer kb)[keyboard_get_tail_index kb := c], tail := tail kb + 1\<rparr>)
      = kb_contents kb @ [c]"
proof -
  define n where "n = nat (tail kb - head kb)"
  have n: "n < 1024" using assms(3) by (simp add: kb_contents_def n_def)
  have t: "tail kb = head kb + int n" using assms(1) by (simp add: kb_ok_def n_def)
  have upd: "(buffer kb)[keyboard_get_tail_index kb := c] ! ring_index (head kb + int k)
      = (if k = n then c else buffer kb ! ring_index (head kb + int k))" if "k < 1024" for k
    using that n ring_index_inj [OF that n, of "head kb"] assms(1)
    by (auto simp: keyboard_get_tail_index_def t nth_list_update kb_ok_def)
  show "kb_ok (kb\<lparr>buffer := (buffer kb)[keyboard_get_tail_index kb := c], tail := tail kb + 1\<rparr>)"
    using assms(1,2) n upd by (auto simp: kb_ok_def t)
  have "nat (tail kb + 1 - head kb) = Suc n" by (simp add: t)
  then show "kb_contents (kb\<lparr>buffer := (buffer kb)[keyboard_get_tail_index kb := c], tail := tail kb + 1\<rparr>)
      = kb_contents kb @ [c]"
    using n upd by (simp add: kb_contents_def n_def [symmetric] cong: map_cong)
qed

lemma kb_pop:
  assumes "kb_ok kb" "kb_contents kb = c # cs"
  shows "buffer kb ! ring_index (head kb) = c" and "c \<noteq> 0"
    and "kb_ok (kb\<lparr>buffer := (buffer kb)[ring_index (head kb) := 0], head := head kb + 1\<rparr>)"
    and "kb_contents (kb\<lparr>buffer := (buffer kb)[ring_index (head kb) := 0], head := head kb + 1\<rparr>) = cs"
proof -
  define n where "n = nat (tail kb - head kb)"
  have "n = length (c # cs)" using assms(2) by (metis kb_contents_def length_map length_upt minus_nat.diff_0 n_def)
  then have pos: "0 < n" by simp
  have t: "tail kb = head kb + int n" and n: "n \<le> 1024"
    using assms(1) by (auto simp: kb_ok_def n_def)
  have up: "[0..<n] = 0 # map Suc [0..<n - 1]"
    using pos by (metis Suc_pred' map_Suc_upt upt_conv_Cons)
  show c: "buffer kb ! ring_index (head kb) = c"
    using assms(2) by (simp add: kb_contents_def n_def [symmetric] up)
  show "c \<noteq> 0" using assms(1) pos c t by (auto simp: kb_ok_def dest: spec [of _ 0])
  have upd: "(buffer kb)[ring_index (head kb) := 0] ! ring_index (head kb + 1 + int k)
      = (if k = 1023 then 0 else buffer kb ! ring_index (head kb + int (Suc k)))" if "k < 1024" for k
  proof (cases "k = 1023")
    case True
    then show ?thesis using assms(1) ring_index_wrap [of "head kb"] by (simp add: kb_ok_def)
  next
    case False
    then have "ring_index (head kb) \<noteq> ring_index (head kb + int (Suc k))"
      using that ring_index_inj [of 0 "Suc k" "head kb"] by auto
    with False show ?thesis by (simp add: algebra_simps)
  qed
  show "kb_ok (kb\<lparr>buffer := (buffer kb)[ring_index (head kb) := 0], head := head kb + 1\<rparr>)"
  proof -
    have occ: "buffer kb ! ring_index (head kb + int (Suc k)) \<noteq> 0 \<longleftrightarrow> Suc k < n" if "k < 1023" for k
      using assms(1) that unfolding kb_ok_def t by (auto dest!: spec [of _ "Suc k"])
    have "(buffer kb)[ring_index (head kb) := 0] ! ring_index (head kb + 1 + int k) \<noteq> 0
        \<longleftrightarrow> int k < tail kb - (head kb + 1)" if "k < 1024" for k
      using occ [of k] upd [OF that] that n by (cases "k = 1023") (auto simp: t)
    with assms(1) pos n show ?thesis by (auto simp: kb_ok_def t)
  qed
  have "nat (tail kb - (head kb + 1)) = n - 1" using pos by (simp add: t)
  moreover have "cs = map (\<lambda>k. buffer kb ! ring_index (head kb + int (Suc k))) [0..<n - 1]"
    using assms(2) by (simp add: kb_contents_def n_def [symmetric] up comp_def)
  ultimately show "kb_contents (kb\<lparr>buffer := (buffer kb)[ring_index (head kb) := 0], head := head kb + 1\<rparr>) = cs"
    using n upd by (auto simp: kb_contents_def)
qed

lemma kb_empty:
  "kb_ok kb \<Longrightarrow> kb_contents kb = [] \<Longrightarrow> buffer kb ! ring_index (head kb) = 0"
  by (auto simp: kb_ok_def kb_contents_def dest: spec [of _ 0])

definition queue_ok :: "keyboard_buffer option \<Rightarrow> bool" where
  "queue_ok q = (case q of None \<Rightarrow> False | Some kb \<Rightarrow> kb_ok kb)"

definition queue_contents :: "keyboard_buffer option \<Rightarrow> u8 list" where
  "queue_contents q = (case q of None \<Rightarrow> [] | Some kb \<Rightarrow> kb_contents kb)"

interpretation keys: char_queue keyboard_push keyboard_pop queue_contents queue_ok 1024
proof unfold_locales
  fix q c cs assume "queue_ok q" "queue_contents q = c # cs"
  then show "\<exists>q'. keyboard_pop q = (c, q') \<and> queue_ok q' \<and> queue_contents q' = cs"
    using kb_pop by (auto simp: queue_ok_def queue_contents_def keyboard_pop_def Let_def split: option.splits)
qed (auto simp: queue_ok_def queue_contents_def keyboard_push_def keyboard_pop_def Let_def
    kb_push kb_empty split: option.splits)

lemma pop_all_contents:
  "queue_ok q \<Longrightarrow> queue_contents q = cs @ ds
    \<Longrightarrow> \<exists>q'. pop_all (length cs) q = (cs, q') \<and> queue_ok q' \<and> queue_contents q' = ds"
proof (induction cs arbitrary: q)
  case (Cons c cs)
  then obtain q1 where "keyboard_pop q = (c, q1)" "queue_ok q1" "queue_contents q1 = cs @ ds"
    using keys.pop_Cons [of q c "cs @ ds"] by auto
  with Cons.IH [of q1] show ?case by auto
qed simp

definition empty_buffer :: keyboard_buffer where
  "empty_buffer = \<lparr>buffer = replicate 1024 0, tail = 0, head = 0\<rparr>"

lemma empty_buffer_ok: "queue_ok (Some empty_buffer)" "queue_contents (Some empty_buffer) = []"
  by (simp_all add: queue_ok_def queue_contents_def kb_ok_def kb_contents_def empty_buffer_def)

section \<open>Properties\<close>

text \<open>
  C10: Keys come out in the order they went in: whatever is pushed while the buffer has room is
  popped, after what was there already, character by character, and then the buffer is empty.
\<close>
theorem keyboard_fifo:
  assumes "queue_ok q" "0 \<notin> set cs" "length (queue_contents q) + length cs \<le> 1024"
  shows "\<exists>q'. pop_all (length (queue_contents q) + length cs) (fold keyboard_push cs q)
      = (queue_contents q @ cs, q') \<and> queue_ok q' \<and> keyboard_pop q' = (0, q')"
proof -
  have "queue_ok (fold keyboard_push cs q)" "queue_contents (fold keyboard_push cs q) = queue_contents q @ cs"
    using keys.push_all [OF assms] by simp_all
  then obtain q' where "pop_all (length (queue_contents q @ cs)) (fold keyboard_push cs q)
      = (queue_contents q @ cs, q')" "queue_ok q'" "queue_contents q' = []"
    using pop_all_contents [of "fold keyboard_push cs q" "queue_contents q @ cs" "[]"] by auto
  then show ?thesis using keys.pop_Nil by auto
qed

theorem keyboard_fifo_witness:
  "\<exists>q'. pop_all 3 (fold keyboard_push [0x61, 0x62, 0x63] (Some empty_buffer)) = ([0x61, 0x62, 0x63], q')"
  using keyboard_fifo [OF empty_buffer_ok(1), of "[0x61, 0x62, 0x63]"]
  by (auto simp: empty_buffer_ok(2) numeral_3_eq_3)

text \<open>
  A push onto a full buffer overwrites the oldest character: the next pop returns the newest
  one before the 1023 that were pushed ahead of it.
\<close>
theorem keyboard_push_full:
  assumes "kb_ok kb" "length (kb_contents kb) = 1024" "c \<noteq> 0"
  shows "fst (keyboard_pop (keyboard_push c (Some kb))) = c"
proof -
  have "tail kb - head kb = 1024"
    using assms(1,2) by (simp add: kb_ok_def kb_contents_def)
  then have "tail kb = 1024 + head kb" by simp
  then have "keyboard_get_tail_index kb = ring_index (head kb)"
    by (simp add: keyboard_get_tail_index_def ring_index_wrap)
  then show ?thesis
    using assms(1,3) by (simp add: keyboard_push_def keyboard_pop_def Let_def kb_ok_def)
qed

theorem keyboard_push_full_witness:
  "fst (keyboard_pop (keyboard_push 0x7A (Some \<lparr>buffer = replicate 1024 0x61, tail = 1024, head = 0\<rparr>))) = 0x7A"
  by (rule keyboard_push_full) (simp_all add: kb_ok_def kb_contents_def)

text \<open>
  A backspace takes back the last character of a buffer that holds one. On an empty buffer it
  moves the tail behind the head, and the next character pushed is not found by a pop.
\<close>
theorem keyboard_backspace_effect:
  assumes "kb_ok kb"
  shows "if kb_contents kb = []
    then fst (keyboard_pop (keyboard_push c (Some (keyboard_backspace kb)))) = 0
    else kb_ok (keyboard_backspace kb) \<and> kb_contents (keyboard_backspace kb) = butlast (kb_contents kb)"
proof (cases "kb_contents kb = []")
  case True
  have "ring_index (head kb - 1) \<noteq> ring_index (head kb)"
    using ring_index_inj [of 0 1 "head kb - 1"] by auto
  moreover have "tail kb = head kb" using True assms by (auto simp: kb_contents_def kb_ok_def)
  ultimately show ?thesis
    using True kb_empty [OF assms] by (simp add: keyboard_backspace_def keyboard_get_tail_index_def
        keyboard_push_def keyboard_pop_def Let_def)
next
  case False
  define n where "n = nat (tail kb - head kb - 1)"
  have n: "n < 1024" "tail kb - 1 = head kb + int n" and Suc: "nat (tail kb - head kb) = Suc n"
    using assms False by (auto simp: n_def kb_ok_def kb_contents_def)
  have upd: "(buffer kb)[ring_index (tail kb - 1) := 0] ! ring_index (head kb + int k)
      = (if k = n then 0 else buffer kb ! ring_index (head kb + int k))" if "k < 1024" for k
    using that n ring_index_inj [OF that n(1), of "head kb"] assms
    by (auto simp: n(2) nth_list_update kb_ok_def)
  let ?kb = "keyboard_backspace kb"
  have kb: "?kb = kb\<lparr>tail := tail kb - 1, buffer := (buffer kb)[ring_index (tail kb - 1) := 0]\<rparr>"
    by (simp add: keyboard_backspace_def keyboard_get_tail_index_def Let_def)
  have "kb_ok ?kb" using assms n upd by (auto simp: kb kb_ok_def)
  moreover have "nat (tail kb - 1 - head kb) = n" using n(2) by simp
  then have "kb_contents ?kb = butlast (kb_contents kb)"
    using n upd by (simp add: kb kb_contents_def Suc cong: map_cong)
  ultimately show ?thesis using False by simp
qed

theorem keyboard_backspace_effect_witness:
  "fst (keyboard_pop (keyboard_push 0x61 (Some (keyboard_backspace empty_buffer)))) = 0"
  using keyboard_backspace_effect [of empty_buffer "0x61"] empty_buffer_ok
  by (simp add: queue_ok_def queue_contents_def)



text \<open>
  The interrupt of a pressed key appends its character to the buffer of the current process
  and keeps the lock; a key release changes neither. The caps lock key toggles the lock and
  writes nothing.
\<close>
theorem keyboard_interrupt_effect:
  assumes "queue_ok (current_buffer s)" "length (queue_contents (current_buffer s)) < 1024"
    and "capslock s = KEYBOARD_CAPS_LOCK_OFF \<or> capslock s = KEYBOARD_CAPS_LOCK_ON"
  shows "let s' = clasic_keyboard_handle_interrupt after sc s;
      c = classic_keyboard_scancode_to_char after (capslock s) sc;
      same = queue_contents (current_buffer s') = queue_contents (current_buffer s)
    in if sc AND 0x80 \<noteq> 0 then same \<and> capslock s' = capslock s
       else if sc = 0x3A then same \<and> capslock s' = 1 - capslock s
       else capslock s' = capslock s \<and> (if c = 0 then same
         else queue_contents (current_buffer s') = queue_contents (current_buffer s) @ [c])"
proof -
  have caps: "classic_keyboard_scancode_to_char after lock 0x3A = 0" for lock
    by (simp add: classic_keyboard_scancode_to_char_def keyboard_scan_set_one_def)
  have "(0x3A :: u8) AND 0x80 = 0" by simp
  then show ?thesis
    using keys.contents_push [OF assms(1)] assms(2,3) caps
    by (auto simp: clasic_keyboard_handle_interrupt_def Let_def)
qed

theorem keyboard_interrupt_effect_witness:
  "queue_contents (current_buffer (clasic_keyboard_handle_interrupt 0 0x1E
     \<lparr>capslock = 0, current_buffer = Some empty_buffer, kernel_pages = False\<rparr>)) = [0x61]"
  using keyboard_interrupt_effect
    [of "\<lparr>capslock = 0, current_buffer = Some empty_buffer, kernel_pages = False\<rparr>" 0 "0x1E"]
  by (simp add: empty_buffer_ok classic_keyboard_scancode_to_char_def keyboard_scan_set_one_def Let_def)

end
