(* ===== verification/Pparser.thy ===== *)
theory Pparser
  imports Heap Strings
begin

text \<open>
  The path parser of \<^verbatim>\<open>src/fs/pparser.c\<close>, over the physical memory and the kernel heap. A
  \<open>path_root\<close> is two words (the drive, the first part), a \<open>path_part\<close> is two words (the
  address of its text, the next part). The loops that follow a string or a list of parts run
  until they meet its end, so they are partial functions.
\<close>

definition pathparser_path_valid_format :: "mem \<Rightarrow> addr \<Rightarrow> bool" where
  "pathparser_path_valid_format m filename \<longleftrightarrow>
     (let len = strnlen m filename MAX_PATH
      in 3 \<le> len \<and> isdigit (m filename) \<and> m (filename + 1) = 0x3A \<and> m (filename + 2) = 0x2F)"

definition pathparser_get_drive_by_path :: "mem \<Rightarrow> addr \<Rightarrow> error + int \<times> addr" where
  "pathparser_get_drive_by_path m path =
     (if \<not> pathparser_path_valid_format m path then Inl EBADPATH
      else Inr (tonumericdigit (m path), path + 3))"

definition pathparser_create_root :: "mem \<Rightarrow> heap \<Rightarrow> int \<Rightarrow> addr \<times> mem" where
  "pathparser_create_root m h drive_number =
     (let (path_r, m) = kzalloc m h 8;
          m = write32 m path_r (word_of_int drive_number);
          m = write32 m (path_r + 4) 0
      in (path_r, m))"

text \<open>The copy of one part: the memory, the place where it stopped, and the characters copied.\<close>

partial_function (option) path_part_loop ::
    "mem \<Rightarrow> addr \<Rightarrow> addr \<Rightarrow> u32 \<Rightarrow> (mem \<times> addr \<times> u32) option" where
  "path_part_loop m result_path_part path i =
     (if m path \<noteq> 0x2F \<and> m path \<noteq> 0
      then path_part_loop (m(result_path_part + i := m path)) result_path_part (path + 1) (i + 1)
      else Some (m, path, i))"

definition pathparser_get_path_part :: "mem \<Rightarrow> heap \<Rightarrow> addr \<Rightarrow> (addr \<times> addr \<times> mem) option" where
  "pathparser_get_path_part m h path =
     (let (result_path_part, m) = kzalloc m h MAX_PATH in
      case path_part_loop m result_path_part path 0 of
        None \<Rightarrow> None
      | Some (m, path, i) \<Rightarrow>
          let path = (if m path = 0x2F then path + 1 else path)
          in if i = 0 then Some (0, path, kfree m h result_path_part)
             else Some (result_path_part, path, m))"

definition pathparser_parse_path_part ::
    "mem \<Rightarrow> heap \<Rightarrow> addr \<Rightarrow> addr \<Rightarrow> (addr \<times> addr \<times> mem) option" where
  "pathparser_parse_path_part m h last_part path =
     (case pathparser_get_path_part m h path of
        None \<Rightarrow> None
      | Some (path_part_str, path, m) \<Rightarrow>
          if path_part_str = 0 then Some (0, path, m)
          else
            let (part, m) = kzalloc m h 8;
                m = write32 m part path_part_str;
                m = write32 m (part + 4) 0;
                m = (if last_part \<noteq> 0 then write32 m (last_part + 4) part else m)
            in Some (part, path, m))"

partial_function (option) free_parts_loop :: "mem \<Rightarrow> heap \<Rightarrow> addr \<Rightarrow> mem option" where
  "free_parts_loop m h part =
     (if part = 0 then Some m
      else let next_part = read32 m (part + 4);
               m = kfree m h (read32 m part);
               m = kfree m h part
           in free_parts_loop m h next_part)"

definition pathparser_free :: "mem \<Rightarrow> heap \<Rightarrow> addr \<Rightarrow> mem option" where
  "pathparser_free m h root = map_option (\<lambda>m. kfree m h root) (free_parts_loop m h (read32 m (root + 4)))"

partial_function (option) parse_parts_loop :: "mem \<Rightarrow> heap \<Rightarrow> addr \<Rightarrow> addr \<Rightarrow> mem option" where
  "parse_parts_loop m h part path =
     (if part = 0 then Some m
      else case pathparser_parse_path_part m h part path of
             None \<Rightarrow> None
           | Some (part, path, m) \<Rightarrow> parse_parts_loop m h part path)"

text \<open>\<open>current_directory_path\<close> is never read.\<close>

definition pathparser_parse :: "mem \<Rightarrow> heap \<Rightarrow> addr \<Rightarrow> addr \<Rightarrow> (addr \<times> mem) option" where
  "pathparser_parse m h path current_directory_path =
     (case strlen m path of
        None \<Rightarrow> None
      | Some len \<Rightarrow>
          if MAX_PATH < len then Some (0, m)
          else case pathparser_get_drive_by_path m path of
            Inl _ \<Rightarrow> Some (0, m)
          | Inr (res, tmp_path) \<Rightarrow>
              let (path_root, m) = pathparser_create_root m h res in
              if path_root = 0 then Some (0, m)
              else case pathparser_parse_path_part m h 0 tmp_path of
                None \<Rightarrow> None
              | Some (first_part, tmp_path, m) \<Rightarrow>
                  if first_part = 0 then Some (path_root, m)
                  else
                    let m = write32 m (path_root + 4) first_part in
                    case pathparser_parse_path_part m h first_part tmp_path of
                      None \<Rightarrow> None
                    | Some (part, tmp_path, m) \<Rightarrow>
                        map_option (\<lambda>m. (path_root, m)) (parse_parts_loop m h part tmp_path))"

section \<open>Lemmas\<close>

definition valid_path :: "u8 list \<Rightarrow> bool" where
  "valid_path xs \<longleftrightarrow> 3 \<le> length xs \<and> isdigit (xs ! 0) \<and> xs ! 1 = 0x3A \<and> xs ! 2 = 0x2F"

lemma valid_format_c_string:
  assumes "c_string m p xs" shows "pathparser_path_valid_format m p \<longleftrightarrow> valid_path xs"
proof -
  have "m (p + of_nat i) = xs ! i" if "i < length xs" for i
    using that assms by (simp add: c_string_iff_nth)
  from this [of 0] this [of 1] this [of 2] show ?thesis
    using strnlen_c_string [OF assms, of 108]
    by (cases "xs = []") (auto simp: pathparser_path_valid_format_def valid_path_def Let_def)
qed

lemma c_string_frame:
  assumes "c_string m p xs" "\<And>i. i \<le> length xs \<Longrightarrow> m' (p + of_nat i) = m (p + of_nat i)"
  shows "c_string m' p xs"
  using assms by (auto simp: c_string_iff_nth)

lemma c_string_append_right: "c_string m p (xs @ ys) \<Longrightarrow> c_string m (p + of_nat (length xs)) ys"
proof (induction xs arbitrary: p)
  case (Cons x xs)
  then have "c_string m (p + 1 + of_nat (length xs)) ys" by simp
  then show ?case by (simp add: ac_simps)
qed simp

lemma c_string_write_outside:
  assumes "c_string m p xs" "apart p (Suc (length xs)) q (length bs)" "length bs < 2 ^ 32"
  shows "c_string (write_bytes m q bs) p xs"
proof (rule c_string_frame [OF assms(1)])
  fix i assume "i \<le> length xs"
  have "length bs \<le> unat (p + of_nat i - q)"
  proof (rule ccontr)
    assume "\<not> ?thesis"
    then have "unat (p + of_nat i - q) < length bs" by simp
    moreover have "q + of_nat (unat (p + of_nat i - q)) = p + of_nat i" by simp
    ultimately show False using apartD [OF assms(2)] \<open>i \<le> length xs\<close> by (metis less_Suc_eq_le)
  qed
  then show "write_bytes m q bs (p + of_nat i) = m (p + of_nat i)" by (simp add: write_bytes_outside)
qed

lemma path_part_loop_unfold:
  "path_part_loop m result_path_part path i =
     (if m path \<noteq> 0x2F \<and> m path \<noteq> 0
      then path_part_loop (m(result_path_part + i := m path)) result_path_part (path + 1) (i + 1)
      else Some (m, path, i))"
  by (subst path_part_loop.simps) (simp add: fun_upd_def)

lemma path_part_loop_c_string:
  assumes "c_string m path (ys @ rest)" "0x2F \<notin> set ys" "rest = [] \<or> hd rest = 0x2F"
    and "apart path (Suc (length (ys @ rest))) (buf + i) (length ys)"
  shows "path_part_loop m buf path i =
    Some (write_bytes m (buf + i) ys, path + of_nat (length ys), i + of_nat (length ys))"
  using assms
proof (induction ys arbitrary: m path i)
  case Nil
  then show ?case by (cases rest) (auto simp: path_part_loop_unfold)
next
  case (Cons y ys)
  let ?m = "m(buf + i := y)"
  have y: "m path = y" "y \<noteq> 0" "y \<noteq> 0x2F" "c_string m (path + 1) (ys @ rest)" using Cons.prems by auto
  have ap: "apart path (Suc (Suc (length (ys @ rest)))) (buf + i) (Suc (length ys))"
    using Cons.prems(4) by simp
  have "c_string ?m (path + 1) (ys @ rest)"
  proof (rule c_string_frame [OF y(4)])
    fix j assume "j \<le> length (ys @ rest)"
    then have "buf + i \<noteq> path + of_nat (Suc j)" using apart_neq [OF ap, of "Suc j"] by simp
    then show "?m (path + 1 + of_nat j) = m (path + 1 + of_nat j)" by (auto simp: ac_simps)
  qed
  moreover have "apart (path + 1) (Suc (length (ys @ rest))) (buf + (i + 1)) (length ys)"
    using apart_SucD [OF ap] by (simp add: ac_simps)
  ultimately have "path_part_loop ?m buf (path + 1) (i + 1) =
      Some (write_bytes ?m (buf + (i + 1)) ys, path + 1 + of_nat (length ys), i + 1 + of_nat (length ys))"
    using Cons.IH [of ?m "path + 1" "i + 1"] Cons.prems(2,3) by (simp add: fun_upd_def)
  then show ?case using y by (simp add: path_part_loop_unfold [of m] ac_simps)
qed

section \<open>Properties\<close>

text \<open>
  A path that is longer than 108 characters, or that does not start with a drive digit and
  \<open>:/\<close> followed by nothing shorter, is refused with a null result before anything is allocated.
\<close>
theorem pathparser_refuses:
  assumes "c_string m p xs" "108 < length xs \<or> \<not> valid_path xs"
  shows "pathparser_parse m h p cd = Some (0, m)"
  using strlen_c_string [OF assms(1)] valid_format_c_string [OF assms(1)] assms(2)
  by (auto simp: pathparser_parse_def pathparser_get_drive_by_path_def)

text \<open>The path \<open>x\<close>.\<close>
theorem pathparser_refuses_witness:
  "pathparser_parse ((\<lambda>_. 0)(0x100 := 0x78))
     \<lparr>heap_table_of = \<lparr>entries = 0, total = 0\<rparr>, saddr = 0\<rparr> 0x100 0 = Some (0, (\<lambda>_. 0)(0x100 := 0x78))"
  by (rule pathparser_refuses [of _ _ "[0x78]"]) (simp_all add: valid_path_def)

text \<open>
  One part of a path, the characters up to the next slash, is copied into its buffer as a
  terminated string, and the reader stands behind the slash, at the rest of the path.
\<close>
theorem path_part_copied:
  assumes alloc: "page_aligned (saddr h)" "kzalloc m h 108 = (buf, m1)" "buf \<noteq> 0"
    and path: "c_string m1 path (ys @ rest)" "0x2F \<notin> set ys" "rest = [] \<or> hd rest = 0x2F"
    and len: "ys \<noteq> []" "length ys < 108"
    and ap: "apart path (Suc (length (ys @ rest))) buf 108"
  shows "\<exists>path' m'. pathparser_get_path_part m h path = Some (buf, path', m')
    \<and> c_string m' buf ys \<and> c_string m' path' (tl rest)"
proof -
  let ?m = "write_bytes m1 buf ys" and ?p = "path + of_nat (length ys)"
  have ap': "apart path (Suc (length (ys @ rest))) buf (length ys)"
    using apart_mono [OF ap order.refl] len(2) by simp
  have loop: "path_part_loop m1 buf path 0 = Some (?m, ?p, of_nat (length ys))"
    using path_part_loop_c_string [OF path, of buf 0] ap' by simp
  have "(of_nat (length ys) :: u32) \<noteq> 0"
    using len by (simp add: word_unat_eq_iff unat_of_nat)
  have whole: "c_string ?m path (ys @ rest)"
    using len(2) by (intro c_string_write_outside path(1) ap') simp
  then have rest: "c_string ?m ?p rest" by (rule c_string_append_right)
  have zero: "m1 (buf + of_nat (length ys)) = 0"
  proof -
    have "bytes_at m1 buf 108 = replicate 108 0"
      using kernel_allocator.zalloc_bytes [of "(m, h)" 108 buf "(m1, h)" 108] alloc by simp
    then show ?thesis using len(2) by (metis nth_bytes_at nth_replicate)
  qed
  have "0 \<notin> set ys" using path(1) by (auto simp: c_string_iff_nth)
  moreover have "?m (buf + of_nat (length ys)) = 0"
    using zero len(2) by (simp add: write_bytes_outside unat_of_nat)
  moreover have "?m (buf + of_nat i) = ys ! i" if "i < length ys" for i
    using that len(2) by (simp add: write_bytes_inside)
  ultimately have "c_string ?m buf ys" by (simp add: c_string_iff_nth)
  moreover have "c_string ?m (if ?m ?p = 0x2F then ?p + 1 else ?p) (tl rest)"
    using rest path(3) by (cases rest) auto
  moreover have "pathparser_get_path_part m h path =
      Some (buf, if ?m ?p = 0x2F then ?p + 1 else ?p, ?m)"
    using alloc loop \<open>of_nat (length ys) \<noteq> 0\<close> by (simp add: pathparser_get_path_part_def Let_def)
  ultimately show ?thesis by blast
qed

text \<open>The part \<open>a\<close> of the path \<open>a/b\<close>, on a heap whose block 1 is handed out.\<close>
theorem path_part_copied_witness:
  "\<exists>path' m'. pathparser_get_path_part
      ((\<lambda>_. 0)(1 := 1, 0x100 := 0x61, 0x101 := 0x2F, 0x102 := 0x62))
      \<lparr>heap_table_of = \<lparr>entries = 0, total = 4\<rparr>, saddr = 0x1000\<rparr> 0x100 = Some (0x2000, path', m')
    \<and> c_string m' 0x2000 [0x61] \<and> c_string m' path' [0x62]"
proof -
  let ?h = "\<lparr>heap_table_of = \<lparr>entries = 0, total = 4\<rparr>, saddr = 0x1000\<rparr>"
  let ?m = "(\<lambda>_. 0)(1 := 1, 0x100 := 0x61, 0x101 := 0x2F, 0x102 := 0x62) :: mem"
  let ?m1 = "\<lambda>a. if a - 0x2000 < 108 then 0 else (?m(1 := 0x41)) a"
  have k: "kzalloc ?m ?h 108 = (0x2000, ?m1)"
    by (simp add: kzalloc_def kmalloc_def heap_malloc_def heap_align_value_to_upper_def
        heap_malloc_blocks_def heap_get_start_block_def start_block_loop.simps
        heap_get_entry_type_def heap_block_to_address_def heap_mark_blocks_taken_def
        mark_taken_loop.simps Let_def memset_apply fun_eq_iff)
  have "page_aligned (saddr ?h)" by (simp add: page_aligned_def)
  from path_part_copied [OF this k, of "0x100" "[0x61]" "[0x2F, 0x62]"]
  show ?thesis by (simp add: apart_ranges)
qed

text \<open>
  On the kernel's heap, after any history, parsing a valid path returns null, and it has
  written the drive number and a zero to the addresses 0 to 7: the null result of the allocation
  is tested only after it has been used.
\<close>
theorem pathparser_kernel_null:
  assumes "heap_reachable h m" "c_string m p xs" "valid_path xs" "length xs \<le> 108"
  shows "pathparser_parse m h p cd = Some (0, write32 (write32 m 0 (word_of_int (tonumericdigit (xs ! 0)))) 4 0)"
proof -
  have "kzalloc m h 8 = (0, m)" by (intro kzalloc_all_free heap_reachable_all_free assms(1))
  moreover have "m p = xs ! 0"
    using assms(2,3) by (cases xs) (auto simp: valid_path_def)
  ultimately show ?thesis
    using strlen_c_string [OF assms(2)] valid_format_c_string [OF assms(2)] assms(3,4)
    by (simp add: pathparser_parse_def pathparser_get_drive_by_path_def pathparser_create_root_def Let_def)
qed

text \<open>The path \<open>0:/a\<close>, right after \<open>kheap_init\<close>.\<close>
theorem pathparser_kernel_null_witness:
  "case kheap_init \<lparr>heap_table_of = \<lparr>entries = 0, total = 0\<rparr>, saddr = 0\<rparr>
      ((\<lambda>_. 0)(0x100 := 0x30, 0x101 := 0x3A, 0x102 := 0x2F, 0x103 := 0x61)) of
     (_, h, m) \<Rightarrow> pathparser_parse m h 0x100 0 = Some (0, write32 (write32 m 0 0) 4 0)"
proof -
  let ?h = "\<lparr>heap_table_of = \<lparr>entries = 0, total = 0\<rparr>, saddr = 0\<rparr>"
  let ?m = "(\<lambda>_. 0)(0x100 := 0x30, 0x101 := 0x3A, 0x102 := 0x2F, 0x103 := 0x61) :: mem"
  obtain h' m' where k: "kheap_init ?h ?m = (ALL_OK, h', m')"
    by (simp add: kheap_init_def heap_create_def heap_validate_alignment_def
        heap_validate_table_def Let_def)
  then have r: "heap_reachable h' m'"
    unfolding kheap_init_def Let_def by (intro heap_reachable.create)
  have c: "c_string m' 0x100 [0x30, 0x3A, 0x2F, 0x61]"
    using k by (auto simp: kheap_init_def heap_create_def heap_validate_alignment_def
        heap_validate_table_def Let_def memset_apply)
  have "valid_path [0x30, 0x3A, 0x2F, 0x61]" by (simp add: valid_path_def isdigit_def)
  from pathparser_kernel_null [OF r c this] show ?thesis by (simp add: k tonumericdigit_def)
qed

end
