(* ===== verification/Disk.thy ===== *)
theory Disk
  imports Kernel_Prelude
begin

unbundle bit_operations_syntax

text \<open>
  The ATA driver of \<^verbatim>\<open>src/disk/disk.c\<close> and the byte streams of \<^verbatim>\<open>src/disk/streamer.c\<close>. The drive
  is hardware: what its status port answers, read by read, and the words its data port delivers
  are parameters of \<open>disk_read_sector\<close>. Above it, a drive is the function from a sector to its
  512 bytes, the parameter \<open>dev\<close>.
\<close>

section \<open>The driver\<close>

text \<open>The writes to the ports of the drive, in order.\<close>

definition sector_commands :: "int \<Rightarrow> int \<Rightarrow> (u16 \<times> u8) list" where
  "sector_commands lba n =
     [(0x1F6, word_of_int (drop_bit 24 lba OR 0xE0)),
      (0x1F2, word_of_int n),
      (0x1F3, word_of_int (lba AND 0xff)),
      (0x1F4, word_of_int (drop_bit 8 lba)),
      (0x1F5, word_of_int (drop_bit 16 lba)),
      (0x1F7, 0x20)]"

text \<open>Polling: \<open>status k\<close> is the answer to the \<open>k\<close>-th read of the status port.\<close>

partial_function (option) wait_ready :: "(nat \<Rightarrow> u8) \<Rightarrow> nat \<Rightarrow> nat option" where
  "wait_ready status k = (if status k AND 0x08 \<noteq> 0 then Some (Suc k) else wait_ready status (Suc k))"

definition write16 :: "mem \<Rightarrow> addr \<Rightarrow> u16 \<Rightarrow> mem" where
  "write16 m p v = m(p := ucast v, p + 1 := ucast (drop_bit 8 v))"

fun copy_words :: "(nat \<Rightarrow> u16) \<Rightarrow> nat \<Rightarrow> addr \<Rightarrow> nat \<Rightarrow> mem \<Rightarrow> mem" where
  "copy_words data k p 0 m = m"
| "copy_words data k p (Suc n) m = copy_words data (Suc k) (p + 2) n (write16 m p (data k))"

fun read_sectors_loop ::
    "(nat \<Rightarrow> u8) \<Rightarrow> (nat \<Rightarrow> u16) \<Rightarrow> nat \<Rightarrow> nat \<Rightarrow> addr \<Rightarrow> nat \<Rightarrow> mem \<Rightarrow> mem option" where
  "read_sectors_loop status data s k p 0 m = Some m"
| "read_sectors_loop status data s k p (Suc b) m =
     (case wait_ready status s of
        None \<Rightarrow> None
      | Some s' \<Rightarrow> read_sectors_loop status data s' (k + 256) (p + 512) b (copy_words data k p 256 m))"

definition disk_read_sector ::
    "(nat \<Rightarrow> u8) \<Rightarrow> (nat \<Rightarrow> u16) \<Rightarrow> int \<Rightarrow> int \<Rightarrow> addr \<Rightarrow> mem \<Rightarrow> (u16 \<times> u8) list \<times> mem option" where
  "disk_read_sector status data lba n buf m =
     (sector_commands lba n, read_sectors_loop status data 0 0 buf (nat n) m)"

section \<open>Blocks\<close>

record disk =
  disk_type :: u32
  sector_size :: int
  disk_id :: int
  filesystem :: addr
  fs_private :: addr

text \<open>\<open>fs_resolve\<close> is the search of \<^verbatim>\<open>src/fs/file.c\<close>, given the disk as set up so far.\<close>

definition disk_search_and_init :: "(disk \<Rightarrow> addr \<times> disk) \<Rightarrow> disk" where
  "disk_search_and_init fs_resolve =
     (let disk = \<lparr>disk_type = 0, sector_size = 0, disk_id = 0, filesystem = 0, fs_private = 0\<rparr>;
          disk = disk\<lparr>disk_type := 0\<rparr>;
          disk = disk\<lparr>sector_size := SECTOR_SIZE\<rparr>;
          disk = disk\<lparr>disk_id := 0\<rparr>;
          (fs, disk) = fs_resolve disk
      in disk\<lparr>filesystem := fs\<rparr>)"

text \<open>\<open>the_disk\<close> is the address of the only disk.\<close>

definition disk_get :: "addr \<Rightarrow> int \<Rightarrow> addr" where
  "disk_get the_disk index = (if index \<noteq> 0 then 0 else the_disk)"

type_synonym device = "u32 \<Rightarrow> u8 list"

definition disk_read_block :: "device \<Rightarrow> addr \<Rightarrow> addr \<Rightarrow> u32 \<Rightarrow> nat \<Rightarrow> error + u8 list" where
  "disk_read_block dev the_disk idisk lba n =
     (if idisk \<noteq> the_disk then Inl EIO
      else Inr (concat (map (\<lambda>b. dev (lba + of_nat b)) [0..<n])))"

section \<open>What the drive selects and delivers\<close>

text \<open>
  The drive in LBA mode: bits 0 to 23 of the sector from ports 0x1F3 to 0x1F5, bits 24 to 27 from
  the low half of port 0x1F6, whose high half selects LBA mode and the drive.
\<close>

fun selected :: "(u16 \<times> u8) list \<Rightarrow> u32" where
  "selected [(_, d), (_, n), (_, l), (_, mi), (_, h), (_, c)] =
     ucast l OR push_bit 8 (ucast mi) OR push_bit 16 (ucast h) OR push_bit 24 (ucast (d AND 0x0F))"
| "selected _ = 0"

definition word_bytes :: "u16 \<Rightarrow> u8 list" where
  "word_bytes v = [ucast v, ucast (drop_bit 8 v)]"

lemma wait_ready_returns: "k \<le> j \<Longrightarrow> status j AND 0x08 \<noteq> 0 \<Longrightarrow> \<exists>s. wait_ready status k = Some s"
proof (induction "j - k" arbitrary: k)
  case 0
  then show ?case by (subst wait_ready.simps) simp
next
  case (Suc d)
  then have "\<exists>s. wait_ready status (Suc k) = Some s" by simp
  then show ?case by (subst wait_ready.simps) simp
qed

lemma copy_words_bytes:
  "copy_words data k p n m = write_bytes m p (concat (map (\<lambda>i. word_bytes (data i)) [k..<k + n]))"
proof (induction n arbitrary: k p m)
  case (Suc n)
  have "[k..<k + Suc n] = k # [Suc k..<Suc k + n]" by (simp add: upt_conv_Cons)
  with Suc [of "Suc k" "p + 2"] show ?case
    by (simp add: write16_def word_bytes_def fun_upd_def ac_simps del: upt_Suc)
qed simp

lemma length_concat_word_bytes: "length (concat (map (\<lambda>i. word_bytes (data i)) [k..<k + n])) = 2 * n"
  by (induction n) (simp_all add: word_bytes_def)

lemma read_sectors_loop_bytes:
  assumes "\<And>k. \<exists>j\<ge>k. status j AND 0x08 \<noteq> 0"
  shows "read_sectors_loop status data s k p b m =
    Some (write_bytes m p (concat (map (\<lambda>i. word_bytes (data i)) [k..<k + 256 * b])))"
proof (induction b arbitrary: s k p m)
  case (Suc b)
  obtain s' where "wait_ready status s = Some s'" using assms [of s] wait_ready_returns by blast
  moreover have "[k..<k + 256 * Suc b] = [k..<k + 256] @ [k + 256..<k + 256 + 256 * b]"
    using upt_add_eq_append [of k "k + 256" "256 * b"] by (simp add: ac_simps)
  ultimately show ?case
    using length_concat_word_bytes [of data k 256]
    by (simp add: Suc copy_words_bytes write_bytes_append del: upt_Suc)
qed simp

section \<open>Properties of the driver\<close>

text \<open>
  The commands of \<open>disk_read_sector\<close> select the requested sector of the first drive in LBA
  mode, for every sector number of 28 bits.
\<close>
theorem sector_commands_select:
  assumes "0 \<le> lba" "lba < 2 ^ 28"
  shows "selected (sector_commands lba n) = word_of_int lba
    \<and> (\<exists>d. sector_commands lba n ! 0 = (0x1F6, d) \<and> d AND 0xF0 = 0xE0)"
proof -
  have high: "\<not> bit lba i" if "28 \<le> i" for i
  proof -
    have "take_bit 28 lba = lba" using assms by (simp add: take_bit_int_eq_self)
    then show ?thesis using that by (metis bit_take_bit_iff not_less)
  qed
  have F0i: "bit (0xF0 :: int) i \<longleftrightarrow> 4 \<le> i \<and> i < 8" for i
  proof -
    have "(0xF0 :: int) = push_bit 4 (mask 4)" by (simp add: mask_eq_exp_minus_1)
    then show ?thesis by (simp only: bit_push_bit_iff bit_mask_iff) auto
  qed
  have E0i: "bit (0xE0 :: int) i \<longleftrightarrow> 5 \<le> i \<and> i < 8" for i
  proof -
    have "(0xE0 :: int) = push_bit 5 (mask 3)" by (simp add: mask_eq_exp_minus_1)
    then show ?thesis by (simp only: bit_push_bit_iff bit_mask_iff) auto
  qed
  have FFi: "bit (0xFF :: int) i \<longleftrightarrow> i < 8" for i
  proof -
    have "(0xFF :: int) = mask 8" by (simp add: mask_eq_exp_minus_1)
    then show ?thesis by (simp only: bit_mask_iff) auto
  qed
  have "selected (sector_commands lba n) = word_of_int lba"
  proof (rule bit_word_eqI)
    fix i assume "i < LENGTH(32)"
    have "bit lba i \<Longrightarrow> i < 28" using high [of i] by (auto simp: not_less [symmetric])
    then show "bit (selected (sector_commands lba n)) i = bit (word_of_int lba :: u32) i"
      using \<open>i < LENGTH(32)\<close>
      by (cases "i < 8"; cases "i < 16"; cases "i < 24")
        (auto simp: sector_commands_def bit_simps mask_numerals FFi E0i not_less)
  qed
  moreover have "(word_of_int (drop_bit 24 lba OR 0xE0) :: u8) AND 0xF0 = 0xE0"
    by (rule bit_word_eqI) (use high in \<open>auto simp: bit_simps F0i E0i\<close>)
  ultimately show ?thesis by (simp add: sector_commands_def)
qed

theorem sector_commands_select_witness:
  "selected (sector_commands 0x0123456 1) = 0x0123456"
  using sector_commands_select [of "0x0123456" 1] by simp

text \<open>
  If the drive always becomes ready again, \<open>disk_read_sector\<close> returns, and the words the
  drive delivers lie in order, low byte first, in the buffer: 256 for each sector.
\<close>
theorem disk_read_sector_delivers:
  assumes "\<And>k. \<exists>j\<ge>k. status j AND 0x08 \<noteq> 0"
  shows "snd (disk_read_sector status data lba n buf m) =
    Some (write_bytes m buf (concat (map (\<lambda>i. word_bytes (data i)) [0..<256 * nat n])))"
  using read_sectors_loop_bytes [OF assms] by (simp add: disk_read_sector_def)

text \<open>A drive that is ready at every second read of its status.\<close>
theorem disk_read_sector_delivers_witness:
  "snd (disk_read_sector (\<lambda>k. if even k then 0 else 0x58) of_nat 7 1 0x5000 (\<lambda>_. 0)) =
     Some (write_bytes (\<lambda>_. 0) 0x5000 (concat (map (\<lambda>i. word_bytes (of_nat i)) [0..<256 * nat 1])))"
proof (rule disk_read_sector_delivers)
  fix k :: nat
  show "\<exists>j\<ge>k. (if even j then 0 else 0x58 :: u8) AND 0x08 \<noteq> 0"
    by (rule exI [of _ "Suc (2 * k)"]) simp
qed

section \<open>Streams\<close>

record disk_stream =
  pos :: int
  stream_disk :: addr

text \<open>
  The new stream, if the allocation \<open>alloc\<close> of its structure succeeded. The code does not test
  the result of the allocation: a failed one is written to all the same, at address 0, and null
  is returned.
\<close>

definition diskstreamer_new :: "addr \<Rightarrow> bool \<Rightarrow> int \<Rightarrow> disk_stream option" where
  "diskstreamer_new the_disk alloc d =
     (let disk = disk_get the_disk d in
      if disk = 0 then None
      else if \<not> alloc then None
      else Some \<lparr>pos = 0, stream_disk = disk\<rparr>)"

definition diskstreamer_seek :: "disk_stream \<Rightarrow> int \<Rightarrow> status \<times> disk_stream" where
  "diskstreamer_seek stream p = (ALL_OK, stream\<lparr>pos := p\<rparr>)"

lemma smod_512_less: "(p :: int) smod 512 < 512"
proof -
  have "\<bar>p\<bar> mod 512 < 512" "0 \<le> \<bar>p\<bar> mod 512" by simp_all
  then show ?thesis by (auto simp: signed_modulo_int_def sgn_if)
qed

lemma smod_512_pos: "512 \<le> (p :: int) smod 512 + n \<Longrightarrow> 0 < n"
  using smod_512_less [of p] by linarith

text \<open>The status, the bytes written to \<open>out\<close>, and the stream afterwards.\<close>

function diskstreamer_read ::
    "device \<Rightarrow> addr \<Rightarrow> disk_stream \<Rightarrow> int \<Rightarrow> status \<times> u8 list \<times> disk_stream" where
  "diskstreamer_read dev the_disk stream n =
     (let sector = pos stream sdiv SECTOR_SIZE;
          offset = pos stream smod SECTOR_SIZE;
          total_to_read = n;
          overflow = SECTOR_SIZE \<le> offset + total_to_read;
          total_to_read =
            (if overflow then total_to_read - ((offset + total_to_read) - SECTOR_SIZE) else total_to_read)
      in case disk_read_block dev the_disk (stream_disk stream) (word_of_int sector) 1 of
           Inl e \<Rightarrow> (Inl e, [], stream)
         | Inr buf \<Rightarrow>
             let bytes = map (\<lambda>i. buf ! nat (offset + int i)) [0..<nat total_to_read];
                 stream = stream\<lparr>pos := pos stream + total_to_read\<rparr>
             in if overflow
                then let (res, bytes', stream) =
                           diskstreamer_read dev the_disk stream (n - total_to_read)
                     in (res, bytes @ bytes', stream)
                else (ALL_OK, bytes, stream))"
  by pat_completeness auto

termination
  by (relation "measure (\<lambda>(dev, d, s, n). nat n)") (auto dest: smod_512_pos intro: smod_512_less)

declare diskstreamer_read.simps [simp del]

text \<open>The drive as one sequence of bytes.\<close>

definition disk_byte :: "device \<Rightarrow> int \<Rightarrow> u8" where
  "disk_byte dev n = dev (word_of_int (n div SECTOR_SIZE)) ! nat (n mod SECTOR_SIZE)"

lemma disk_byte_in_sector:
  assumes "0 \<le> i" "p mod 512 + i < 512"
  shows "disk_byte dev (p + i) = dev (word_of_int (p div 512)) ! nat (p mod 512 + i)"
proof -
  have p: "p + i = (p mod 512 + i) + p div 512 * 512" by simp
  have r: "0 \<le> p mod 512 + i" using assms(1) by simp
  have "(p + i) div 512 = p div 512"
    unfolding p div_mult_self1 [of 512, OF zero_neq_numeral [symmetric]] using r assms(2) by simp
  moreover have "(p + i) mod 512 = p mod 512 + i"
    unfolding p mod_mult_self1 using r assms(2) by simp
  ultimately show ?thesis by (simp add: disk_byte_def)
qed

lemma sdiv_nonneg: "0 \<le> (p :: int) \<Longrightarrow> p sdiv 512 = p div 512"
  by (simp add: signed_divide_int_def sgn_if)

lemma smod_nonneg: "0 \<le> (p :: int) \<Longrightarrow> p smod 512 = p mod 512"
  by (simp add: signed_modulo_int_def sgn_if)

lemma map_upt_append:
  "map f [0..<t] @ map (\<lambda>i. f (t + i)) [0..<k] = map f [0..<t + k]"
  by (induction k) simp_all

lemma diskstreamer_read_bytes:
  assumes "0 \<le> pos s" "0 \<le> n" "stream_disk s = d"
  shows "diskstreamer_read dev d s n =
    (ALL_OK, map (\<lambda>i. disk_byte dev (pos s + int i)) [0..<nat n], s\<lparr>pos := pos s + n\<rparr>)"
  using assms
proof (induction "nat n" arbitrary: n s rule: less_induct)
  case less
  let ?o = "pos s mod 512" and ?b = "dev (word_of_int (pos s div 512))"
  have o: "0 \<le> ?o" "?o < 512" by simp_all
  have bytes: "map (\<lambda>i. ?b ! nat (?o + int i)) [0..<k] = map (\<lambda>i. disk_byte dev (pos s + int i)) [0..<k]"
    if "?o + int k \<le> 512" for k
    using that disk_byte_in_sector [of "int _" "pos s" dev] by (auto intro!: map_cong)
  show ?case
  proof (cases "512 \<le> ?o + n")
    case False
    then show ?thesis
      using less.prems bytes [of "nat n"]
      by (subst diskstreamer_read.simps)
        (simp add: disk_read_block_def sdiv_nonneg smod_nonneg Let_def)
  next
    case True
    define t where "t = 512 - ?o"
    have t: "0 < t" "t \<le> n" "?o + t = 512" using True o by (auto simp: t_def)
    let ?s = "s\<lparr>pos := pos s + t\<rparr>"
    have "nat (n - t) < nat n" using t by simp
    then have "diskstreamer_read dev d ?s (n - t) =
        (ALL_OK, map (\<lambda>i. disk_byte dev (pos ?s + int i)) [0..<nat (n - t)], ?s\<lparr>pos := pos ?s + (n - t)\<rparr>)"
      using less.prems t by (intro less.hyps) simp_all
    moreover have "map (\<lambda>i. disk_byte dev (pos s + int i)) [0..<nat t]
        @ map (\<lambda>i. disk_byte dev (pos s + t + int i)) [0..<nat (n - t)]
        = map (\<lambda>i. disk_byte dev (pos s + int i)) [0..<nat n]"
      using map_upt_append [of "\<lambda>i. disk_byte dev (pos s + int i)" "nat t" "nat (n - t)"] t
      by (simp add: nat_add_distrib [symmetric] add.assoc)
    moreover have "512 - ?o = t" by (simp add: t_def)
    moreover have "map (\<lambda>i. ?b ! nat (?o + int i)) [0..<nat t] = map (\<lambda>i. disk_byte dev (pos s + int i)) [0..<nat t]"
      by (rule bytes) (use t in simp)
    note this [simp]
    ultimately show ?thesis
      using less.prems True
      by (subst diskstreamer_read.simps)
        (simp add: disk_read_block_def sdiv_nonneg smod_nonneg Let_def)
  qed
qed

section \<open>The byte stream contract\<close>

text \<open>
  What the filesystem and the loaders rely on: a stream has a position over a sequence of bytes,
  seeking sets it, reading delivers the bytes that follow it and moves it behind them.
\<close>

locale byte_stream =
  fixes seek :: "'s \<Rightarrow> int \<Rightarrow> status \<times> 's"
    and read :: "'s \<Rightarrow> int \<Rightarrow> status \<times> u8 list \<times> 's"
    and position :: "'s \<Rightarrow> int"
    and byte :: "int \<Rightarrow> u8"
    and ok :: "'s \<Rightarrow> bool"
  assumes seek_ok: "ok s \<Longrightarrow> 0 \<le> p \<Longrightarrow> \<exists>s'. seek s p = (ALL_OK, s') \<and> ok s' \<and> position s' = p"
    and read_ok: "ok s \<Longrightarrow> 0 \<le> n \<Longrightarrow> \<exists>s'. read s n =
      (ALL_OK, map (\<lambda>i. byte (position s + int i)) [0..<nat n], s') \<and> ok s' \<and> position s' = position s + n"
begin

text \<open>A read at a position, the pattern of every client.\<close>

lemma read_at:
  assumes "ok s" "0 \<le> p" "0 \<le> n"
  shows "\<exists>s1 s2. seek s p = (ALL_OK, s1) \<and> read s1 n = (ALL_OK, map (\<lambda>i. byte (p + int i)) [0..<nat n], s2)
    \<and> ok s2 \<and> position s2 = p + n"
  using seek_ok [OF assms(1,2)] read_ok [OF _ assms(3)] by metis

text \<open>Two reads in a row deliver what one read of the sum delivers.\<close>

lemma read_split:
  assumes "ok s" "0 \<le> n" "0 \<le> k" "read s n = (r, xs, s1)" "read s1 k = (r', ys, s2)"
  shows "\<exists>s3. read s (n + k) = (ALL_OK, xs @ ys, s3) \<and> position s3 = position s2"
proof -
  have 1: "xs = map (\<lambda>i. byte (position s + int i)) [0..<nat n]" "ok s1" "position s1 = position s + n"
    using read_ok [OF assms(1,2)] assms(4) by auto
  have 2: "ys = map (\<lambda>i. byte (position s1 + int i)) [0..<nat k]" "position s2 = position s1 + k"
    using read_ok [OF 1(2) assms(3)] assms(5) by auto
  have "xs @ ys = map (\<lambda>i. byte (position s + int i)) [0..<nat (n + k)]"
    using map_upt_append [of "\<lambda>i. byte (position s + int i)" "nat n" "nat k"] assms(2,3)
    by (simp add: 1 2 nat_add_distrib add.assoc)
  then show ?thesis using read_ok [OF assms(1), of "n + k"] assms(2,3) 1 2 by auto
qed

end

interpretation disk_bytes: byte_stream diskstreamer_seek "diskstreamer_read dev d" pos
    "disk_byte dev" "\<lambda>s. 0 \<le> pos s \<and> stream_disk s = d" for dev d
  by unfold_locales (auto simp: diskstreamer_seek_def diskstreamer_read_bytes)

section \<open>Properties of streams\<close>



end
