(* ===== verification/Fat16.thy ===== *)
theory Fat16
  imports Disk Strings
begin

unbundle bit_operations_syntax

text \<open>
  The FAT16 driver of \<^verbatim>\<open>src/fs/fat/fat16.c\<close>. The drive is the parameter \<open>dev\<close>, \<open>d\<close> the
  address of the only disk. Structures of the heap are values: \<open>alloc n\<close> says whether
  \<open>kzalloc(n)\<close> finds room, and a null pointer that the code tests for is \<open>None\<close>. The structures
  read from the disk are kept as the bytes they are, with one reader for each field.

  A result of \<open>None\<close> of an operation means that the code does not come back with a value: it
  follows a null pointer that it does not test, divides by zero, or loops for ever.
\<close>

section \<open>Structures on the disk\<close>

text \<open>The header (\<open>struct fat_h\<close>) of 62 bytes.\<close>

type_synonym fat_h = "u8 list"

definition sectors_per_cluster :: "fat_h \<Rightarrow> u8" where "sectors_per_cluster h = h ! 13"
definition reserved_sectors :: "fat_h \<Rightarrow> u16" where "reserved_sectors h = le16 h 14"
definition fat_copies :: "fat_h \<Rightarrow> u8" where "fat_copies h = h ! 16"
definition root_dir_entries :: "fat_h \<Rightarrow> u16" where "root_dir_entries h = le16 h 17"
definition sectors_per_fat :: "fat_h \<Rightarrow> u16" where "sectors_per_fat h = le16 h 22"
definition signature :: "fat_h \<Rightarrow> u8" where "signature h = h ! 38"

text \<open>
  A directory entry (\<open>struct fat_directory_item\<close>) of 32 bytes. The value starts at the entry and
  may go on with the entries that follow it in memory.
\<close>

type_synonym fat_directory_item = "u8 list"

definition attribute :: "fat_directory_item \<Rightarrow> u8" where "attribute item = item ! 11"
definition high_16_bits_first_cluster :: "fat_directory_item \<Rightarrow> u16" where
  "high_16_bits_first_cluster item = le16 item 20"
definition low_16_bits_first_cluster :: "fat_directory_item \<Rightarrow> u16" where
  "low_16_bits_first_cluster item = le16 item 26"
definition filesize :: "fat_directory_item \<Rightarrow> u32" where "filesize item = le32 item 28"

section \<open>Structures in memory\<close>

record fat_directory =
  dir_bytes :: "u8 list"
  dir_total :: int
  sector_pos :: int
  ending_sector_pos :: int

definition dir_item :: "fat_directory \<Rightarrow> nat \<Rightarrow> fat_directory_item" where
  "dir_item directory i = drop (32 * i) (dir_bytes directory)"

text \<open>The union of \<open>struct fat_item\<close>, with a null pointer for a failed allocation.\<close>

datatype fat_content = Item "fat_directory_item option" | Directory "fat_directory option"

abbreviation (input) FAT_ITEM_TYPE_DIRECTORY :: u32 where "FAT_ITEM_TYPE_DIRECTORY \<equiv> 0"
abbreviation (input) FAT_ITEM_TYPE_FILE :: u32 where "FAT_ITEM_TYPE_FILE \<equiv> 1"

record fat_item =
  content :: fat_content
  item_type :: u32

record fat_file_descriptor =
  desc_item :: fat_item
  desc_pos :: u32

record fat_private =
  header :: fat_h
  root_directory :: fat_directory
  cluster_read_stream :: "disk_stream option"
  fat_read_stream :: "disk_stream option"
  directory_stream :: "disk_stream option"

definition fat16_init_private :: "addr \<Rightarrow> (u32 \<Rightarrow> bool) \<Rightarrow> disk \<Rightarrow> fat_private" where
  "fat16_init_private d alloc disk =
     \<lparr>header = replicate 62 0,
      root_directory = \<lparr>dir_bytes = [], dir_total = 0, sector_pos = 0, ending_sector_pos = 0\<rparr>,
      cluster_read_stream = diskstreamer_new d (alloc 8) (disk_id disk),
      fat_read_stream = diskstreamer_new d (alloc 8) (disk_id disk),
      directory_stream = diskstreamer_new d (alloc 8) (disk_id disk)\<rparr>"

definition fat16_sector_to_absolute :: "disk \<Rightarrow> int \<Rightarrow> int" where
  "fat16_sector_to_absolute disk sector = sector * sector_size disk"

section \<open>Directories\<close>

text \<open>The count of the entries in use, or a negative error; the loop ends at a zero entry only.\<close>

partial_function (option) total_items_loop ::
    "device \<Rightarrow> addr \<Rightarrow> disk_stream \<Rightarrow> int \<Rightarrow> (int \<times> disk_stream) option" where
  "total_items_loop dev d stream i =
     (case diskstreamer_read dev d stream 32 of
        (Inl _, _, stream) \<Rightarrow> Some (- errno EIO, stream)
      | (Inr _, item, stream) \<Rightarrow>
          if item ! 0 = 0x00 then Some (i, stream)
          else if item ! 0 = 0xE5 then total_items_loop dev d stream i
          else total_items_loop dev d stream (i + 1))"

definition fat16_get_total_items_for_directory ::
    "device \<Rightarrow> addr \<Rightarrow> disk \<Rightarrow> fat_private \<Rightarrow> u32 \<Rightarrow> (int \<times> fat_private) option" where
  "fat16_get_total_items_for_directory dev d disk fat_private directory_start_sector =
     (let directory_start_pos = sint (directory_start_sector * word_of_int (sector_size disk)) in
      case directory_stream fat_private of
        None \<Rightarrow> None
      | Some stream \<Rightarrow>
          (case diskstreamer_seek stream directory_start_pos of
             (Inl _, stream) \<Rightarrow> Some (- errno EIO, fat_private\<lparr>directory_stream := Some stream\<rparr>)
           | (Inr _, stream) \<Rightarrow>
               map_option (\<lambda>(res, stream). (res, fat_private\<lparr>directory_stream := Some stream\<rparr>))
                 (total_items_loop dev d stream 0)))"

definition fat16_get_root_directory ::
    "device \<Rightarrow> addr \<Rightarrow> (u32 \<Rightarrow> bool) \<Rightarrow> disk \<Rightarrow> fat_private \<Rightarrow> (status \<times> fat_private) option" where
  "fat16_get_root_directory dev d alloc disk fat_private =
     (let hdr = header fat_private;
          root_dir_sector_pos =
            uint (fat_copies hdr) * uint (sectors_per_fat hdr) + uint (reserved_sectors hdr);
          root_dir_size = uint (root_dir_entries hdr) * 32
      in if sector_size disk = 0 then None
         else case fat16_get_total_items_for_directory dev d disk fat_private
             (word_of_int root_dir_sector_pos) of
           None \<Rightarrow> None
         | Some (total_items, fat_private) \<Rightarrow>
             if \<not> alloc (word_of_int root_dir_size) then Some (Inl ENOMEM, fat_private)
             else case directory_stream fat_private of
               None \<Rightarrow> None
             | Some stream \<Rightarrow>
                 (case diskstreamer_seek stream (fat16_sector_to_absolute disk root_dir_sector_pos) of
                    (Inl _, stream) \<Rightarrow> Some (Inl EIO, fat_private\<lparr>directory_stream := Some stream\<rparr>)
                  | (Inr _, stream) \<Rightarrow>
                      (case diskstreamer_read dev d stream root_dir_size of
                         (Inl _, _, stream) \<Rightarrow> Some (Inl EIO, fat_private\<lparr>directory_stream := Some stream\<rparr>)
                       | (Inr _, dir, stream) \<Rightarrow>
                           Some (ALL_OK, fat_private\<lparr>directory_stream := Some stream,
                             root_directory := \<lparr>dir_bytes = dir, dir_total = total_items,
                               sector_pos = root_dir_sector_pos,
                               ending_sector_pos =
                                 root_dir_sector_pos + root_dir_size sdiv sector_size disk\<rparr>\<rparr>))))"

text \<open>
  The filesystem found on a disk: its private data, when the header has the signature. A failed
  allocation of the private data is not tested: the structure is then written at address 0.
\<close>

definition fat16_resolve ::
    "device \<Rightarrow> addr \<Rightarrow> (u32 \<Rightarrow> bool) \<Rightarrow> disk \<Rightarrow> (error + fat_private) option" where
  "fat16_resolve dev d alloc disk =
     (let fat_private = fat16_init_private d alloc disk in
      case diskstreamer_new d (alloc 8) (disk_id disk) of
        None \<Rightarrow> Some (Inl ENOMEM)
      | Some stream \<Rightarrow>
          (case diskstreamer_read dev d stream 62 of
             (Inl _, _, _) \<Rightarrow> Some (Inl EIO)
           | (Inr _, hdr, _) \<Rightarrow>
               let fat_private = fat_private\<lparr>header := hdr\<rparr> in
               if signature hdr \<noteq> 0x29 then Some (Inl EFSNOTUS)
               else case fat16_get_root_directory dev d alloc disk fat_private of
                 None \<Rightarrow> None
               | Some (Inl _, _) \<Rightarrow> Some (Inl EIO)
               | Some (Inr _, fat_private) \<Rightarrow> Some (Inr fat_private)))"

section \<open>Names\<close>

text \<open>
  The characters copied from \<open>inp\<close> on, up to a zero or a blank. The 8 bytes of a name are not
  terminated: the copy goes on into the bytes that follow them.
\<close>

fun fat16_to_proper_string :: "u8 list \<Rightarrow> u8 list" where
  "fat16_to_proper_string [] = []"
| "fat16_to_proper_string (c # inp) =
     (if c \<noteq> 0x00 \<and> c \<noteq> 0x20 then c # fat16_to_proper_string inp else [])"

definition fat16_get_full_relative_filename :: "fat_directory_item \<Rightarrow> u8 list" where
  "fat16_get_full_relative_filename item =
     (let out = fat16_to_proper_string item in
      if item ! 8 \<noteq> 0x00 \<and> item ! 8 \<noteq> 0x20
      then out @ [0x2E] @ fat16_to_proper_string (drop 8 item) else out)"

text \<open>A memory with the two strings that are compared, for \<open>istrncmp\<close> of \<^verbatim>\<open>string.c\<close>.\<close>

definition two_strings :: "u8 list \<Rightarrow> u8 list \<Rightarrow> mem" where
  "two_strings xs ys = write_bytes (write_bytes (\<lambda>_. 0) 0x1000 xs) 0x8000 ys"

definition names_equal :: "u8 list \<Rightarrow> u8 list \<Rightarrow> bool" where
  "names_equal tmp_filename name \<longleftrightarrow> istrncmp (two_strings tmp_filename name) 0x1000 0x8000 MAX_PATH = 0"

definition fat16_clone_directory_item ::
    "(u32 \<Rightarrow> bool) \<Rightarrow> fat_directory_item \<Rightarrow> int \<Rightarrow> fat_directory_item option" where
  "fat16_clone_directory_item alloc item n =
     (if n < 32 then None
      else if \<not> alloc (word_of_int n) then None
      else Some (take (nat n) item))"

section \<open>Clusters\<close>

definition fat16_get_first_cluster :: "fat_directory_item \<Rightarrow> u32" where
  "fat16_get_first_cluster item =
     ucast (high_16_bits_first_cluster item) OR ucast (low_16_bits_first_cluster item)"

definition fat16_cluster_to_sector :: "fat_private \<Rightarrow> int \<Rightarrow> int" where
  "fat16_cluster_to_sector private cluster =
     ending_sector_pos (root_directory private)
       + (cluster - 2) * uint (sectors_per_cluster (header private))"

definition fat16_get_first_fat_sector :: "fat_private \<Rightarrow> u32" where
  "fat16_get_first_fat_sector private = ucast (reserved_sectors (header private))"

definition fat16_get_fat_entry ::
    "device \<Rightarrow> addr \<Rightarrow> disk \<Rightarrow> fat_private \<Rightarrow> int \<Rightarrow> int \<times> fat_private" where
  "fat16_get_fat_entry dev d disk private cluster =
     (case fat_read_stream private of
        None \<Rightarrow> (- 1, private)
      | Some stream \<Rightarrow>
          let fat_table_position =
                fat16_get_first_fat_sector private * word_of_int (sector_size disk)
          in case diskstreamer_seek stream (sint (fat_table_position * word_of_int (cluster * 2))) of
               (Inl e, stream) \<Rightarrow> (- errno e, private\<lparr>fat_read_stream := Some stream\<rparr>)
             | (Inr _, stream) \<Rightarrow>
                 (case diskstreamer_read dev d stream 2 of
                    (Inl e, _, stream) \<Rightarrow> (- errno e, private\<lparr>fat_read_stream := Some stream\<rparr>)
                  | (Inr _, result, stream) \<Rightarrow>
                      (uint (le16 result 0), private\<lparr>fat_read_stream := Some stream\<rparr>)))"

text \<open>The walk along the chain: \<open>n\<close> clusters still lie ahead.\<close>

fun cluster_loop ::
    "device \<Rightarrow> addr \<Rightarrow> disk \<Rightarrow> fat_private \<Rightarrow> int \<Rightarrow> nat \<Rightarrow> int \<times> fat_private" where
  "cluster_loop dev d disk private cluster_to_use 0 = (cluster_to_use, private)"
| "cluster_loop dev d disk private cluster_to_use (Suc n) =
     (let (entry, private) = fat16_get_fat_entry dev d disk private cluster_to_use in
      if entry = 0xFF8 \<or> entry = 0xFFF then (- errno EIO, private)
      else if entry = 0xFF7 then (- errno EIO, private)
      else if entry = 0xFF0 \<or> entry = 0xFF6 then (- errno EIO, private)
      else if entry = 0x00 then (- errno EIO, private)
      else cluster_loop dev d disk private entry n)"

definition size_of_cluster_bytes :: "disk \<Rightarrow> fat_private \<Rightarrow> int" where
  "size_of_cluster_bytes disk private =
     uint (sectors_per_cluster (header private)) * sector_size disk"

definition fat16_get_cluster_for_offset ::
    "device \<Rightarrow> addr \<Rightarrow> disk \<Rightarrow> fat_private \<Rightarrow> int \<Rightarrow> int \<Rightarrow> (int \<times> fat_private) option" where
  "fat16_get_cluster_for_offset dev d disk private starting_cluster offset =
     (if size_of_cluster_bytes disk private = 0 then None
      else let clusters_ahead = offset sdiv size_of_cluster_bytes disk private
           in Some (cluster_loop dev d disk private starting_cluster (nat clusters_ahead)))"

text \<open>The error as a negative number, the bytes written to \<open>out\<close>, and the private data.\<close>

partial_function (option) fat16_read_internal_from_stream ::
    "device \<Rightarrow> addr \<Rightarrow> disk \<Rightarrow> disk_stream \<Rightarrow> fat_private \<Rightarrow> int \<Rightarrow> int \<Rightarrow> int
      \<Rightarrow> (int \<times> u8 list \<times> disk_stream \<times> fat_private) option" where
  "fat16_read_internal_from_stream dev d disk stream private cluster offset n =
     (case fat16_get_cluster_for_offset dev d disk private cluster offset of
        None \<Rightarrow> None
      | Some (cluster_to_use, private) \<Rightarrow>
          if cluster_to_use < 0 then Some (cluster_to_use, [], stream, private)
          else
            let offset_from_cluster = offset smod size_of_cluster_bytes disk private;
                starting_sector = fat16_cluster_to_sector private cluster_to_use;
                starting_pos = starting_sector * sector_size disk + offset_from_cluster;
                total_to_read =
                  (if size_of_cluster_bytes disk private < n then size_of_cluster_bytes disk private else n)
            in case diskstreamer_seek stream starting_pos of
                 (Inl e, stream) \<Rightarrow> Some (- errno e, [], stream, private)
               | (Inr _, stream) \<Rightarrow>
                   (case diskstreamer_read dev d stream total_to_read of
                      (Inl e, bytes, stream) \<Rightarrow> Some (- errno e, bytes, stream, private)
                    | (Inr _, bytes, stream) \<Rightarrow>
                        if 0 < n - total_to_read
                        then Option.bind
                          (fat16_read_internal_from_stream dev d disk stream private cluster
                            (offset + total_to_read) (n - total_to_read))
                          (\<lambda>(res, bytes', stream, private). Some (res, bytes @ bytes', stream, private))
                        else Some (0, bytes, stream, private)))"

definition fat16_read_internal ::
    "device \<Rightarrow> addr \<Rightarrow> disk \<Rightarrow> fat_private \<Rightarrow> int \<Rightarrow> int \<Rightarrow> int \<Rightarrow> (int \<times> u8 list \<times> fat_private) option" where
  "fat16_read_internal dev d disk private starting_cluster offset n =
     (case cluster_read_stream private of
        None \<Rightarrow> None
      | Some stream \<Rightarrow>
          map_option (\<lambda>(res, bytes, stream, private).
              (res, bytes, private\<lparr>cluster_read_stream := Some stream\<rparr>))
            (fat16_read_internal_from_stream dev d disk stream private starting_cluster offset n))"

section \<open>Items\<close>

text \<open>
  The directory of an entry. When the read fails the directory is released and its address
  returned all the same; no caller looks at it.
\<close>

definition fat16_load_fat_directory ::
    "device \<Rightarrow> addr \<Rightarrow> (u32 \<Rightarrow> bool) \<Rightarrow> disk \<Rightarrow> fat_private \<Rightarrow> fat_directory_item
      \<Rightarrow> (fat_directory option \<times> fat_private) option" where
  "fat16_load_fat_directory dev d alloc disk fat_private item =
     (if attribute item AND 0x10 = 0 then Some (None, fat_private)
      else if \<not> alloc 16 then Some (None, fat_private)
      else
        let cluster = sint (fat16_get_first_cluster item);
            cluster_sector = fat16_cluster_to_sector fat_private cluster
        in case fat16_get_total_items_for_directory dev d disk fat_private (word_of_int cluster_sector) of
             None \<Rightarrow> None
           | Some (total_items, fat_private) \<Rightarrow>
               let directory = \<lparr>dir_bytes = [], dir_total = total_items, sector_pos = 0, ending_sector_pos = 0\<rparr>;
                   directory_size = total_items * 32
               in if \<not> alloc (word_of_int directory_size) then Some (Some directory, fat_private)
                  else map_option (\<lambda>(res, bytes, fat_private).
                      (Some (directory\<lparr>dir_bytes := bytes\<rparr>), fat_private))
                    (fat16_read_internal dev d disk fat_private cluster 0 directory_size))"

definition fat16_new_fat_item_for_directory_item ::
    "device \<Rightarrow> addr \<Rightarrow> (u32 \<Rightarrow> bool) \<Rightarrow> disk \<Rightarrow> fat_private \<Rightarrow> fat_directory_item
      \<Rightarrow> (fat_item option \<times> fat_private) option" where
  "fat16_new_fat_item_for_directory_item dev d alloc disk private item =
     (if \<not> alloc 8 then Some (None, private)
      else
        let f_item = \<lparr>content = Item None, item_type = 0\<rparr> in
        case (if attribute item AND 0x10 \<noteq> 0
              then map_option (\<lambda>(dir, private).
                  (f_item\<lparr>content := Directory dir, item_type := FAT_ITEM_TYPE_DIRECTORY\<rparr>, private))
                (fat16_load_fat_directory dev d alloc disk private item)
              else Some (f_item, private)) of
          None \<Rightarrow> None
        | Some (f_item, private) \<Rightarrow>
            let f_item = f_item\<lparr>item_type := FAT_ITEM_TYPE_FILE\<rparr>;
                f_item = f_item\<lparr>content := Item (fat16_clone_directory_item alloc item 32)\<rparr>
            in Some (Some f_item, private))"

text \<open>The search goes on after a match: the last one is the result.\<close>

fun find_item_loop ::
    "device \<Rightarrow> addr \<Rightarrow> (u32 \<Rightarrow> bool) \<Rightarrow> disk \<Rightarrow> fat_directory \<Rightarrow> u8 list \<Rightarrow> nat
      \<Rightarrow> fat_private \<Rightarrow> (fat_item option \<times> fat_private) option" where
  "find_item_loop dev d alloc disk directory name 0 private = Some (None, private)"
| "find_item_loop dev d alloc disk directory name (Suc i) private =
     (case find_item_loop dev d alloc disk directory name i private of
        None \<Rightarrow> None
      | Some (f_item, private) \<Rightarrow>
          let tmp_filename = fat16_get_full_relative_filename (dir_item directory i) in
          if names_equal tmp_filename name
          then fat16_new_fat_item_for_directory_item dev d alloc disk private (dir_item directory i)
          else Some (f_item, private))"

definition fat16_find_item_in_directory ::
    "device \<Rightarrow> addr \<Rightarrow> (u32 \<Rightarrow> bool) \<Rightarrow> disk \<Rightarrow> fat_private \<Rightarrow> fat_directory \<Rightarrow> u8 list
      \<Rightarrow> (fat_item option \<times> fat_private) option" where
  "fat16_find_item_in_directory dev d alloc disk private directory name =
     find_item_loop dev d alloc disk directory name (nat (dir_total directory)) private"

text \<open>The entry of a path, given the names of its parts.\<close>

fun next_parts_loop ::
    "device \<Rightarrow> addr \<Rightarrow> (u32 \<Rightarrow> bool) \<Rightarrow> disk \<Rightarrow> fat_item option \<Rightarrow> u8 list list
      \<Rightarrow> fat_private \<Rightarrow> (fat_item option \<times> fat_private) option" where
  "next_parts_loop dev d alloc disk current_item [] private = Some (current_item, private)"
| "next_parts_loop dev d alloc disk current_item (part # parts) private =
     (case current_item of
        None \<Rightarrow> None
      | Some item \<Rightarrow>
          if item_type item \<noteq> FAT_ITEM_TYPE_DIRECTORY then Some (None, private)
          else case content item of
            Directory (Some directory) \<Rightarrow>
              (case fat16_find_item_in_directory dev d alloc disk private directory part of
                 None \<Rightarrow> None
               | Some (tmp_item, private) \<Rightarrow>
                   next_parts_loop dev d alloc disk tmp_item parts private)
          | _ \<Rightarrow> None)"

definition fat16_get_directory_entry ::
    "device \<Rightarrow> addr \<Rightarrow> (u32 \<Rightarrow> bool) \<Rightarrow> disk \<Rightarrow> fat_private \<Rightarrow> u8 list list
      \<Rightarrow> (fat_item option \<times> fat_private) option" where
  "fat16_get_directory_entry dev d alloc disk private path =
     (case path of
        [] \<Rightarrow> None
      | part # next_parts \<Rightarrow>
          (case fat16_find_item_in_directory dev d alloc disk private (root_directory private) part of
             None \<Rightarrow> None
           | Some (None, private) \<Rightarrow> Some (None, private)
           | Some (Some root_item, private) \<Rightarrow>
               next_parts_loop dev d alloc disk (Some root_item) next_parts private))"

section \<open>Files\<close>

abbreviation (input) FILE_MODE_READ :: u32 where "FILE_MODE_READ \<equiv> 0"
abbreviation (input) FILE_MODE_WRITE :: u32 where "FILE_MODE_WRITE \<equiv> 1"
abbreviation (input) FILE_MODE_APPEND :: u32 where "FILE_MODE_APPEND \<equiv> 2"
abbreviation (input) FILE_MODE_INVALID :: u32 where "FILE_MODE_INVALID \<equiv> 3"
abbreviation (input) SEEK_SET :: u32 where "SEEK_SET \<equiv> 0"
abbreviation (input) SEEK_CUR :: u32 where "SEEK_CUR \<equiv> 1"
abbreviation (input) SEEK_END :: u32 where "SEEK_END \<equiv> 2"

record file_stat =
  stat_flags :: u32
  stat_filesize :: u32

definition fat16_open ::
    "device \<Rightarrow> addr \<Rightarrow> (u32 \<Rightarrow> bool) \<Rightarrow> disk \<Rightarrow> fat_private \<Rightarrow> u8 list list \<Rightarrow> u32
      \<Rightarrow> ((error + fat_file_descriptor) \<times> fat_private) option" where
  "fat16_open dev d alloc disk private path mode =
     (if mode \<noteq> FILE_MODE_READ then Some (Inl ERDONLY, private)
      else if \<not> alloc 8 then Some (Inl ENOMEM, private)
      else case fat16_get_directory_entry dev d alloc disk private path of
        None \<Rightarrow> None
      | Some (None, private) \<Rightarrow> Some (Inl EIO, private)
      | Some (Some item, private) \<Rightarrow> Some (Inr \<lparr>desc_item = item, desc_pos = 0\<rparr>, private))"

definition fat16_stat :: "fat_file_descriptor \<Rightarrow> file_stat \<Rightarrow> (status \<times> file_stat) option" where
  "fat16_stat descriptor stat =
     (if item_type (desc_item descriptor) \<noteq> FAT_ITEM_TYPE_FILE then Some (Inl EINVARG, stat)
      else case content (desc_item descriptor) of
        Item (Some ritem) \<Rightarrow>
          let stat = stat\<lparr>stat_filesize := filesize ritem\<rparr>;
              stat = stat\<lparr>stat_flags := 0\<rparr>;
              stat = (if attribute ritem AND 0x01 \<noteq> 0
                      then stat\<lparr>stat_flags := stat_flags stat OR 1\<rparr> else stat)
          in Some (ALL_OK, stat)
      | _ \<Rightarrow> None)"

text \<open>\<open>i\<close> blocks are left to read; the result is a negative error or \<open>nmemb\<close>.\<close>

fun fat16_read_loop ::
    "device \<Rightarrow> addr \<Rightarrow> disk \<Rightarrow> fat_private \<Rightarrow> fat_directory_item \<Rightarrow> int \<Rightarrow> u32 \<Rightarrow> nat
      \<Rightarrow> (int \<times> u8 list \<times> fat_private) option" where
  "fat16_read_loop dev d disk private item offset n 0 = Some (0, [], private)"
| "fat16_read_loop dev d disk private item offset n (Suc i) =
     (case fat16_read_internal dev d disk private (sint (fat16_get_first_cluster item)) offset (sint n) of
        None \<Rightarrow> None
      | Some (res, bytes, private) \<Rightarrow>
          if res < 0 then Some (res, bytes, private)
          else map_option (\<lambda>(res, bytes', private). (res, bytes @ bytes', private))
            (fat16_read_loop dev d disk private item (sint (word_of_int offset + n)) n i))"

definition fat16_read ::
    "device \<Rightarrow> addr \<Rightarrow> disk \<Rightarrow> fat_private \<Rightarrow> fat_file_descriptor \<Rightarrow> u32 \<Rightarrow> u32
      \<Rightarrow> (int \<times> u8 list \<times> fat_private) option" where
  "fat16_read dev d disk private fat_desc n nmemb =
     (case content (desc_item fat_desc) of
        Item (Some item) \<Rightarrow>
          (case fat16_read_loop dev d disk private item (sint (desc_pos fat_desc)) n (unat nmemb) of
             None \<Rightarrow> None
           | Some (res, bytes, private) \<Rightarrow>
               if res < 0 then Some (res, bytes, private) else Some (sint nmemb, bytes, private))
      | _ \<Rightarrow> None)"

definition fat16_seek :: "fat_file_descriptor \<Rightarrow> u32 \<Rightarrow> u32 \<Rightarrow> (status \<times> fat_file_descriptor) option" where
  "fat16_seek desc offset seek_mode =
     (if item_type (desc_item desc) \<noteq> FAT_ITEM_TYPE_FILE then Some (Inl EINVARG, desc)
      else case content (desc_item desc) of
        Item (Some ritem) \<Rightarrow>
          if filesize ritem \<le> offset then Some (Inl EIO, desc)
          else if seek_mode = SEEK_SET then Some (ALL_OK, desc\<lparr>desc_pos := offset\<rparr>)
          else if seek_mode = SEEK_END then Some (Inl EUNIMP, desc)
          else if seek_mode = SEEK_CUR then Some (ALL_OK, desc\<lparr>desc_pos := desc_pos desc + offset\<rparr>)
          else Some (Inl EINVARG, desc)
      | _ \<Rightarrow> None)"

section \<open>Lemmas\<close>

lemma new_fat_item_is_file:
  "fat16_new_fat_item_for_directory_item dev d alloc disk p item = Some (Some it, p') \<Longrightarrow>
   item_type it = FAT_ITEM_TYPE_FILE"
  by (auto simp: fat16_new_fat_item_for_directory_item_def Let_def split: if_splits option.splits)

lemma find_item_is_file:
  "find_item_loop dev d alloc disk dir name n p = Some (Some it, p') \<Longrightarrow> item_type it = FAT_ITEM_TYPE_FILE"
  by (induction n arbitrary: it p')
    (auto simp: Let_def new_fat_item_is_file split: if_splits option.splits prod.splits)

lemma next_parts_file:
  "item_type it = FAT_ITEM_TYPE_FILE \<Longrightarrow>
   next_parts_loop dev d alloc disk (Some it) (part # parts) p = Some (None, p)"
  by simp

text \<open>The search, when every allocation succeeds and the directory holds files only.\<close>

lemma find_item_loop_last:
  assumes "\<And>n. alloc n" "\<And>i. i < n \<Longrightarrow> attribute (dir_item dir i) AND 0x10 = 0"
  shows "find_item_loop dev d alloc disk dir name n p =
    (let ms = filter (\<lambda>i. names_equal (fat16_get_full_relative_filename (dir_item dir i)) name) [0..<n]
     in Some (if ms = [] then None
       else Some \<lparr>content = Item (Some (take 32 (dir_item dir (last ms)))), item_type = FAT_ITEM_TYPE_FILE\<rparr>, p))"
  using assms(2)
  by (induction n)
    (simp_all add: Let_def assms(1) fat16_new_fat_item_for_directory_item_def fat16_clone_directory_item_def)

text \<open>The comparison of names, for strings that fit the buffers.\<close>

lemma two_strings_c_string:
  assumes "0 \<notin> set xs" "0 \<notin> set ys" "length xs < 0x1000" "length ys < 0x1000"
  shows "c_string (two_strings xs ys) 0x1000 xs" "c_string (two_strings xs ys) 0x8000 ys"
proof -
  have off: "unat (0x1000 + of_nat i - 0x8000 :: u32) \<ge> 0x1000" if "i < 0x1001" for i
  proof -
    define a where "a = (0x1000 + of_nat i :: u32)"
    have "unat a = 0x1000 + i" using that by (simp add: a_def unat_word_ariths unat_of_nat)
    then have "0x1000 \<le> unat (a - 0x8000)"
      using that unat_sub_if_size [of a "0x8000"] by (simp add: word_size)
    then show ?thesis by (simp add: a_def)
  qed
  have "two_strings xs ys (0x1000 + of_nat i) = write_bytes (\<lambda>_. 0) 0x1000 xs (0x1000 + of_nat i)"
    if "i < 0x1001" for i
    unfolding two_strings_def using off [OF that] assms(4) by (intro write_bytes_outside) linarith
  then show "c_string (two_strings xs ys) 0x1000 xs"
    using assms(1,3) by (simp add: c_string_iff_nth write_bytes_inside write_bytes_outside unat_of_nat)
  have end_off: "unat (0x8000 + of_nat (length ys) - 0x1000 :: u32) = 0x7000 + length ys"
    using assms(4) by (simp add: unat_word_ariths unat_sub_if_size word_size unat_of_nat)
  then have "two_strings xs ys (0x8000 + of_nat (length ys)) = 0"
    unfolding two_strings_def using assms(3,4) by (simp add: write_bytes_outside unat_of_nat)
  then show "c_string (two_strings xs ys) 0x8000 ys"
    using assms(2,4) by (simp add: c_string_iff_nth two_strings_def write_bytes_inside)
qed

lemma names_equal_iff:
  assumes "0 \<notin> set xs" "0 \<notin> set ys" "length xs < 108" "length ys < 108"
  shows "names_equal xs ys \<longleftrightarrow> map tolower xs = map tolower ys"
  using assms istrncmp_loop_0_iff [OF two_strings_c_string, of xs ys 108]
  by (simp add: names_equal_def istrncmp_def)

lemma to_proper_string_stops:
  "0x00 \<notin> set xs \<Longrightarrow> 0x20 \<notin> set xs \<Longrightarrow> c = 0x00 \<or> c = 0x20 \<Longrightarrow>
   fat16_to_proper_string (xs @ c # ys) = xs"
  by (induction xs) auto

lemma sdiv_smod_small: "0 \<le> (a :: int) \<Longrightarrow> a < b \<Longrightarrow> a sdiv b = 0 \<and> a smod b = a"
  by (simp add: signed_divide_int_def signed_modulo_int_def sgn_if)

definition stream_ready :: "addr \<Rightarrow> disk_stream option \<Rightarrow> bool" where
  "stream_ready d so = (case so of None \<Rightarrow> False | Some s \<Rightarrow> 0 \<le> pos s \<and> stream_disk s = d)"

definition cluster_position :: "disk \<Rightarrow> fat_private \<Rightarrow> int \<Rightarrow> int" where
  "cluster_position disk private cluster = fat16_cluster_to_sector private cluster * sector_size disk"

lemma read_internal_one_cluster:
  assumes "stream_ready d (cluster_read_stream p)" "0 \<le> cluster" "0 \<le> n"
    and "0 \<le> offset" "offset < size_of_cluster_bytes disk p" "n \<le> size_of_cluster_bytes disk p"
    and "0 \<le> cluster_position disk p cluster"
  shows "\<exists>s'. stream_ready d (Some s') \<and> fat16_read_internal dev d disk p cluster offset n =
    Some (0, map (\<lambda>i. disk_byte dev (cluster_position disk p cluster + offset + int i)) [0..<nat n],
      p\<lparr>cluster_read_stream := Some s'\<rparr>)"
proof -
  obtain s where s: "cluster_read_stream p = Some s" "0 \<le> pos s" "stream_disk s = d"
    using assms(1) by (auto simp: stream_ready_def split: option.splits)
  let ?q = "cluster_position disk p cluster + offset"
  have "fat16_get_cluster_for_offset dev d disk p cluster offset = Some (cluster, p)"
    using assms(4,5) sdiv_smod_small [OF assms(4,5)] by (simp add: fat16_get_cluster_for_offset_def)
  moreover obtain s1 s2 where "diskstreamer_seek s ?q = (ALL_OK, s1)"
      "diskstreamer_read dev d s1 n = (ALL_OK, map (\<lambda>i. disk_byte dev (?q + int i)) [0..<nat n], s2)"
      "0 \<le> pos s2 \<and> stream_disk s2 = d"
    using disk_bytes.read_at [of s d ?q n dev] s assms(3,4,7) by auto
  ultimately show ?thesis
    using s assms(2,6) sdiv_smod_small [OF assms(4,5)]
    by (intro exI [of _ s2]) (simp add: fat16_read_internal_def fat16_read_internal_from_stream.simps
        stream_ready_def cluster_position_def Let_def)
qed

lemma read_one_cluster:
  assumes "stream_ready d (cluster_read_stream p)" "0 \<le> cluster_position disk p (sint (fat16_get_first_cluster item))"
    and "0 \<le> sint (fat16_get_first_cluster item)" "0 \<le> sint n" "0 \<le> sint (desc_pos desc)"
    and "sint (desc_pos desc) < size_of_cluster_bytes disk p" "sint n \<le> size_of_cluster_bytes disk p"
    and "content (desc_item desc) = Item (Some item)"
  shows "\<exists>s'. stream_ready d (Some s') \<and> fat16_read dev d disk p desc n 1 =
    Some (1, map (\<lambda>i. disk_byte dev (cluster_position disk p (sint (fat16_get_first_cluster item))
      + sint (desc_pos desc) + int i)) [0..<nat (sint n)], p\<lparr>cluster_read_stream := Some s'\<rparr>)"
  using read_internal_one_cluster [OF assms(1,3,4,5,6,7,2), of dev] assms(8) by (auto simp: fat16_read_def)

section \<open>Properties\<close>

text \<open>
  Only files of the root directory are ever opened: a path of two or more parts never
  yields a descriptor, because \<open>fat16_new_fat_item_for_directory_item\<close> marks every item a file.
\<close>
theorem fat16_open_root_only:
  "case fat16_open dev d alloc disk p path mode of
     Some (Inr desc, p') \<Rightarrow> (\<exists>part. path = [part]) \<and> mode = FILE_MODE_READ
       \<and> item_type (desc_item desc) = FAT_ITEM_TYPE_FILE \<and> desc_pos desc = 0
   | _ \<Rightarrow> True"
proof (cases path)
  case Nil
  then show ?thesis by (simp add: fat16_open_def fat16_get_directory_entry_def)
next
  case (Cons part parts)
  show ?thesis
  proof (cases parts)
    case Nil
    with Cons show ?thesis
      by (auto simp: fat16_open_def fat16_get_directory_entry_def fat16_find_item_in_directory_def
          split: option.splits prod.splits sum.splits if_splits dest: find_item_is_file)
  next
    case (Cons part' parts')
    with \<open>path = part # parts\<close> show ?thesis
      by (auto simp: fat16_open_def fat16_get_directory_entry_def fat16_find_item_in_directory_def
          split: option.splits prod.splits sum.splits if_splits dest: find_item_is_file)
  qed
qed


text \<open>
  A read of at most one cluster delivers the bytes that follow on the disk, from the offset
  in the first cluster on. When it crosses the end of the cluster it goes on into the next
  cluster on the disk, whatever cluster the chain of the file names.
\<close>
theorem fat16_read_contiguous:
  assumes "stream_ready d (cluster_read_stream p)" "0 \<le> cluster_position disk p (sint (fat16_get_first_cluster item))"
    and "0 \<le> sint (fat16_get_first_cluster item)" "0 \<le> sint n" "0 \<le> sint (desc_pos desc)"
    and "sint (desc_pos desc) < size_of_cluster_bytes disk p" "sint n \<le> size_of_cluster_bytes disk p"
    and "content (desc_item desc) = Item (Some item)"
  shows "\<exists>p'. fat16_read dev d disk p desc n 1 =
    Some (1, map (\<lambda>i. disk_byte dev (cluster_position disk p (sint (fat16_get_first_cluster item))
      + sint (desc_pos desc) + int i)) [0..<nat (sint n)], p')"
  using read_one_cluster [OF assms, of dev] by blast

text \<open>
  The entry of a cluster is read at the position of the table multiplied by the offset of
  the entry, where the table keeps it at their sum.
\<close>
theorem fat16_fat_entry_position:
  assumes "stream_ready d (fat_read_stream p)" "0 \<le> cluster" "0 \<le> sector_size disk"
    and "q = uint (reserved_sectors (header p)) * sector_size disk * (cluster * 2)" "q < 2 ^ 31"
  shows "fst (fat16_get_fat_entry dev d disk p cluster) =
    uint (le16 [disk_byte dev q, disk_byte dev (q + 1)] 0)"
proof -
  obtain s where s: "fat_read_stream p = Some s" "0 \<le> pos s" "stream_disk s = d"
    using assms(1) by (auto simp: stream_ready_def split: option.splits)
  have "fat16_get_first_fat_sector p * word_of_int (sector_size disk) * word_of_int (cluster * 2)
      = (word_of_int q :: u32)"
    unfolding assms(4) fat16_get_first_fat_sector_def ucast_eq [of "reserved_sectors (header p)"]
    by (simp only: of_int_mult)
  moreover have "0 \<le> q" using assms(2,3,4) by simp
  ultimately have q: "sint (fat16_get_first_fat_sector p * word_of_int (sector_size disk)
      * word_of_int (cluster * 2)) = q"
    using assms(5) sint_word_of_int_small [of q] by simp
  have two: "[0..<nat 2] = [0, 1]" by (simp add: upt_rec)
  obtain s1 s2 where "diskstreamer_seek s q = (ALL_OK, s1)"
      "diskstreamer_read dev d s1 2 = (ALL_OK, [disk_byte dev q, disk_byte dev (q + 1)], s2)"
    using disk_bytes.read_at [of s d q 2 dev] s \<open>0 \<le> q\<close> two by auto
  then show ?thesis using s q by (simp add: fat16_get_fat_entry_def Let_def)
qed

section \<open>A small volume\<close>

text \<open>
  One reserved sector, clusters of one sector from sector 10 on, one file \<open>A\<close> at cluster 2; each
  sector of the drive is filled with its number.
\<close>

definition sample_item :: fat_directory_item where
  "sample_item = [0x41, 0x20, 0x20, 0x20, 0x20, 0x20, 0x20, 0x20, 0x20, 0x20, 0x20, 0x20,
     0, 0, 0, 0, 0, 0, 0, 0, 0, 0, 0, 0, 0, 0, 2, 0, 0, 4, 0, 0]"

definition sample_private :: fat_private where
  "sample_private = \<lparr>header = (replicate 62 0)[13 := 1, 14 := 1],
     root_directory = \<lparr>dir_bytes = sample_item, dir_total = 1, sector_pos = 5, ending_sector_pos = 10\<rparr>,
     cluster_read_stream = Some \<lparr>pos = 0, stream_disk = 0x9000\<rparr>,
     fat_read_stream = Some \<lparr>pos = 0, stream_disk = 0x9000\<rparr>,
     directory_stream = Some \<lparr>pos = 0, stream_disk = 0x9000\<rparr>\<rparr>"

definition sample_disk :: disk where
  "sample_disk = \<lparr>disk_type = 0, sector_size = 512, disk_id = 0, filesystem = 0, fs_private = 0\<rparr>"

definition sample_device :: device where
  "sample_device s = replicate 512 (ucast s)"

definition sample_desc :: fat_file_descriptor where
  "sample_desc = \<lparr>desc_item = \<lparr>content = Item (Some sample_item), item_type = 1\<rparr>, desc_pos = 510\<rparr>"

lemma length_sample_item [simp]: "length sample_item = 32"
  by (simp add: sample_item_def)

lemma sample_name: "fat16_get_full_relative_filename sample_item = [0x41]"
  by (simp add: fat16_get_full_relative_filename_def sample_item_def Let_def)

lemma sample_first_cluster: "fat16_get_first_cluster sample_item = 2"
  by (simp add: fat16_get_first_cluster_def high_16_bits_first_cluster_def
      low_16_bits_first_cluster_def le16_def sample_item_def nth_append nth_Cons')

lemma sample_cluster_bytes: "size_of_cluster_bytes sample_disk sample_private = 512"
  by (simp add: size_of_cluster_bytes_def sample_disk_def sample_private_def sectors_per_cluster_def)

lemma sample_cluster_position: "cluster_position sample_disk sample_private 2 = 5120"
  by (simp add: cluster_position_def fat16_cluster_to_sector_def sample_disk_def sample_private_def)

lemma sample_streams:
  "stream_ready 0x9000 (cluster_read_stream sample_private)"
  "stream_ready 0x9000 (fat_read_stream sample_private)"
  by (simp_all add: sample_private_def stream_ready_def)


theorem fat16_read_contiguous_witness:
  "\<exists>p'. fat16_read sample_device 0x9000 sample_disk sample_private sample_desc 4 1 = Some (1, [10, 10, 11, 11], p')"
proof -
  have four: "[0..<4] = [0, 1, 2, 3]" by (simp add: upt_rec)
  have desc: "content (desc_item sample_desc) = Item (Some sample_item)" "sint (desc_pos sample_desc) = 510"
    by (simp_all add: sample_desc_def)
  show ?thesis
    using fat16_read_contiguous [OF sample_streams(1), of sample_disk sample_item 4 sample_desc sample_device]
    by (simp add: sample_first_cluster sample_cluster_bytes sample_cluster_position desc four
        disk_byte_def sample_device_def)
qed

theorem fat16_fat_entry_position_witness:
  "fst (fat16_get_fat_entry sample_device 0x9000 sample_disk sample_private 2) = 0x0404"
  using fat16_fat_entry_position [OF sample_streams(2), of 2 sample_disk 2048 sample_device]
  by (simp add: sample_disk_def sample_private_def reserved_sectors_def le16_def disk_byte_def
      sample_device_def)

text \<open>
  An 8.3 name of fewer than 8 characters, padded with blanks as on the disk, is found under
  its usual form with a dot, when what ends the extension is a blank or a zero: a shorter
  extension, or an attribute byte of 0 or \<open>archive\<close>.
\<close>
theorem fat16_name_dotted:
  assumes "set name \<inter> {0x00, 0x20} = {}" "set ext \<inter> {0x00, 0x20} = {}"
    and "length name < 8" "ext \<noteq> []" "length ext \<le> 3"
    and "length ext < 3 \<or> attr = 0x00 \<or> attr = 0x20"
  shows "fat16_get_full_relative_filename
      (name @ replicate (8 - length name) 0x20 @ ext @ replicate (3 - length ext) 0x20 @ attr # rest)
    = name @ [0x2E] @ ext"
proof -
  let ?tail = "ext @ replicate (3 - length ext) 0x20 @ attr # rest"
  have "\<exists>k. 8 - length name = Suc k" using assms(3) by presburger
  then have first: "fat16_to_proper_string (name @ replicate (8 - length name) 0x20 @ ?tail) = name"
    using assms(1) to_proper_string_stops [of name] by auto
  have "\<exists>c r. replicate (3 - length ext) 0x20 @ attr # rest = c # r \<and> (c = 0x00 \<or> c = 0x20)"
    using assms(5,6) by (cases "3 - length ext") auto
  then have second: "fat16_to_proper_string ?tail = ext"
    using assms(2) to_proper_string_stops [of ext] by auto
  have "drop 8 (name @ replicate (8 - length name) 0x20 @ ?tail) = ?tail" using assms(3) by simp
  moreover have "(name @ replicate (8 - length name) 0x20 @ ?tail) ! 8 = hd ext"
    using assms(3,4) by (simp add: nth_append hd_conv_nth)
  moreover have "hd ext \<in> set ext" using assms(4) by simp
  then have "hd ext \<noteq> 0x00" "hd ext \<noteq> 0x20" using assms(2) by auto
  ultimately show ?thesis
    unfolding fat16_get_full_relative_filename_def Let_def first by (simp add: second)
qed

text \<open>The file \<open>BLANK.ELF\<close>.\<close>
theorem fat16_name_dotted_witness:
  "fat16_get_full_relative_filename
     [0x42, 0x4C, 0x41, 0x4E, 0x4B, 0x20, 0x20, 0x20, 0x45, 0x4C, 0x46, 0x20, 0x00] =
   [0x42, 0x4C, 0x41, 0x4E, 0x4B, 0x2E, 0x45, 0x4C, 0x46]"
  using fat16_name_dotted [of "[0x42, 0x4C, 0x41, 0x4E, 0x4B]" "[0x45, 0x4C, 0x46]" "0x20" "[0x00]"]
  by (simp add: numeral_3_eq_3)

text \<open>
  A name of 8 characters runs on into its extension, and an extension of 3 characters into the
  attribute: such a file is found under no name of the usual form.
\<close>
theorem fat16_name_overrun:
  assumes "set name \<inter> {0x00, 0x20} = {}" "set ext \<inter> {0x00, 0x20} = {}"
    and "length name = 8" "length ext = 3" "attr = 0x00 \<or> attr = 0x20"
  shows "fat16_get_full_relative_filename (name @ ext @ attr # rest) = name @ ext @ [0x2E] @ ext"
proof -
  have first: "fat16_to_proper_string (name @ ext @ attr # rest) = name @ ext"
    using assms(1,2,5) to_proper_string_stops [of "name @ ext" attr rest] by auto
  have second: "fat16_to_proper_string (ext @ attr # rest) = ext"
    using assms(2,5) to_proper_string_stops [of ext attr rest] by auto
  have "(name @ ext @ attr # rest) ! 8 = hd ext"
    using assms(3,4) by (cases ext) (auto simp: nth_append)
  moreover have "hd ext \<in> set ext" using assms(4) by (cases ext) auto
  then have "hd ext \<noteq> 0x00" "hd ext \<noteq> 0x20" using assms(2) by auto
  ultimately show ?thesis
    unfolding fat16_get_full_relative_filename_def Let_def first using assms(3) by (simp add: second)
qed

text \<open>The file \<open>PROGRAMS.BIN\<close>.\<close>
theorem fat16_name_overrun_witness:
  "fat16_get_full_relative_filename
     [0x50, 0x52, 0x4F, 0x47, 0x52, 0x41, 0x4D, 0x53, 0x42, 0x49, 0x4E, 0x20] =
   [0x50, 0x52, 0x4F, 0x47, 0x52, 0x41, 0x4D, 0x53, 0x42, 0x49, 0x4E, 0x2E, 0x42, 0x49, 0x4E]"
  using fat16_name_overrun [of "[0x50, 0x52, 0x4F, 0x47, 0x52, 0x41, 0x4D, 0x53]" "[0x42, 0x49, 0x4E]" "0x20" "[]"]
  by simp

text \<open>
  An absolute seek within the file moves there, a relative one adds to the position without
  a check against the size of the file, a seek behind the end is an error, and from the end of
  the file is not supported; an error leaves the position.
\<close>
theorem fat16_seek_effect:
  assumes "content (desc_item desc) = Item (Some item)" "item_type (desc_item desc) = FAT_ITEM_TYPE_FILE"
  shows "fat16_seek desc offset mode = Some
    (if filesize item \<le> offset then (Inl EIO, desc)
     else if mode = SEEK_SET then (ALL_OK, desc\<lparr>desc_pos := offset\<rparr>)
     else if mode = SEEK_CUR then (ALL_OK, desc\<lparr>desc_pos := desc_pos desc + offset\<rparr>)
     else (Inl (if mode = SEEK_END then EUNIMP else EINVARG), desc))"
  using assms by (simp add: fat16_seek_def)

text \<open>The file of 1024 bytes, twice moved by 1000 from 510: the position is behind its end.\<close>
theorem fat16_seek_effect_witness:
  "fat16_seek sample_desc 1000 SEEK_CUR = Some (ALL_OK, sample_desc\<lparr>desc_pos := 1510\<rparr>)"
  using fat16_seek_effect [of sample_desc sample_item 1000 SEEK_CUR]
  by (simp add: sample_desc_def filesize_def le32_def sample_item_def nth_append nth_Cons')

end
