(* ===== verification/File.thy ===== *)
theory File
  imports Fat16
begin

unbundle bit_operations_syntax

text \<open>
  The file layer of \<^verbatim>\<open>src/fs/file.c\<close>: the table of filesystems, the table of open files and the
  calls that go through them. A filesystem is the table of its functions, found by its address
  in \<open>ops\<close>; they work on the \<open>world\<close>, which holds the disk and the private data of open files
  by their addresses. A path arrives parsed, as the drive and the names of its parts
  (\<open>None\<close> for the null result of \<open>pathparser_parse\<close>). An open file is \<open>Some\<close> in the table.
\<close>

record 'w filesystem_functions =
  resolve :: "'w \<Rightarrow> status \<times> 'w"
  open_file :: "'w \<Rightarrow> u8 list list \<Rightarrow> u32 \<Rightarrow> addr \<times> 'w"
  read_file :: "'w \<Rightarrow> addr \<Rightarrow> addr \<Rightarrow> u32 \<Rightarrow> u32 \<Rightarrow> int \<times> u8 list \<times> 'w"
  seek_file :: "'w \<Rightarrow> addr \<Rightarrow> u32 \<Rightarrow> u32 \<Rightarrow> status \<times> 'w"
  stat_file :: "'w \<Rightarrow> addr \<Rightarrow> addr \<Rightarrow> file_stat \<Rightarrow> status \<times> file_stat"
  close_file :: "'w \<Rightarrow> addr \<Rightarrow> status \<times> 'w"

record file_descriptor =
  index :: int
  fd_filesystem :: addr
  fd_private :: addr
  fd_disk :: addr

record 'w vfs =
  filesystems :: "addr list"
  file_descriptors :: "file_descriptor option list"
  world :: 'w

section \<open>Filesystems\<close>

definition fs_get_free_filesystem :: "'w vfs \<Rightarrow> nat option" where
  "fs_get_free_filesystem s = first_slot (\<lambda>fs. fs = 0) (filesystems s)"

text \<open>With a full table the kernel prints a message and stops: \<open>None\<close>.\<close>

definition fs_insert_filesystem :: "addr \<Rightarrow> 'w vfs \<Rightarrow> 'w vfs option" where
  "fs_insert_filesystem fs s =
     (case fs_get_free_filesystem s of
        None \<Rightarrow> None
      | Some i \<Rightarrow> Some (s\<lparr>filesystems := (filesystems s)[i := fs]\<rparr>))"

text \<open>The only statement of \<open>fs_static_load\<close> is commented out.\<close>

definition fs_static_load :: "'w vfs \<Rightarrow> 'w vfs" where
  "fs_static_load s = s"

definition fs_load :: "'w vfs \<Rightarrow> 'w vfs" where
  "fs_load s = fs_static_load (s\<lparr>filesystems := replicate MAX_FILESYSTEMS 0\<rparr>)"

definition fs_init :: "'w vfs \<Rightarrow> 'w vfs" where
  "fs_init s = fs_load (s\<lparr>file_descriptors := replicate FILE_DESCRIPTOR None\<rparr>)"

fun fs_resolve_loop :: "(addr \<Rightarrow> 'w filesystem_functions) \<Rightarrow> addr list \<Rightarrow> 'w \<Rightarrow> addr \<times> 'w" where
  "fs_resolve_loop ops [] w = (0, w)"
| "fs_resolve_loop ops (fs # fss) w =
     (if fs = 0 then fs_resolve_loop ops fss w
      else case resolve (ops fs) w of
        (Inr _, w) \<Rightarrow> (fs, w)
      | (Inl _, w) \<Rightarrow> fs_resolve_loop ops fss w)"

definition fs_resolve :: "(addr \<Rightarrow> 'w filesystem_functions) \<Rightarrow> 'w vfs \<Rightarrow> addr \<times> 'w vfs" where
  "fs_resolve ops s =
     (let (fs, w) = fs_resolve_loop ops (filesystems s) (world s) in (fs, s\<lparr>world := w\<rparr>))"

section \<open>Descriptors\<close>

definition file_free_descriptor :: "file_descriptor \<Rightarrow> 'w vfs \<Rightarrow> 'w vfs" where
  "file_free_descriptor desc s =
     s\<lparr>file_descriptors := (file_descriptors s)[nat (index desc - 1) := None]\<rparr>"

text \<open>
  The new descriptor. The result of its allocation is not tested: when it fails the place in the
  table stays null, and the descriptor is written at address 0.
\<close>

definition file_new_descriptor :: "bool \<Rightarrow> 'w vfs \<Rightarrow> (error + file_descriptor) \<times> 'w vfs" where
  "file_new_descriptor alloc s =
     (case first_slot (\<lambda>fd. fd = None) (file_descriptors s) of
        None \<Rightarrow> (Inl ENOMEM, s)
      | Some i \<Rightarrow>
          let desc = \<lparr>index = int i + 1, fd_filesystem = 0, fd_private = 0, fd_disk = 0\<rparr>
          in (Inr desc, if alloc then s\<lparr>file_descriptors := (file_descriptors s)[i := Some desc]\<rparr> else s))"

definition file_get_descriptor :: "int \<Rightarrow> 'w vfs \<Rightarrow> file_descriptor option" where
  "file_get_descriptor fd s =
     (if fd \<le> 0 \<or> FILE_DESCRIPTOR \<le> fd then None else file_descriptors s ! nat (fd - 1))"

definition file_get_mode_by_string :: "mem \<Rightarrow> addr \<Rightarrow> u32" where
  "file_get_mode_by_string m str =
     (if m str = 0x72 then FILE_MODE_READ
      else if m str = 0x77 then FILE_MODE_WRITE
      else if m str = 0x61 then FILE_MODE_APPEND
      else FILE_MODE_INVALID)"

section \<open>Calls\<close>

text \<open>
  \<open>disk_fs\<close> is \<open>disk->filesystem\<close>. Every error is turned into the descriptor 0.
\<close>

definition fopen ::
    "(addr \<Rightarrow> 'w filesystem_functions) \<Rightarrow> addr \<Rightarrow> addr \<Rightarrow> bool \<Rightarrow> (int \<times> u8 list list) option
      \<Rightarrow> mem \<Rightarrow> addr \<Rightarrow> 'w vfs \<Rightarrow> int \<times> 'w vfs" where
  "fopen ops the_disk disk_fs alloc root_path m mode_str s =
     (case root_path of
        None \<Rightarrow> (0, s)
      | Some (drive_no, parts) \<Rightarrow>
          if parts = [] then (0, s)
          else let disk = disk_get the_disk drive_no in
          if disk = 0 then (0, s)
          else if disk_fs = 0 then (0, s)
          else let mode = file_get_mode_by_string m mode_str in
          if mode = FILE_MODE_INVALID then (0, s)
          else let (descriptor_private_data, w) = open_file (ops disk_fs) (world s) parts mode;
                   s = s\<lparr>world := w\<rparr> in
          if sint descriptor_private_data < 0 then (0, s)
          else case file_new_descriptor alloc s of
            (Inl _, s) \<Rightarrow> (0, s)
          | (Inr desc, s) \<Rightarrow>
              let desc' = desc\<lparr>fd_filesystem := disk_fs, fd_private := descriptor_private_data, fd_disk := disk\<rparr>;
                  s = (if alloc then s\<lparr>file_descriptors :=
                         (file_descriptors s)[nat (index desc - 1) := Some desc']\<rparr> else s)
              in (index desc, s))"

definition fstat ::
    "(addr \<Rightarrow> 'w filesystem_functions) \<Rightarrow> int \<Rightarrow> file_stat \<Rightarrow> 'w vfs \<Rightarrow> status \<times> file_stat" where
  "fstat ops fd stat s =
     (case file_get_descriptor fd s of
        None \<Rightarrow> (Inl EIO, stat)
      | Some desc \<Rightarrow> stat_file (ops (fd_filesystem desc)) (world s) (fd_disk desc) (fd_private desc) stat)"

definition fclose :: "(addr \<Rightarrow> 'w filesystem_functions) \<Rightarrow> int \<Rightarrow> 'w vfs \<Rightarrow> status \<times> 'w vfs" where
  "fclose ops fd s =
     (case file_get_descriptor fd s of
        None \<Rightarrow> (Inl EIO, s)
      | Some desc \<Rightarrow>
          let (res, w) = close_file (ops (fd_filesystem desc)) (world s) (fd_private desc);
              s = s\<lparr>world := w\<rparr>
          in case res of
               Inl e \<Rightarrow> (Inl e, s)
             | Inr _ \<Rightarrow> (ALL_OK, file_free_descriptor desc s))"

definition fseek ::
    "(addr \<Rightarrow> 'w filesystem_functions) \<Rightarrow> int \<Rightarrow> int \<Rightarrow> u32 \<Rightarrow> 'w vfs \<Rightarrow> status \<times> 'w vfs" where
  "fseek ops fd offset whence s =
     (case file_get_descriptor fd s of
        None \<Rightarrow> (Inl EIO, s)
      | Some desc \<Rightarrow>
          let (res, w) = seek_file (ops (fd_filesystem desc)) (world s) (fd_private desc)
                (word_of_int offset) whence
          in (res, s\<lparr>world := w\<rparr>))"

definition fread ::
    "(addr \<Rightarrow> 'w filesystem_functions) \<Rightarrow> u32 \<Rightarrow> u32 \<Rightarrow> int \<Rightarrow> 'w vfs \<Rightarrow> int \<times> u8 list \<times> 'w vfs" where
  "fread ops n nmemb fd s =
     (if n = 0 \<or> nmemb = 0 \<or> fd < 1 then (- errno EINVARG, [], s)
      else case file_get_descriptor fd s of
        None \<Rightarrow> (- errno EINVARG, [], s)
      | Some desc \<Rightarrow>
          let (res, bytes, w) = read_file (ops (fd_filesystem desc)) (world s) (fd_disk desc)
                (fd_private desc) n nmemb
          in (res, bytes, s\<lparr>world := w\<rparr>))"

section \<open>The invariant of the table\<close>

definition vfs_ok :: "'w vfs \<Rightarrow> bool" where
  "vfs_ok s \<longleftrightarrow> length (file_descriptors s) = FILE_DESCRIPTOR \<and> length (filesystems s) = MAX_FILESYSTEMS
     \<and> (\<forall>i desc. i < FILE_DESCRIPTOR \<longrightarrow> file_descriptors s ! i = Some desc \<longrightarrow> index desc = int i + 1)"

lemma vfs_ok_init: "vfs_ok (fs_init s)"
  by (simp add: vfs_ok_def fs_init_def fs_load_def fs_static_load_def)

lemma vfs_ok_world: "vfs_ok s \<Longrightarrow> vfs_ok (s\<lparr>world := w\<rparr>)"
  by (simp add: vfs_ok_def)

lemma vfs_ok_set:
  assumes "vfs_ok s" "\<And>desc. x = Some desc \<Longrightarrow> index desc = int i + 1"
  shows "vfs_ok (s\<lparr>file_descriptors := (file_descriptors s)[i := x]\<rparr>)"
proof -
  have "index desc = int j + 1" if "j < 512" "(file_descriptors s)[i := x] ! j = Some desc" for j desc
    using assms that by (cases "j = i") (auto simp: vfs_ok_def)
  then show ?thesis using assms(1) by (simp add: vfs_ok_def)
qed

lemma vfs_world_same: "\<exists>w. s = s\<lparr>world := w\<rparr>"
  by (rule exI [of _ "world s"]) simp

text \<open>A successful \<open>fopen\<close>, in terms of the table alone.\<close>

lemma fopen_cases:
  "(\<exists>w. fopen ops d fs alloc root m str s = (0, s\<lparr>world := w\<rparr>)) \<or>
   (\<exists>i desc w. fopen ops d fs alloc root m str s =
        (int i + 1, if alloc then s\<lparr>world := w, file_descriptors := (file_descriptors s)[i := Some desc]\<rparr>
                    else s\<lparr>world := w\<rparr>)
      \<and> first_slot (\<lambda>fd. fd = None) (file_descriptors s) = Some i \<and> index desc = int i + 1)"
proof (cases "\<exists>drive parts. root = Some (drive, parts) \<and> parts \<noteq> [] \<and> disk_get d drive \<noteq> 0
    \<and> fs \<noteq> 0 \<and> file_get_mode_by_string m str \<noteq> FILE_MODE_INVALID")
  case False
  then have "fopen ops d fs alloc root m str s = (0, s)"
    by (auto simp: fopen_def Let_def split: option.splits)
  then show ?thesis using vfs_world_same [of s] by simp
next
  case True
  then obtain drive parts where r: "root = Some (drive, parts)" "parts \<noteq> []" "disk_get d drive \<noteq> 0"
    "fs \<noteq> 0" "file_get_mode_by_string m str \<noteq> FILE_MODE_INVALID" by blast
  obtain p w where o: "open_file (ops fs) (world s) parts (file_get_mode_by_string m str) = (p, w)"
    by fastforce
  show ?thesis
  proof (cases "first_slot (\<lambda>fd. fd = None) (file_descriptors s)")
    case None
    then have "fopen ops d fs alloc root m str s = (0, s\<lparr>world := w\<rparr>)"
      using r o by (simp add: fopen_def file_new_descriptor_def Let_def del: first_slot_None)
    then show ?thesis by blast
  next
    case (Some i)
    let ?desc = "\<lparr>index = int i + 1, fd_filesystem = fs, fd_private = p, fd_disk = disk_get d drive\<rparr>"
    have "sint p < 0 \<or> fopen ops d fs alloc root m str s =
        (int i + 1, if alloc then s\<lparr>world := w, file_descriptors := (file_descriptors s)[i := Some ?desc]\<rparr>
                    else s\<lparr>world := w\<rparr>)"
      using r o Some by (simp add: fopen_def file_new_descriptor_def Let_def)
    moreover have "sint p < 0 \<Longrightarrow> fopen ops d fs alloc root m str s = (0, s\<lparr>world := w\<rparr>)"
      using r o by (simp add: fopen_def Let_def)
    moreover have "index ?desc = int i + 1" by simp
    ultimately show ?thesis using Some by blast
  qed
qed

section \<open>Properties\<close>

text \<open>
  After \<open>fs_init\<close> no filesystem is registered, so the search for the filesystem of the disk
  finds none, and every \<open>fopen\<close> returns 0: no file is ever opened.
\<close>
theorem kernel_opens_no_file:
  "fst (fs_resolve ops (fs_init s)) = 0
   \<and> fopen ops d (fst (fs_resolve ops (fs_init s))) alloc root m str s' = (0, s')"
proof -
  have "fs_resolve_loop ops (replicate n 0) w = (0, w)" for n w
    by (induction n) simp_all
  then show ?thesis
    by (simp add: fs_resolve_def fs_init_def fs_load_def fs_static_load_def fopen_def Let_def
        split: option.splits)
qed

text \<open>
  A successful \<open>fopen\<close> returns the number of the first free place, from 1 to 512, fills that
  place and no other, and keeps the invariant that every open file knows its own number.
\<close>
theorem fopen_first_free:
  assumes "vfs_ok s" "fopen ops d fs True root m str s = (fd, s')" "fd \<noteq> 0"
  shows "1 \<le> fd \<and> fd \<le> 512 \<and> file_descriptors s ! nat (fd - 1) = None
    \<and> (\<forall>j<nat (fd - 1). file_descriptors s ! j \<noteq> None)
    \<and> (\<exists>desc. index desc = fd \<and> file_descriptors s' = (file_descriptors s)[nat (fd - 1) := Some desc])
    \<and> vfs_ok s'"
proof -
  obtain i desc w where ok: "fopen ops d fs True root m str s =
      (int i + 1, s\<lparr>world := w, file_descriptors := (file_descriptors s)[i := Some desc]\<rparr>)"
    "first_slot (\<lambda>fd. fd = None) (file_descriptors s) = Some i" "index desc = int i + 1"
    using fopen_cases [of ops d fs True root m str s] assms(2,3) by auto
  have i: "i < 512" using first_slot_SomeD(1) [OF ok(2)] assms(1) by (simp add: vfs_ok_def)
  have s': "fd = int i + 1" "file_descriptors s' = (file_descriptors s)[i := Some desc]"
    using ok(1) assms(2) by auto
  have "vfs_ok s'"
    using ok(1,3) assms(2) vfs_ok_set [OF vfs_ok_world [OF assms(1)], of "Some desc" i] by auto
  with ok(2,3) s' i show ?thesis by (auto simp: first_slot_Some)
qed

text \<open>A filesystem that opens everything, at address 0x7000.\<close>

definition sample_fs :: "unit filesystem_functions" where
  "sample_fs = \<lparr>resolve = \<lambda>w. (ALL_OK, w), open_file = \<lambda>w parts mode. (0x100, w),
     read_file = \<lambda>w disk p n k. (0, [], w), seek_file = \<lambda>w p off mode. (ALL_OK, w),
     stat_file = \<lambda>w disk p st. (ALL_OK, st), close_file = \<lambda>w p. (ALL_OK, w)\<rparr>"

definition sample_vfs :: "unit vfs" where
  "sample_vfs = \<lparr>filesystems = replicate 12 0, file_descriptors = replicate 512 None, world = ()\<rparr>"

lemma sample_vfs_ok: "vfs_ok sample_vfs"
  by (simp add: vfs_ok_def sample_vfs_def)

lemma first_slot_replicate: "0 < n \<Longrightarrow> P x \<Longrightarrow> first_slot P (replicate n x) = Some 0"
  by (cases n) simp_all

lemma sample_fopen:
  "fst (fopen (\<lambda>_. sample_fs) 0x9000 0x7000 True (Some (0, [[0x61]])) (\<lambda>_. 0x72) 0 sample_vfs) = 1"
  by (simp add: fopen_def sample_fs_def sample_vfs_def disk_get_def file_get_mode_by_string_def
      file_new_descriptor_def first_slot_replicate Let_def)

theorem fopen_first_free_witness:
  "\<exists>fd s'. fopen (\<lambda>_. sample_fs) 0x9000 0x7000 True (Some (0, [[0x61]])) (\<lambda>_. 0x72) 0 sample_vfs = (fd, s')
    \<and> fd = 1 \<and> vfs_ok s'"
proof -
  obtain fd s' where f: "fopen (\<lambda>_. sample_fs) 0x9000 0x7000 True (Some (0, [[0x61]])) (\<lambda>_. 0x72) 0 sample_vfs = (fd, s')"
    by fastforce
  then have "fd = 1" using sample_fopen by simp
  with fopen_first_free [OF sample_vfs_ok f] f show ?thesis by auto
qed



end
