(* ===== verification/Volume.thy ===== *)
theory Volume
  imports File Heap
begin

unbundle bit_operations_syntax

text \<open>
  The FAT16 driver as a filesystem of the file layer: the table of its functions
  (\<open>fat16_fs\<close> of \<^verbatim>\<open>src/fs/fat/fat16.c\<close>) over a volume, and what a client of the file layer may
  rely on. The volume holds the private data of the disk and the open descriptors by their addresses;
  it is \<open>None\<close> once an operation did not come back. \<open>fresh\<close> gives the address of the next
  descriptor.
\<close>

section \<open>Releasing\<close>

text \<open>The blocks passed to \<open>kfree\<close>, in order. A directory whose items could not be allocated has none.\<close>

datatype fat_block = Directory_items | Directory_block | Item_copy | Item_block | Descriptor_block

definition fat16_free_directory :: "fat_directory option \<Rightarrow> fat_block list" where
  "fat16_free_directory directory =
     (case directory of
        None \<Rightarrow> []
      | Some directory \<Rightarrow> (if dir_bytes directory \<noteq> [] then [Directory_items] else []) @ [Directory_block])"

text \<open>The type says which member of the union is meant; the other one is not looked at.\<close>

definition fat16_fat_item_free :: "fat_item \<Rightarrow> fat_block list option" where
  "fat16_fat_item_free item =
     (if item_type item = FAT_ITEM_TYPE_DIRECTORY then
        (case content item of
           Directory directory \<Rightarrow> Some (fat16_free_directory directory @ [Item_block])
         | Item _ \<Rightarrow> None)
      else if item_type item = FAT_ITEM_TYPE_FILE then
        (case content item of Item _ \<Rightarrow> Some [Item_copy, Item_block] | Directory _ \<Rightarrow> None)
      else Some [Item_block])"

definition fat16_free_file_descriptor :: "fat_file_descriptor \<Rightarrow> fat_block list option" where
  "fat16_free_file_descriptor desc =
     map_option (\<lambda>blocks. blocks @ [Descriptor_block]) (fat16_fat_item_free (desc_item desc))"

definition fat16_close :: "fat_file_descriptor \<Rightarrow> (status \<times> fat_block list) option" where
  "fat16_close desc = map_option (\<lambda>blocks. (ALL_OK, blocks)) (fat16_free_file_descriptor desc)"

text \<open>A stream is released to the heap it came from.\<close>

definition diskstreamer_close :: "mem \<Rightarrow> heap \<Rightarrow> addr \<Rightarrow> mem" where
  "diskstreamer_close m h stream = kfree m h stream"

section \<open>The table of functions\<close>

record volume =
  vol_private :: fat_private
  vol_files :: "addr \<Rightarrow> fat_file_descriptor option"

definition fat16_functions ::
    "device \<Rightarrow> addr \<Rightarrow> (u32 \<Rightarrow> bool) \<Rightarrow> disk \<Rightarrow> (volume \<Rightarrow> addr) \<Rightarrow> volume option filesystem_functions" where
  "fat16_functions dev d alloc disk fresh =
     \<lparr>resolve = \<lambda>w. (case fat16_resolve dev d alloc disk of
          None \<Rightarrow> (Inl EIO, None)
        | Some (Inl e) \<Rightarrow> (Inl e, w)
        | Some (Inr p) \<Rightarrow> (ALL_OK, Some \<lparr>vol_private = p, vol_files = \<lambda>_. None\<rparr>)),
      open_file = \<lambda>w parts mode. (case w of
          None \<Rightarrow> (0, None)
        | Some v \<Rightarrow> (case fat16_open dev d alloc disk (vol_private v) parts mode of
              None \<Rightarrow> (0, None)
            | Some (Inl e, p) \<Rightarrow> (word_of_int (- errno e), Some (v\<lparr>vol_private := p\<rparr>))
            | Some (Inr desc, p) \<Rightarrow>
                (fresh v, Some (v\<lparr>vol_private := p, vol_files := (vol_files v)(fresh v := Some desc)\<rparr>)))),
      read_file = \<lambda>w _ a n nmemb. (case Option.bind w (\<lambda>v. map_option (Pair v) (vol_files v a)) of
          None \<Rightarrow> (0, [], None)
        | Some (v, desc) \<Rightarrow> (case fat16_read dev d disk (vol_private v) desc n nmemb of
              None \<Rightarrow> (0, [], None)
            | Some (res, bytes, p) \<Rightarrow> (res, bytes, Some (v\<lparr>vol_private := p\<rparr>)))),
      seek_file = \<lambda>w a offset mode. (case Option.bind w (\<lambda>v. map_option (Pair v) (vol_files v a)) of
          None \<Rightarrow> (Inl EIO, None)
        | Some (v, desc) \<Rightarrow> (case fat16_seek desc offset mode of
              None \<Rightarrow> (Inl EIO, None)
            | Some (res, desc) \<Rightarrow> (res, Some (v\<lparr>vol_files := (vol_files v)(a := Some desc)\<rparr>)))),
      stat_file = \<lambda>w _ a stat. (case Option.bind w (\<lambda>v. vol_files v a) of
          None \<Rightarrow> (Inl EIO, stat)
        | Some desc \<Rightarrow> (case fat16_stat desc stat of None \<Rightarrow> (Inl EIO, stat) | Some r \<Rightarrow> r)),
      close_file = \<lambda>w a. (case Option.bind w (\<lambda>v. map_option (Pair v) (vol_files v a)) of
          None \<Rightarrow> (Inl EIO, None)
        | Some (v, desc) \<Rightarrow> (case fat16_close desc of
              None \<Rightarrow> (Inl EIO, None)
            | Some (res, _) \<Rightarrow> (res, Some (v\<lparr>vol_files := (vol_files v)(a := None)\<rparr>))))\<rparr>"

lemma file_get_descriptor_world [simp]: "file_get_descriptor fd (s\<lparr>world := w\<rparr>) = file_get_descriptor fd s"
  by (simp add: file_get_descriptor_def)

text \<open>A file that its filesystem opens gets the first place of the table, when it is not the last one.\<close>

lemma fopen_opens:
  assumes "open_file (ops a) (world s) parts FILE_MODE_READ = (p, w')" "0 \<le> sint p" "parts \<noteq> []" "a \<noteq> 0"
    and "disk_get d drive \<noteq> 0" "m str = 0x72" "vfs_ok s"
    and "first_slot (\<lambda>fd. fd = None) (file_descriptors s) = Some k" "k < 511"
  defines "desc \<equiv> \<lparr>index = int k + 1, fd_filesystem = a, fd_private = p, fd_disk = disk_get d drive\<rparr>"
  defines "s' \<equiv> s\<lparr>world := w', file_descriptors := (file_descriptors s)[k := Some desc]\<rparr>"
  shows "fopen ops d a True (Some (drive, parts)) m str s = (int k + 1, s')" "vfs_ok s'" "world s' = w'"
    "file_get_descriptor (int k + 1) s' = Some desc" "index desc = int k + 1" "fd_filesystem desc = a" "fd_private desc = p"
proof -
  have "file_get_mode_by_string m str = FILE_MODE_READ" using assms(6) by (simp add: file_get_mode_by_string_def)
  then show "fopen ops d a True (Some (drive, parts)) m str s = (int k + 1, s')"
    using assms(1-5,8) by (simp add: fopen_def file_new_descriptor_def Let_def s'_def desc_def)
  show "vfs_ok s'" using vfs_ok_set [OF vfs_ok_world [OF assms(7), of w'], of "Some desc" k] by (simp add: s'_def desc_def)
  show "file_get_descriptor (int k + 1) s' = Some desc"
    using assms(7,9) by (simp add: file_get_descriptor_def vfs_ok_def s'_def)
qed (simp_all add: s'_def desc_def)

section \<open>The contract of a filesystem\<close>

text \<open>
  What the file layer may expect: a file has contents; opening finds them, at position 0; a read
  delivers the bytes from the position on and does not move it; a seek does.
\<close>

locale file_store =
  fixes fs :: "'w filesystem_functions"
    and ok :: "'w \<Rightarrow> bool"
    and directory :: "'w \<Rightarrow> u8 list list \<Rightarrow> u8 list option"
    and opened :: "'w \<Rightarrow> addr \<Rightarrow> (u8 list \<times> nat) option"
  assumes open_found: "ok w \<Longrightarrow> directory w parts = Some bs \<Longrightarrow>
      \<exists>p w'. open_file fs w parts FILE_MODE_READ = (p, w') \<and> 0 \<le> sint p \<and> ok w' \<and> opened w' p = Some (bs, 0)"
    and open_missing: "ok w \<Longrightarrow> parts \<noteq> [] \<Longrightarrow> directory w parts = None \<Longrightarrow>
      \<exists>p w'. open_file fs w parts FILE_MODE_READ = (p, w') \<and> sint p < 0 \<and> ok w'"
    and read_opened: "ok w \<Longrightarrow> opened w p = Some (bs, i) \<Longrightarrow> 0 < sint n \<Longrightarrow> i + nat (sint n) \<le> length bs \<Longrightarrow>
      \<exists>w'. read_file fs w disk p n 1 = (1, take (nat (sint n)) (drop i bs), w') \<and> ok w' \<and> opened w' = opened w"
    and seek_opened: "ok w \<Longrightarrow> opened w p = Some (bs, i) \<Longrightarrow> unat offset < length bs \<Longrightarrow>
      \<exists>w'. seek_file fs w p offset SEEK_SET = (ALL_OK, w') \<and> ok w' \<and> opened w' = (opened w)(p := Some (bs, unat offset))"
    and close_opened: "ok w \<Longrightarrow> opened w p = Some b \<Longrightarrow> \<exists>w'. close_file fs w p = (ALL_OK, w') \<and> ok w' \<and> opened w' p = None"
begin

text \<open>A descriptor \<open>fd\<close> of the file layer on an open file of this filesystem at address \<open>a\<close>.\<close>

definition on_file :: "(addr \<Rightarrow> 'w filesystem_functions) \<Rightarrow> 'w vfs \<Rightarrow> int \<Rightarrow> u8 list \<Rightarrow> nat \<Rightarrow> bool" where
  "on_file ops s fd bs i \<longleftrightarrow> ok (world s) \<and> 0 < fd \<and> vfs_ok s \<and>
     (\<exists>desc. file_get_descriptor fd s = Some desc \<and> ops (fd_filesystem desc) = fs \<and> index desc = fd
        \<and> opened (world s) (fd_private desc) = Some (bs, i))"

lemma fread_on_file:
  assumes "on_file ops s fd bs i" "0 < sint n" "i + nat (sint n) \<le> length bs"
  shows "\<exists>s'. fread ops n 1 fd s = (1, take (nat (sint n)) (drop i bs), s') \<and> on_file ops s' fd bs i"
proof -
  obtain desc where desc: "file_get_descriptor fd s = Some desc" "ops (fd_filesystem desc) = fs" "index desc = fd"
      "opened (world s) (fd_private desc) = Some (bs, i)" and ok: "ok (world s)" "0 < fd" "vfs_ok s"
    using assms(1) by (auto simp: on_file_def)
  obtain w' where w': "read_file fs (world s) (fd_disk desc) (fd_private desc) n 1
      = (1, take (nat (sint n)) (drop i bs), w')" "ok w'" "opened w' = opened (world s)"
    using read_opened [OF ok(1) desc(4) assms(2,3)] by blast
  have "n \<noteq> 0" using assms(2) by auto
  then have "fread ops n 1 fd s = (1, take (nat (sint n)) (drop i bs), s\<lparr>world := w'\<rparr>)"
    using desc ok w' by (simp add: fread_def)
  moreover have "on_file ops (s\<lparr>world := w'\<rparr>) fd bs i"
    using desc ok w' by (simp add: on_file_def vfs_ok_world)
  ultimately show ?thesis by blast
qed

lemma fseek_on_file:
  assumes "on_file ops s fd bs i" "0 \<le> offset" "nat offset < length bs" "length bs < 2 ^ 32"
  shows "\<exists>s'. fseek ops fd offset SEEK_SET s = (ALL_OK, s') \<and> on_file ops s' fd bs (nat offset)"
proof -
  obtain desc where desc: "file_get_descriptor fd s = Some desc" "ops (fd_filesystem desc) = fs" "index desc = fd"
      "opened (world s) (fd_private desc) = Some (bs, i)" and ok: "ok (world s)" "0 < fd" "vfs_ok s"
    using assms(1) by (auto simp: on_file_def)
  have u: "unat (word_of_int offset :: u32) = nat offset"
    using assms(2-4) by (simp add: unat_eq_nat_uint uint_word_of_int)
  obtain w' where w': "seek_file fs (world s) (fd_private desc) (word_of_int offset) SEEK_SET = (ALL_OK, w')"
      "ok w'" "opened w' = (opened (world s))(fd_private desc := Some (bs, nat offset))"
    using seek_opened [OF ok(1) desc(4), of "word_of_int offset"] assms(3) u by auto
  have "fseek ops fd offset SEEK_SET s = (ALL_OK, s\<lparr>world := w'\<rparr>)" using desc ok w' by (simp add: fseek_def)
  moreover have "on_file ops (s\<lparr>world := w'\<rparr>) fd bs (nat offset)"
    using desc ok w' by (simp add: on_file_def vfs_ok_world)
  ultimately show ?thesis by blast
qed

lemma fclose_on_file:
  assumes "on_file ops s fd bs i"
  shows "\<exists>s'. fclose ops fd s = (ALL_OK, s') \<and> ok (world s') \<and> vfs_ok s' \<and> file_get_descriptor fd s' = None"
proof -
  obtain desc where desc: "file_get_descriptor fd s = Some desc" "ops (fd_filesystem desc) = fs" "index desc = fd"
      "opened (world s) (fd_private desc) = Some (bs, i)" and ok: "ok (world s)" "0 < fd" "vfs_ok s"
    using assms by (auto simp: on_file_def)
  obtain w' where w': "close_file fs (world s) (fd_private desc) = (ALL_OK, w')" "ok w'"
    using close_opened [OF ok(1) desc(4)] by blast
  let ?s = "file_free_descriptor desc (s\<lparr>world := w'\<rparr>)"
  have "fclose ops fd s = (ALL_OK, ?s)" using desc ok w' by (simp add: fclose_def)
  moreover have "vfs_ok ?s"
    unfolding file_free_descriptor_def
    using vfs_ok_set [OF vfs_ok_world [OF ok(3), of w'], of None "nat (index desc - 1)"] by simp
  moreover have "fd < FILE_DESCRIPTOR" using desc(1) by (auto simp: file_get_descriptor_def split: if_splits)
  then have "file_get_descriptor fd ?s = None"
    using desc(3) ok(2,3) by (simp add: file_get_descriptor_def file_free_descriptor_def vfs_ok_def)
  ultimately show ?thesis using w'(2) by (simp add: file_free_descriptor_def)
qed

text \<open>\<open>fopen\<close> of a file that exists, with a place left below the last one.\<close>

lemma fopen_on_file:
  assumes "ok (world s)" "vfs_ok s" "directory (world s) parts = Some bs" "parts \<noteq> []"
    and "ops a = fs" "a \<noteq> 0" "disk_get d drive \<noteq> 0" "m str = 0x72"
    and "first_slot (\<lambda>fd. fd = None) (file_descriptors s) = Some k" "k < 511"
  shows "\<exists>s'. fopen ops d a True (Some (drive, parts)) m str s = (int k + 1, s') \<and> on_file ops s' (int k + 1) bs 0
    \<and> (\<exists>desc. file_get_descriptor (int k + 1) s' = Some desc \<and> fd_filesystem desc = a
        \<and> open_file fs (world s) parts FILE_MODE_READ = (fd_private desc, world s'))"
proof -
  obtain p w' where o: "open_file fs (world s) parts FILE_MODE_READ = (p, w')" "0 \<le> sint p" "ok w'"
      "opened w' p = Some (bs, 0)"
    using open_found [OF assms(1,3)] by blast
  have "open_file (ops a) (world s) parts FILE_MODE_READ = (p, w')" using o assms(5) by simp
  note opens = fopen_opens [where ops = ops and a = a and m = m and str = str, OF this o(2) assms(4,6-8,2,9,10)]
  show ?thesis using opens o assms(5) by (auto simp: on_file_def)
qed

end

section \<open>The FAT16 driver keeps the contract\<close>

text \<open>
  The contents of a file, as far as they lie in its first cluster; a plain file lies on the disk.
\<close>

definition file_bytes :: "device \<Rightarrow> disk \<Rightarrow> fat_private \<Rightarrow> fat_directory_item \<Rightarrow> u8 list" where
  "file_bytes dev disk p item =
     map (\<lambda>i. disk_byte dev (cluster_position disk p (sint (fat16_get_first_cluster item)) + int i))
       [0..<nat (min (uint (filesize item)) (size_of_cluster_bytes disk p))]"

definition plain_file :: "disk \<Rightarrow> fat_private \<Rightarrow> fat_directory_item \<Rightarrow> bool" where
  "plain_file disk p item \<longleftrightarrow> attribute item AND 0x10 = 0 \<and> 0 \<le> sint (fat16_get_first_cluster item)
     \<and> 0 \<le> cluster_position disk p (sint (fat16_get_first_cluster item))"

text \<open>The last entry of the root directory with a name.\<close>

definition root_entry :: "fat_private \<Rightarrow> u8 list \<Rightarrow> fat_directory_item option" where
  "root_entry p name =
     (let root = root_directory p;
          ms = filter (\<lambda>i. names_equal (fat16_get_full_relative_filename (dir_item root i)) name) [0..<nat (dir_total root)]
      in if ms = [] then None else Some (take 32 (dir_item root (last ms))))"

definition private_ok :: "addr \<Rightarrow> disk \<Rightarrow> fat_private \<Rightarrow> bool" where
  "private_ok d disk p \<longleftrightarrow> stream_ready d (cluster_read_stream p)
     \<and> 0 < size_of_cluster_bytes disk p \<and> size_of_cluster_bytes disk p < 2 ^ 31 \<and> 0 \<le> dir_total (root_directory p)
     \<and> (\<forall>i<nat (dir_total (root_directory p)). plain_file disk p (dir_item (root_directory p) i))"

definition volume_ok :: "addr \<Rightarrow> disk \<Rightarrow> (volume \<Rightarrow> addr) \<Rightarrow> volume option \<Rightarrow> bool" where
  "volume_ok d disk fresh w \<longleftrightarrow> (\<forall>v. 0 \<le> sint (fresh v)) \<and>
     (case w of
        None \<Rightarrow> False
      | Some v \<Rightarrow> private_ok d disk (vol_private v) \<and>
          (\<forall>a desc. vol_files v a = Some desc \<longrightarrow> item_type (desc_item desc) = FAT_ITEM_TYPE_FILE
             \<and> (\<exists>item. content (desc_item desc) = Item (Some item) \<and> plain_file disk (vol_private v) item)))"

definition volume_directory :: "device \<Rightarrow> disk \<Rightarrow> volume option \<Rightarrow> u8 list list \<Rightarrow> u8 list option" where
  "volume_directory dev disk w parts =
     (case (w, parts) of
        (Some v, [name]) \<Rightarrow> map_option (file_bytes dev disk (vol_private v)) (root_entry (vol_private v) name)
      | _ \<Rightarrow> None)"

definition content_bytes :: "device \<Rightarrow> disk \<Rightarrow> fat_private \<Rightarrow> fat_content \<Rightarrow> u8 list" where
  "content_bytes dev disk p c = (case c of Item (Some item) \<Rightarrow> file_bytes dev disk p item | _ \<Rightarrow> [])"

definition volume_opened :: "device \<Rightarrow> disk \<Rightarrow> volume option \<Rightarrow> addr \<Rightarrow> (u8 list \<times> nat) option" where
  "volume_opened dev disk w a =
     (case w of
        None \<Rightarrow> None
      | Some v \<Rightarrow> map_option (\<lambda>desc. (content_bytes dev disk (vol_private v) (content (desc_item desc)), unat (desc_pos desc)))
          (vol_files v a))"

lemma take_item_fields [simp]:
  "attribute (take 32 item) = attribute item" "filesize (take 32 item) = filesize item"
  "fat16_get_first_cluster (take 32 item) = fat16_get_first_cluster item"
  by (simp_all add: attribute_def filesize_def fat16_get_first_cluster_def high_16_bits_first_cluster_def
      low_16_bits_first_cluster_def le16_def le32_def)

lemma file_bytes_stream [simp]:
  "file_bytes dev disk (p\<lparr>cluster_read_stream := so\<rparr>) item = file_bytes dev disk p item"
  "plain_file disk (p\<lparr>cluster_read_stream := so\<rparr>) item = plain_file disk p item"
  by (simp_all add: file_bytes_def plain_file_def cluster_position_def fat16_cluster_to_sector_def
      size_of_cluster_bytes_def)

lemma content_bytes_simps [simp]:
  "content_bytes dev disk p (Item (Some item)) = file_bytes dev disk p item"
  "content_bytes dev disk (p\<lparr>cluster_read_stream := so\<rparr>) c = content_bytes dev disk p c"
  by (simp_all add: content_bytes_def split: fat_content.split option.split)

lemma private_ok_stream:
  "private_ok d disk p \<Longrightarrow> stream_ready d (Some s) \<Longrightarrow> private_ok d disk (p\<lparr>cluster_read_stream := Some s\<rparr>)"
  by (simp add: private_ok_def size_of_cluster_bytes_def)

lemma length_file_bytes:
  "length (file_bytes dev disk p item) = nat (min (uint (filesize item)) (size_of_cluster_bytes disk p))"
  by (simp add: file_bytes_def)

lemma root_entry_plain:
  assumes "private_ok d disk p" "root_entry p name = Some item" shows "plain_file disk p item"
proof -
  let ?ms = "filter (\<lambda>i. names_equal (fat16_get_full_relative_filename (dir_item (root_directory p) i)) name)
      [0..<nat (dir_total (root_directory p))]"
  have "?ms \<noteq> []" and item: "item = take 32 (dir_item (root_directory p) (last ?ms))"
    using assms(2) by (auto simp: root_entry_def Let_def split: if_splits)
  then have "last ?ms \<in> set ?ms" by (intro last_in_set)
  then have "last ?ms < nat (dir_total (root_directory p))" by auto
  then have "plain_file disk p (dir_item (root_directory p) (last ?ms))"
    using assms(1) by (simp add: private_ok_def)
  then show ?thesis by (simp add: item plain_file_def)
qed

lemma fat16_open_root:
  assumes "private_ok d disk p"
  shows "fat16_open dev d (\<lambda>_. True) disk p [name] FILE_MODE_READ =
    Some (case root_entry p name of None \<Rightarrow> Inl EIO
      | Some item \<Rightarrow> Inr \<lparr>desc_item = \<lparr>content = Item (Some item), item_type = FAT_ITEM_TYPE_FILE\<rparr>, desc_pos = 0\<rparr>, p)"
proof -
  let ?n = "nat (dir_total (root_directory p))"
  have "attribute (dir_item (root_directory p) i) AND 0x10 = 0" if "i < ?n" for i
    using assms that by (simp add: private_ok_def plain_file_def)
  from find_item_loop_last [of "\<lambda>_. True" ?n "root_directory p" dev d disk name p, OF TrueI this]
  show ?thesis
    by (simp add: fat16_open_def fat16_get_directory_entry_def fat16_find_item_in_directory_def root_entry_def Let_def)
qed

lemma fat16_open_deeper:
  assumes "private_ok d disk p"
  shows "fat16_open dev d (\<lambda>_. True) disk p (name # name' # parts) FILE_MODE_READ = Some (Inl EIO, p)"
proof -
  let ?n = "nat (dir_total (root_directory p))"
  have "attribute (dir_item (root_directory p) i) AND 0x10 = 0" if "i < ?n" for i
    using assms that by (simp add: private_ok_def plain_file_def)
  from find_item_loop_last [of "\<lambda>_. True" ?n "root_directory p" dev d disk name p, OF TrueI this]
  show ?thesis
    by (simp add: fat16_open_def fat16_get_directory_entry_def fat16_find_item_in_directory_def Let_def)
qed

lemma volume_okD:
  assumes "volume_ok d disk fresh (Some v)"
  shows "private_ok d disk (vol_private v)" "0 \<le> sint (fresh u)"
    "vol_files v a = Some desc \<Longrightarrow> item_type (desc_item desc) = FAT_ITEM_TYPE_FILE"
    "vol_files v a = Some desc \<Longrightarrow> \<exists>item. content (desc_item desc) = Item (Some item) \<and> plain_file disk (vol_private v) item"
  using assms by (simp_all add: volume_ok_def)

lemma volume_read:
  assumes ok: "volume_ok d disk fresh w" and opened: "volume_opened dev disk w a = Some (bs, i)"
    and n: "0 < sint n" "i + nat (sint n) \<le> length bs"
  shows "\<exists>w'. read_file (fat16_functions dev d (\<lambda>_. True) disk fresh) w disk_addr a n 1 = (1, take (nat (sint n)) (drop i bs), w')
    \<and> volume_ok d disk fresh w' \<and> volume_opened dev disk w' = volume_opened dev disk w"
proof -
  obtain v desc where w: "w = Some v" and f: "vol_files v a = Some desc" and i: "i = unat (desc_pos desc)"
    using opened by (auto simp: volume_opened_def split: option.splits)
  let ?p = "vol_private v"
  have p: "private_ok d disk ?p" using ok unfolding w by (rule volume_okD)
  obtain item where item: "content (desc_item desc) = Item (Some item)" "plain_file disk ?p item"
    using volume_okD(4) [OF ok [unfolded w] f] by blast
  have bs: "bs = file_bytes dev disk ?p item" using opened by (simp add: volume_opened_def w f item)
  let ?c = "size_of_cluster_bytes disk ?p"
  have len: "int (length bs) \<le> ?c" using p by (simp add: bs length_file_bytes private_ok_def)
  have "int i < 2 ^ 31" using n len p by (auto simp: private_ok_def)
  then have pos: "sint (desc_pos desc) = int i"
    using i sint_word_of_int_small [of "uint (desc_pos desc)"] uint_ge_0 [of "desc_pos desc"] by simp
  have small: "int i < ?c" "sint n \<le> ?c" using n len by linarith+
  obtain s' where s': "stream_ready d (Some s')" and r: "fat16_read dev d disk ?p desc n 1 =
      Some (1, map (\<lambda>j. disk_byte dev (cluster_position disk ?p (sint (fat16_get_first_cluster item)) + int i + int j))
        [0..<nat (sint n)], ?p\<lparr>cluster_read_stream := Some s'\<rparr>)"
    using read_one_cluster [of d ?p disk item n desc dev] p item n(1) small pos
    by (auto simp: private_ok_def plain_file_def)
  let ?w = "Some (v\<lparr>vol_private := ?p\<lparr>cluster_read_stream := Some s'\<rparr>\<rparr>)"
  have "map (\<lambda>j. disk_byte dev (cluster_position disk ?p (sint (fat16_get_first_cluster item)) + int i + int j))
        [0..<nat (sint n)] = take (nat (sint n)) (drop i bs)"
    using n(2) by (intro nth_equalityI) (auto simp: bs file_bytes_def add.assoc)
  then have "read_file (fat16_functions dev d (\<lambda>_. True) disk fresh) w disk_addr a n 1 = (1, take (nat (sint n)) (drop i bs), ?w)"
    using f r by (simp add: fat16_functions_def w)
  moreover have "volume_ok d disk fresh ?w" using ok private_ok_stream [OF p s'] by (simp add: volume_ok_def w)
  moreover have "volume_opened dev disk ?w = volume_opened dev disk w"
    by (rule ext) (simp add: volume_opened_def w)
  ultimately show ?thesis by blast
qed

lemma volume_seek:
  assumes ok: "volume_ok d disk fresh w" and opened: "volume_opened dev disk w a = Some (bs, i)"
    and off: "unat offset < length bs"
  shows "\<exists>w'. seek_file (fat16_functions dev d (\<lambda>_. True) disk fresh) w a offset SEEK_SET = (ALL_OK, w')
    \<and> volume_ok d disk fresh w' \<and> volume_opened dev disk w' = (volume_opened dev disk w)(a := Some (bs, unat offset))"
proof -
  obtain v desc where w: "w = Some v" and f: "vol_files v a = Some desc"
    using opened by (auto simp: volume_opened_def split: option.splits)
  obtain item where item: "content (desc_item desc) = Item (Some item)" "plain_file disk (vol_private v) item"
    using volume_okD(4) [OF ok [unfolded w] f] by blast
  have bs: "bs = file_bytes dev disk (vol_private v) item" using opened by (simp add: volume_opened_def w f item)
  have "nat (min (uint (filesize item)) c) \<le> unat (filesize item)" for c
    unfolding unat_eq_nat_uint by (rule nat_mono) simp
  then have "unat offset < unat (filesize item)" using off by (metis bs length_file_bytes less_le_trans)
  then have "\<not> filesize item \<le> offset" by (simp add: word_le_nat_alt)
  then have "fat16_seek desc offset SEEK_SET = Some (ALL_OK, desc\<lparr>desc_pos := offset\<rparr>)"
    using volume_okD(3) [OF ok [unfolded w] f] item by (simp add: fat16_seek_def)
  then have "seek_file (fat16_functions dev d (\<lambda>_. True) disk fresh) w a offset SEEK_SET
      = (ALL_OK, Some (v\<lparr>vol_files := (vol_files v)(a := Some (desc\<lparr>desc_pos := offset\<rparr>))\<rparr>))"
    using f by (simp add: fat16_functions_def w)
  moreover have "volume_ok d disk fresh (Some (v\<lparr>vol_files := (vol_files v)(a := Some (desc\<lparr>desc_pos := offset\<rparr>))\<rparr>))"
    using ok f by (simp add: volume_ok_def w)
  moreover have "volume_opened dev disk (Some (v\<lparr>vol_files := (vol_files v)(a := Some (desc\<lparr>desc_pos := offset\<rparr>))\<rparr>))
      = (volume_opened dev disk w)(a := Some (bs, unat offset))"
    by (rule ext) (simp add: volume_opened_def w bs item)
  ultimately show ?thesis by blast
qed

lemma volume_close:
  assumes ok: "volume_ok d disk fresh w" and opened: "volume_opened dev disk w a = Some b"
  shows "\<exists>w'. close_file (fat16_functions dev d (\<lambda>_. True) disk fresh) w a = (ALL_OK, w')
    \<and> volume_ok d disk fresh w' \<and> volume_opened dev disk w' a = None"
proof -
  obtain v desc where w: "w = Some v" and f: "vol_files v a = Some desc"
    using opened by (auto simp: volume_opened_def split: option.splits)
  obtain item where item: "content (desc_item desc) = Item (Some item)"
    using volume_okD(4) [OF ok [unfolded w] f] by blast
  then have "fat16_close desc = Some (ALL_OK, [Item_copy, Item_block, Descriptor_block])"
    using volume_okD(3) [OF ok [unfolded w] f]
    by (simp add: fat16_close_def fat16_free_file_descriptor_def fat16_fat_item_free_def)
  then have "close_file (fat16_functions dev d (\<lambda>_. True) disk fresh) w a
      = (ALL_OK, Some (v\<lparr>vol_files := (vol_files v)(a := None)\<rparr>))"
    using f by (simp add: fat16_functions_def w)
  moreover have "volume_ok d disk fresh (Some (v\<lparr>vol_files := (vol_files v)(a := None)\<rparr>))"
    using ok by (simp add: volume_ok_def w)
  ultimately show ?thesis by (auto simp: volume_opened_def w)
qed

lemma volume_open:
  assumes ok: "volume_ok d disk fresh w" and dir: "volume_directory dev disk w parts = Some bs"
  shows "\<exists>p w'. open_file (fat16_functions dev d (\<lambda>_. True) disk fresh) w parts FILE_MODE_READ = (p, w')
    \<and> 0 \<le> sint p \<and> volume_ok d disk fresh w' \<and> volume_opened dev disk w' p = Some (bs, 0)"
proof -
  obtain v name item where w: "w = Some v" and parts: "parts = [name]" and item: "root_entry (vol_private v) name = Some item"
    and bs: "bs = file_bytes dev disk (vol_private v) item"
    using dir by (auto simp: volume_directory_def split: option.splits list.splits)
  let ?desc = "\<lparr>desc_item = \<lparr>content = Item (Some item), item_type = FAT_ITEM_TYPE_FILE\<rparr>, desc_pos = 0\<rparr>"
  note p = volume_okD(1) [OF ok [unfolded w]]
  have "open_file (fat16_functions dev d (\<lambda>_. True) disk fresh) w parts FILE_MODE_READ
      = (fresh v, Some (v\<lparr>vol_files := (vol_files v)(fresh v := Some ?desc)\<rparr>))"
    using fat16_open_root [OF p, of dev name] item by (simp add: fat16_functions_def w parts)
  moreover have "volume_ok d disk fresh (Some (v\<lparr>vol_files := (vol_files v)(fresh v := Some ?desc)\<rparr>))"
    using ok root_entry_plain [OF p item] by (simp add: volume_ok_def w)
  moreover have "0 \<le> sint (fresh v)" using ok unfolding w by (rule volume_okD)
  ultimately show ?thesis by (simp add: volume_opened_def bs)
qed

lemma volume_open_missing:
  assumes ok: "volume_ok d disk fresh w" and dir: "parts \<noteq> []" "volume_directory dev disk w parts = None"
  shows "\<exists>p w'. open_file (fat16_functions dev d (\<lambda>_. True) disk fresh) w parts FILE_MODE_READ = (p, w')
    \<and> sint p < 0 \<and> volume_ok d disk fresh w'"
proof -
  obtain v where w: "w = Some v" using ok by (cases w) (auto simp: volume_ok_def)
  note p = volume_okD(1) [OF ok [unfolded w]]
  have "fat16_open dev d (\<lambda>_. True) disk (vol_private v) parts FILE_MODE_READ = Some (Inl EIO, vol_private v)"
  proof (cases parts rule: remdups_adj.cases)
    case (2 name)
    then show ?thesis using fat16_open_root [OF p, of dev name] dir(2) by (simp add: volume_directory_def w)
  next
    case (3 name name' rest)
    then show ?thesis using fat16_open_deeper [OF p] by simp
  qed (use dir in simp)
  then have "open_file (fat16_functions dev d (\<lambda>_. True) disk fresh) w parts FILE_MODE_READ
      = (word_of_int (- errno EIO), w)"
    by (simp add: fat16_functions_def w)
  moreover have "sint (word_of_int (- errno EIO) :: u32) < 0" by simp
  ultimately show ?thesis using ok by blast
qed

interpretation fat16: file_store "fat16_functions dev d (\<lambda>_. True) disk fresh" "volume_ok d disk fresh"
    "volume_directory dev disk" "volume_opened dev disk" for dev d disk fresh
  by unfold_locales (fact volume_open volume_open_missing volume_read volume_seek volume_close)+

section \<open>Properties\<close>


text \<open>The file \<open>A\<close> of the small volume, whose sectors hold their numbers.\<close>

definition sample_volume :: "volume option vfs" where
  "sample_volume = \<lparr>filesystems = replicate 12 0, file_descriptors = replicate 512 None,
     world = Some \<lparr>vol_private = sample_private, vol_files = \<lambda>_. None\<rparr>\<rparr>"

lemma sample_bytes: "file_bytes sample_device sample_disk sample_private sample_item = replicate 512 10"
proof -
  have size: "filesize sample_item = 1024" by (simp add: filesize_def le32_def sample_item_def)
  have "disk_byte sample_device (5120 + int i) = 10" if "i < 512" for i
  proof -
    have "(5120 + int i) div 512 = 10" using that by simp
    then show ?thesis using that by (simp add: disk_byte_def sample_device_def)
  qed
  then show ?thesis
    by (intro nth_equalityI) (simp_all add: file_bytes_def size sample_first_cluster sample_cluster_bytes sample_cluster_position)
qed

lemma sample_private_ok: "private_ok 0x9000 sample_disk sample_private"
proof -
  have "dir_item (root_directory sample_private) 0 = sample_item" "dir_total (root_directory sample_private) = 1"
    by (simp_all add: dir_item_def sample_private_def)
  moreover have "attribute sample_item = 0x20" by (simp add: attribute_def sample_item_def)
  ultimately show ?thesis
    using sample_streams(1) by (simp add: private_ok_def plain_file_def sample_first_cluster sample_cluster_bytes sample_cluster_position)
qed

lemma sample_entry: "root_entry sample_private [0x61] = Some sample_item"
proof -
  have "dir_item (root_directory sample_private) 0 = sample_item" "nat (dir_total (root_directory sample_private)) = 1"
    by (simp_all add: dir_item_def sample_private_def)
  moreover have "names_equal [0x41] [0x61]" by (simp add: names_equal_iff tolower_def)
  ultimately show ?thesis by (simp add: root_entry_def sample_name)
qed

end
