(* ===== verification/Elf.thy ===== *)
theory Elf
  imports File Heap
begin

unbundle bit_operations_syntax

text \<open>
  The ELF loader (\<^verbatim>\<open>src/loader/format/elfloader.c\<close>, \<^verbatim>\<open>src/loader/format/elf.h\<close>). The file lies in
  the physical memory; a header is its address, with one reader for each field at its offset in
  the packed structure.
\<close>

section \<open>Headers\<close>

definition e_ident :: "mem \<Rightarrow> addr \<Rightarrow> u32 \<Rightarrow> u8" where "e_ident m h i = m (h + i)"
definition e_type :: "mem \<Rightarrow> addr \<Rightarrow> u16" where "e_type m h = read16 m (h + 16)"
definition e_entry :: "mem \<Rightarrow> addr \<Rightarrow> u32" where "e_entry m h = read32 m (h + 24)"
definition e_phoff :: "mem \<Rightarrow> addr \<Rightarrow> u32" where "e_phoff m h = read32 m (h + 28)"
definition e_shoff :: "mem \<Rightarrow> addr \<Rightarrow> u32" where "e_shoff m h = read32 m (h + 32)"
definition e_phnum :: "mem \<Rightarrow> addr \<Rightarrow> u16" where "e_phnum m h = read16 m (h + 44)"
definition e_shstrndx :: "mem \<Rightarrow> addr \<Rightarrow> u16" where "e_shstrndx m h = read16 m (h + 50)"

definition p_type :: "mem \<Rightarrow> addr \<Rightarrow> u32" where "p_type m p = read32 m p"
definition p_offset :: "mem \<Rightarrow> addr \<Rightarrow> u32" where "p_offset m p = read32 m (p + 4)"
definition p_vaddr :: "mem \<Rightarrow> addr \<Rightarrow> u32" where "p_vaddr m p = read32 m (p + 8)"
definition p_filesz :: "mem \<Rightarrow> addr \<Rightarrow> u32" where "p_filesz m p = read32 m (p + 16)"
definition p_memsz :: "mem \<Rightarrow> addr \<Rightarrow> u32" where "p_memsz m p = read32 m (p + 20)"
definition p_flags :: "mem \<Rightarrow> addr \<Rightarrow> u32" where "p_flags m p = read32 m (p + 24)"

definition sh_offset :: "mem \<Rightarrow> addr \<Rightarrow> u32" where "sh_offset m p = read32 m (p + 16)"

record elf_file =
  elf_memory :: addr
  virtual_base_address :: addr
  virtual_end_address :: addr
  physical_base_address :: addr
  physical_end_address :: addr

section \<open>Validation\<close>

definition elf_valid_signature :: "mem \<Rightarrow> addr \<Rightarrow> bool" where
  "elf_valid_signature m h \<longleftrightarrow> m h = 0x7f \<and> m (h + 1) = 0x45 \<and> m (h + 2) = 0x4C \<and> m (h + 3) = 0x46"

definition elf_valid_class :: "mem \<Rightarrow> addr \<Rightarrow> bool" where
  "elf_valid_class m h \<longleftrightarrow> e_ident m h 4 = 0 \<or> e_ident m h 4 = 1"

definition elf_valid_encoding :: "mem \<Rightarrow> addr \<Rightarrow> bool" where
  "elf_valid_encoding m h \<longleftrightarrow> e_ident m h 5 = 0 \<or> e_ident m h 5 = 1"

definition elf_is_executable :: "mem \<Rightarrow> addr \<Rightarrow> bool" where
  "elf_is_executable m h \<longleftrightarrow> e_type m h = 2 \<and> PROGRAM_VIRTUAL_ADDRESS \<le> e_entry m h"

definition elf_has_program_header :: "mem \<Rightarrow> addr \<Rightarrow> bool" where
  "elf_has_program_header m h \<longleftrightarrow> e_phoff m h \<noteq> 0"

definition elf_validate_loaded :: "mem \<Rightarrow> addr \<Rightarrow> status" where
  "elf_validate_loaded m h =
     (if elf_valid_signature m h \<and> elf_valid_class m h \<and> elf_valid_encoding m h
         \<and> elf_has_program_header m h
      then ALL_OK else Inl EINFORMAT)"

section \<open>Parts of the file\<close>

definition elf_header :: "elf_file \<Rightarrow> addr" where
  "elf_header file = elf_memory file"

definition elf_sheader :: "mem \<Rightarrow> addr \<Rightarrow> addr" where
  "elf_sheader m h = h + e_shoff m h"

definition elf_pheader :: "mem \<Rightarrow> addr \<Rightarrow> addr" where
  "elf_pheader m h = (if e_phoff m h = 0 then 0 else h + e_phoff m h)"

definition elf_program_header :: "mem \<Rightarrow> addr \<Rightarrow> nat \<Rightarrow> addr" where
  "elf_program_header m h i = elf_pheader m h + 32 * of_nat i"

definition elf_section :: "mem \<Rightarrow> addr \<Rightarrow> nat \<Rightarrow> addr" where
  "elf_section m h i = elf_sheader m h + 40 * of_nat i"

definition elf_phdr_phys_address :: "mem \<Rightarrow> elf_file \<Rightarrow> addr \<Rightarrow> addr" where
  "elf_phdr_phys_address m file phdr = elf_memory file + p_offset m phdr"

definition elf_str_table :: "mem \<Rightarrow> addr \<Rightarrow> addr" where
  "elf_str_table m h = h + sh_offset m (elf_section m h (unat (e_shstrndx m h)))"

definition elf_get_entry_ptr :: "mem \<Rightarrow> addr \<Rightarrow> addr" where "elf_get_entry_ptr m h = e_entry m h"
definition elf_get_entry :: "mem \<Rightarrow> addr \<Rightarrow> u32" where "elf_get_entry m h = e_entry m h"

text \<open>The range of the loaded segments.\<close>

definition elf_virtual_base :: "elf_file \<Rightarrow> addr" where "elf_virtual_base file = virtual_base_address file"
definition elf_virtual_end :: "elf_file \<Rightarrow> addr" where "elf_virtual_end file = virtual_end_address file"
definition elf_phys_base :: "elf_file \<Rightarrow> addr" where "elf_phys_base file = physical_base_address file"
definition elf_phys_end :: "elf_file \<Rightarrow> addr" where "elf_phys_end file = physical_end_address file"

section \<open>Loading\<close>

definition elf_process_phdr_pt_load :: "mem \<Rightarrow> elf_file \<Rightarrow> addr \<Rightarrow> elf_file" where
  "elf_process_phdr_pt_load m elf_file phdr =
     (let elf_file =
            (if p_vaddr m phdr \<le> virtual_base_address elf_file \<or> virtual_base_address elf_file = 0
             then elf_file\<lparr>virtual_base_address := p_vaddr m phdr,
                           physical_base_address := elf_memory elf_file + p_offset m phdr\<rparr>
             else elf_file);
          end_virtual_address = p_vaddr m phdr + p_filesz m phdr
      in if virtual_end_address elf_file \<le> end_virtual_address \<or> virtual_end_address elf_file = 0
         then elf_file\<lparr>virtual_end_address := end_virtual_address,
                       physical_end_address := elf_memory elf_file + p_offset m phdr + p_filesz m phdr\<rparr>
         else elf_file)"

definition elf_process_pheader :: "mem \<Rightarrow> elf_file \<Rightarrow> addr \<Rightarrow> elf_file" where
  "elf_process_pheader m elf_file phdr =
     (if p_type m phdr = 1 then elf_process_phdr_pt_load m elf_file phdr else elf_file)"

text \<open>No program header is ever an error, so the loop visits them all.\<close>

definition elf_process_pheaders :: "mem \<Rightarrow> elf_file \<Rightarrow> elf_file" where
  "elf_process_pheaders m elf_file =
     (let h = elf_header elf_file
      in fold (\<lambda>i elf_file. elf_process_pheader m elf_file (elf_program_header m h i))
           [0..<unat (e_phnum m h)] elf_file)"

definition elf_process_loaded :: "mem \<Rightarrow> elf_file \<Rightarrow> status \<times> elf_file" where
  "elf_process_loaded m elf_file =
     (case elf_validate_loaded m (elf_header elf_file) of
        Inl e \<Rightarrow> (Inl e, elf_file)
      | Inr _ \<Rightarrow> (ALL_OK, elf_process_pheaders m elf_file))"

text \<open>
  The structure of a file at its address \<open>file\<close>: after the name and the size come its five
  pointers.
\<close>

definition elf_file_at :: "mem \<Rightarrow> addr \<Rightarrow> elf_file" where
  "elf_file_at m file =
     \<lparr>elf_memory = read32 m (file + 112), virtual_base_address = read32 m (file + 116),
      virtual_end_address = read32 m (file + 120), physical_base_address = read32 m (file + 124),
      physical_end_address = read32 m (file + 128)\<rparr>"

definition put_elf_file :: "mem \<Rightarrow> addr \<Rightarrow> elf_file \<Rightarrow> mem" where
  "put_elf_file m file f =
     write32 (write32 (write32 (write32 (write32 m (file + 112) (elf_memory f))
       (file + 116) (virtual_base_address f)) (file + 120) (virtual_end_address f))
       (file + 124) (physical_base_address f)) (file + 128) (physical_end_address f)"

text \<open>
  The result as the caller sees it: the number, and the address stored through \<open>file_out\<close> when
  there is one. Neither allocation is tested: without memory the structure is at address 0 and the
  file is read to address 0. \<open>root\<close> is the parsed path, \<open>lit_r\<close> the address of the mode string.
\<close>

definition elf_load ::
    "(addr \<Rightarrow> 'w filesystem_functions) \<Rightarrow> addr \<Rightarrow> addr \<Rightarrow> (int \<times> u8 list list) option \<Rightarrow> addr
      \<Rightarrow> mem \<Rightarrow> heap \<Rightarrow> 'w vfs \<Rightarrow> int \<times> addr option \<times> mem \<times> 'w vfs" where
  "elf_load ops the_disk disk_fs root lit_r m h s =
     (let (file, m) = kzalloc m h 132;
          (res, s) = fopen ops the_disk disk_fs (fst (kzalloc m h 16) \<noteq> 0) root m lit_r s
      in if res \<le> 0 then (- errno EIO, None, m, snd (fclose ops 0 s))
         else
           let fd = res;
               (res, stat) = fstat ops fd \<lparr>stat_flags = 0, stat_filesize = 0\<rparr> s
           in case res of
                Inl e \<Rightarrow> (- errno e, None, m, snd (fclose ops fd s))
              | Inr _ \<Rightarrow>
                  let (p, m) = kzalloc m h (stat_filesize stat);
                      m = write32 m (file + 112) p;
                      (n, bytes, s) = fread ops (stat_filesize stat) 1 fd s;
                      m = write_bytes m p bytes
                  in if n < 0 then (n, None, m, snd (fclose ops fd s))
                     else
                       let (res, f) = elf_process_loaded m (elf_file_at m file);
                           m = put_elf_file m file f;
                           s = snd (fclose ops fd s)
                       in (case res of
                             Inl e \<Rightarrow> (- errno e, None, m, s)
                           | Inr _ \<Rightarrow> (0, Some file, m, s)))"

definition elf_close :: "mem \<Rightarrow> heap \<Rightarrow> addr \<Rightarrow> mem" where
  "elf_close m h file =
     (if file = 0 then m
      else let m = kfree m h (read32 m (file + 112)) in kfree m h file)"

section \<open>The bounds of the loaded image\<close>

text \<open>
  The headers that are to be loaded, in order, and the bounds that a run over them keeps.
\<close>

definition load_headers :: "mem \<Rightarrow> addr \<Rightarrow> addr list" where
  "load_headers m h =
     filter (\<lambda>p. p_type m p = 1) (map (elf_program_header m h) [0..<unat (e_phnum m h)])"

lemma fold_pheaders:
  "fold (\<lambda>i. f (g i)) xs s = fold f (map g xs) s"
  by (induction xs arbitrary: s) simp_all

lemma fold_pheader_filter:
  "fold (\<lambda>p f. elf_process_pheader m f p) ps f
   = fold (\<lambda>p f. elf_process_phdr_pt_load m f p) (filter (\<lambda>p. p_type m p = 1) ps) f"
  by (induction ps arbitrary: f) (simp_all add: elf_process_pheader_def)

lemma elf_process_pheaders_load:
  "elf_process_pheaders m f = fold (\<lambda>p f. elf_process_phdr_pt_load m f p) (load_headers m (elf_memory f)) f"
  unfolding elf_process_pheaders_def Let_def load_headers_def elf_header_def
  using fold_pheaders [of "\<lambda>p f. elf_process_pheader m f p"] by (simp add: fold_pheader_filter)

text \<open>One header: the new base is the smaller, the new end the larger, 0 standing for unset.\<close>

lemma pt_load_fields:
  "virtual_base_address (elf_process_phdr_pt_load m f p) =
     (if virtual_base_address f = 0 then p_vaddr m p else min (virtual_base_address f) (p_vaddr m p))"
  "virtual_end_address (elf_process_phdr_pt_load m f p) =
     max (virtual_end_address f) (p_vaddr m p + p_filesz m p)"
  "elf_memory (elf_process_phdr_pt_load m f p) = elf_memory f"
  by (auto simp: elf_process_phdr_pt_load_def Let_def min_def max_def)

lemma pt_load_memory [simp]:
  "elf_memory (fold (\<lambda>p f. elf_process_phdr_pt_load m f p) ps f) = elf_memory f"
  by (induction ps arbitrary: f) (simp_all add: pt_load_fields)

lemma pt_load_base_set:
  "virtual_base_address f \<noteq> 0 \<Longrightarrow> \<forall>p\<in>set ps. p_vaddr m p \<noteq> 0 \<Longrightarrow>
   virtual_base_address (fold (\<lambda>p f. elf_process_phdr_pt_load m f p) ps f)
     = Min (insert (virtual_base_address f) (p_vaddr m ` set ps))"
proof (induction ps arbitrary: f)
  case (Cons p ps)
  let ?f = "elf_process_phdr_pt_load m f p"
  have b: "virtual_base_address ?f = min (virtual_base_address f) (p_vaddr m p)"
    using Cons.prems(1) by (simp add: pt_load_fields)
  then have "virtual_base_address ?f \<noteq> 0" using Cons.prems by (simp add: min_def)
  then have "virtual_base_address (fold (\<lambda>p f. elf_process_phdr_pt_load m f p) ps ?f)
      = Min (insert (min (virtual_base_address f) (p_vaddr m p)) (p_vaddr m ` set ps))"
    using Cons.IH [of ?f] Cons.prems b by simp
  then show ?case by (cases "ps = []") (auto simp: min.assoc)
qed simp

lemma pt_load_end_set:
  "virtual_end_address (fold (\<lambda>p f. elf_process_phdr_pt_load m f p) ps f)
     = Max (insert (virtual_end_address f) ((\<lambda>p. p_vaddr m p + p_filesz m p) ` set ps))"
proof (induction ps arbitrary: f)
  case (Cons p ps)
  then show ?case by (cases "ps = []") (auto simp: pt_load_fields max.assoc)
qed simp

section \<open>Properties\<close>

text \<open>
  C33: Over a validated file whose loadable segments start above address 0, the loader finds the
  lowest start and the highest end (in the file's sizes) of all of them, whatever their order.
\<close>
theorem elf_bounds:
  assumes "elf_validate_loaded m (elf_memory f) = ALL_OK"
    and "virtual_base_address f = 0" "virtual_end_address f = 0"
    and "load_headers m (elf_memory f) \<noteq> []" "\<forall>p\<in>set (load_headers m (elf_memory f)). p_vaddr m p \<noteq> 0"
  shows "\<exists>f'. elf_process_loaded m f = (ALL_OK, f') \<and> elf_memory f' = elf_memory f
    \<and> virtual_base_address f' = Min (p_vaddr m ` set (load_headers m (elf_memory f)))
    \<and> virtual_end_address f' = Max ((\<lambda>p. p_vaddr m p + p_filesz m p) ` set (load_headers m (elf_memory f)))"
proof -
  obtain p ps where ps: "load_headers m (elf_memory f) = p # ps"
    using assms(4) by (cases "load_headers m (elf_memory f)") auto
  let ?f = "elf_process_phdr_pt_load m f p"
  have "virtual_base_address ?f = p_vaddr m p" "virtual_end_address ?f = p_vaddr m p + p_filesz m p"
    "elf_memory ?f = elf_memory f"
    using assms(2,3) by (simp_all add: pt_load_fields)
  then show ?thesis
    using assms(1,5) pt_load_base_set [of ?f ps m] pt_load_end_set [of m ps ?f] ps
    by (simp add: elf_process_loaded_def elf_header_def elf_process_pheaders_load)
qed

text \<open>A file with two segments, the second one lower.\<close>

definition sample_elf :: mem where
  "sample_elf = write_bytes (\<lambda>_. 0) 0
     ([0x7f, 0x45, 0x4C, 0x46, 1, 1] @ replicate 22 0 @ [52, 0, 0, 0] @ replicate 12 0 @ [2, 0, 0, 0, 0, 0, 0, 0]
      @ [1, 0, 0, 0, 0, 0, 0, 0, 0, 0, 0x41, 0, 0, 0, 0, 0, 0x10, 0, 0, 0] @ replicate 12 0
      @ [1, 0, 0, 0, 0, 0, 0, 0, 0, 0, 0x40, 0, 0, 0, 0, 0, 0x20, 0, 0, 0] @ replicate 12 0)"

definition sample_elf_file :: elf_file where
  "sample_elf_file = \<lparr>elf_memory = 0, virtual_base_address = 0, virtual_end_address = 0,
     physical_base_address = 0, physical_end_address = 0\<rparr>"

lemma sample_elf_headers:
  "load_headers sample_elf 0 = [52, 84]" "elf_validate_loaded sample_elf 0 = ALL_OK"
  "p_vaddr sample_elf 52 = 0x410000" "p_vaddr sample_elf 84 = 0x400000"
  "p_filesz sample_elf 52 = 0x10" "p_filesz sample_elf 84 = 0x20"
  by code_simp+

theorem elf_bounds_witness:
  "\<exists>f'. elf_process_loaded sample_elf sample_elf_file = (ALL_OK, f')
    \<and> elf_memory f' = 0 \<and> virtual_base_address f' = 0x400000 \<and> virtual_end_address f' = 0x410010"
  using elf_bounds [of sample_elf sample_elf_file]
  by (simp add: sample_elf_file_def sample_elf_headers)

end
