(* ===== verification/Elf_File.thy ===== *)
theory Elf_File
  imports Volume Elf
begin

unbundle bit_operations_syntax

text \<open>
  Loading an ELF file from a filesystem: the file layer under the ELF loader, for every filesystem that
  keeps the contract of \<open>Volume\<close> and tells the size of its files, as the FAT16 driver does for files of
  one cluster.
\<close>

section \<open>The structure of the file\<close>

lemma write_bytes_notin: "(\<And>i. i < length bs \<Longrightarrow> a \<noteq> p + of_nat i) \<Longrightarrow> write_bytes m p bs a = m a"
proof (induction bs arbitrary: m p)
  case (Cons b bs)
  have "a \<noteq> p" using Cons.prems [of 0] by simp
  moreover have "a \<noteq> p + 1 + of_nat i" if "i < length bs" for i
    using Cons.prems [of "Suc i"] that by (simp add: ac_simps)
  ultimately show ?case using Cons.IH [of "p + 1"] by simp
qed simp

lemma write32_notin: "(\<And>j. j < 4 \<Longrightarrow> a \<noteq> b + of_nat j) \<Longrightarrow> write32 m b v a = m a"
proof -
  assume ne: "\<And>j. j < 4 \<Longrightarrow> a \<noteq> b + of_nat j"
  show ?thesis using ne [of 0] ne [of 1] ne [of 2] ne [of 3] by (simp add: write32_def)
qed

lemma read32_write_bytes_apart:
  assumes "apart p (length bs) q n" "4 \<le> n" shows "read32 (write_bytes m p bs) q = read32 m q"
proof -
  have "write_bytes m p bs (q + of_nat j) = m (q + of_nat j)" if "j < 4" for j
    using apartD [OF assms(1), of _ j] assms(2) that by (intro write_bytes_notin) force
  from this [of 0] this [of 1] this [of 2] this [of 3] show ?thesis by (simp add: read32_def)
qed

lemma put_elf_file_notin:
  assumes "\<And>j. j < 20 \<Longrightarrow> a \<noteq> file + 112 + of_nat j" shows "put_elf_file m file f a = m a"
proof -
  have "write32 m' (file + 112 + of_nat k) v a = m' a" if "k \<le> 16" for m' k v
  proof (rule write32_notin)
    fix j :: nat assume "j < 4"
    then have "a \<noteq> file + 112 + of_nat (k + j)" using assms [of "k + j"] that by simp
    then show "a \<noteq> file + 112 + of_nat k + of_nat j" by (simp add: ac_simps)
  qed
  from this [of 0] this [of 4] this [of 8] this [of 12] this [of 16] show ?thesis by (simp add: put_elf_file_def ac_simps)
qed

lemma elf_memory_put [simp]: "elf_memory (elf_file_at (put_elf_file m file f) file) = elf_memory f"
  by (simp add: elf_file_at_def put_elf_file_def read32_write32_other)

lemma elf_process_loaded_ok:
  assumes "elf_validate_loaded m (elf_memory f) = ALL_OK"
  shows "\<exists>f'. elf_process_loaded m f = (ALL_OK, f') \<and> elf_memory f' = elf_memory f"
  using assms by (simp add: elf_process_loaded_def elf_header_def elf_process_pheaders_load)

section \<open>A filesystem that knows its sizes\<close>

locale sized_store = file_store +
  fixes whole :: "'a \<Rightarrow> u8 list list \<Rightarrow> bool"
  assumes stat_open: "ok w \<Longrightarrow> directory w parts = Some bs \<Longrightarrow> whole w parts \<Longrightarrow>
      open_file fs w parts FILE_MODE_READ = (p, w') \<Longrightarrow>
      \<exists>st. stat_file fs w' disk p stat = (ALL_OK, st) \<and> stat_filesize st = of_nat (length bs)"
begin

lemma fopen_fstat:
  assumes "ok (world s)" "vfs_ok s" "directory (world s) parts = Some bs" "whole (world s) parts" "parts \<noteq> []"
    and "ops a = fs" "a \<noteq> 0" "disk_get d drive \<noteq> 0" "m str = 0x72"
    and "first_slot (\<lambda>fd. fd = None) (file_descriptors s) = Some k" "k < 511"
  shows "\<exists>s' st. fopen ops d a True (Some (drive, parts)) m str s = (int k + 1, s') \<and> on_file ops s' (int k + 1) bs 0
    \<and> fstat ops (int k + 1) stat s' = (ALL_OK, st) \<and> stat_filesize st = of_nat (length bs)"
proof -
  obtain s' desc where s': "fopen ops d a True (Some (drive, parts)) m str s = (int k + 1, s')" "on_file ops s' (int k + 1) bs 0"
      "file_get_descriptor (int k + 1) s' = Some desc" "fd_filesystem desc = a"
      "open_file fs (world s) parts FILE_MODE_READ = (fd_private desc, world s')"
    using fopen_on_file [where ops = ops and a = a and m = m and str = str, OF assms(1-3,5-11)] by blast
  obtain st where "stat_file fs (world s') (fd_disk desc) (fd_private desc) stat = (ALL_OK, st)"
      "stat_filesize st = of_nat (length bs)"
    using stat_open [OF assms(1,3,4) s'(5)] by blast
  then show ?thesis using s' assms(6) by (auto simp: fstat_def)
qed

text \<open>The whole file is read into the block the loader allocates, and the structure of the file points to it.\<close>

lemma elf_load_reads:
  assumes "ok (world s)" "vfs_ok s" "directory (world s) parts = Some bs" "whole (world s) parts" "parts \<noteq> []"
    and "ops a = fs" "a \<noteq> 0" "disk_get d drive \<noteq> 0"
    and "first_slot (\<lambda>fd. fd = None) (file_descriptors s) = Some k" "k < 511"
    and "kzalloc m h 132 = (file, m1)" "fst (kzalloc m1 h 16) \<noteq> 0" "m1 lit_r = 0x72"
    and "kzalloc m1 h (of_nat (length bs)) = (q, m2)" "bs \<noteq> []" "length bs < 2 ^ 31"
    and "apart q (length bs) (file + 112) 20" "elf_validate_loaded (write_bytes (write32 m2 (file + 112) q) q bs) q = ALL_OK"
  shows "\<exists>m' s'. elf_load ops d a (Some (drive, parts)) lit_r m h s = (0, Some file, m', s')
    \<and> elf_memory (elf_file_at m' file) = q \<and> bytes_at m' q (length bs) = bs
    \<and> ok (world s') \<and> vfs_ok s' \<and> file_get_descriptor (int k + 1) s' = None"
proof -
  let ?n = "of_nat (length bs) :: u32" and ?fd = "int k + 1"
  have n: "nat (sint ?n) = length bs" "0 < sint ?n"
    using sint_word_of_int_small [of "int (length bs)"] assms(15,16) by simp_all
  obtain s1 st where s1: "fopen ops d a True (Some (drive, parts)) m1 lit_r s = (?fd, s1)" "on_file ops s1 ?fd bs 0"
      "fstat ops ?fd \<lparr>stat_flags = 0, stat_filesize = 0\<rparr> s1 = (ALL_OK, st)" "stat_filesize st = ?n"
    using fopen_fstat [where ops = ops and a = a and m = m1 and str = lit_r, OF assms(1-8,13,9,10)] by blast
  obtain s2 where s2: "fread ops ?n 1 ?fd s1 = (1, bs, s2)" "on_file ops s2 ?fd bs 0"
    using fread_on_file [OF s1(2) n(2)] n(1) by auto
  obtain s3 where s3: "fclose ops ?fd s2 = (ALL_OK, s3)" "ok (world s3)" "vfs_ok s3" "file_get_descriptor ?fd s3 = None"
    using fclose_on_file [OF s2(2)] by blast
  let ?m3 = "write_bytes (write32 m2 (file + 112) q) q bs"
  have "elf_memory (elf_file_at ?m3 file) = q"
    using read32_write_bytes_apart [OF assms(17)] by (simp add: elf_file_at_def)
  then obtain f where f: "elf_process_loaded ?m3 (elf_file_at ?m3 file) = (ALL_OK, f)" "elf_memory f = q"
    using elf_process_loaded_ok [of ?m3 "elf_file_at ?m3 file"] assms(18) by auto
  have "elf_load ops d a (Some (drive, parts)) lit_r m h s = (0, Some file, put_elf_file ?m3 file f, s3)"
    using s1(1,3,4) s2(1) s3(1) f(1) assms(11,12,14) by (simp add: elf_load_def Let_def)
  moreover have "bytes_at (put_elf_file ?m3 file f) q (length bs) = bs"
  proof (rule nth_equalityI)
    fix i assume "i < length (bytes_at (put_elf_file ?m3 file f) q (length bs))"
    then have i: "i < length bs" by simp
    have "put_elf_file ?m3 file f (q + of_nat i) = ?m3 (q + of_nat i)"
      using apartD [OF assms(17) i] by (intro put_elf_file_notin) blast
    then show "bytes_at (put_elf_file ?m3 file f) q (length bs) ! i = bs ! i"
      using i assms(16) by (simp add: write_bytes_inside)
  qed simp
  ultimately show ?thesis using s3(2-4) f(2) by simp
qed

end

section \<open>The FAT16 driver\<close>

text \<open>A file whose size is at most that of a cluster is delivered whole.\<close>

definition volume_whole :: "disk \<Rightarrow> volume option \<Rightarrow> u8 list list \<Rightarrow> bool" where
  "volume_whole disk w parts =
     (case (w, parts) of
        (Some v, [name]) \<Rightarrow> (case root_entry (vol_private v) name of
            None \<Rightarrow> False
          | Some item \<Rightarrow> uint (filesize item) \<le> size_of_cluster_bytes disk (vol_private v))
      | _ \<Rightarrow> False)"

lemma volume_stat:
  assumes ok: "volume_ok d disk fresh w" and dir: "volume_directory dev disk w parts = Some bs" "volume_whole disk w parts"
    and "open_file (fat16_functions dev d (\<lambda>_. True) disk fresh) w parts FILE_MODE_READ = (p, w')"
  shows "\<exists>st. stat_file (fat16_functions dev d (\<lambda>_. True) disk fresh) w' disk_addr p stat = (ALL_OK, st)
    \<and> stat_filesize st = of_nat (length bs)"
proof -
  obtain v name item where w: "w = Some v" and parts: "parts = [name]" and item: "root_entry (vol_private v) name = Some item"
    and bs: "bs = file_bytes dev disk (vol_private v) item" and size: "uint (filesize item) \<le> size_of_cluster_bytes disk (vol_private v)"
    using dir by (auto simp: volume_directory_def volume_whole_def split: option.splits list.splits)
  have "vol_files (the w') p = Some \<lparr>desc_item = \<lparr>content = Item (Some item), item_type = FAT_ITEM_TYPE_FILE\<rparr>, desc_pos = 0\<rparr>"
      "w' \<noteq> None"
    using assms(4) fat16_open_root [OF volume_okD(1) [OF ok [unfolded w]], of dev name] item
    by (auto simp: fat16_functions_def w parts)
  moreover have "of_nat (length bs) = filesize item" using size by (simp add: bs length_file_bytes min_def)
  ultimately show ?thesis by (auto simp: fat16_functions_def fat16_stat_def Let_def)
qed

interpretation fat16_sized: sized_store "fat16_functions dev d (\<lambda>_. True) disk fresh" "volume_ok d disk fresh"
    "volume_directory dev disk" "volume_opened dev disk" "volume_whole disk" for dev d disk fresh
  by unfold_locales (rule volume_stat)

section \<open>Properties\<close>


text \<open>
  A volume with clusters of 16 sectors and a file of 5000 bytes that begins with a header; a heap of four blocks,
  of which the loader gets the first and the last two.
\<close>

definition elf_item :: fat_directory_item where
  "elf_item = [0x41, 0x20, 0x20, 0x20, 0x20, 0x20, 0x20, 0x20, 0x20, 0x20, 0x20, 0x20,
     0, 0, 0, 0, 0, 0, 0, 0, 0, 0, 0, 0, 0, 0, 2, 0, 0x88, 0x13, 0, 0]"

definition elf_private :: fat_private where
  "elf_private = sample_private\<lparr>header := (replicate 62 0)[13 := 16, 14 := 1],
     root_directory := \<lparr>dir_bytes = elf_item, dir_total = 1, sector_pos = 5, ending_sector_pos = 10\<rparr>\<rparr>"

definition elf_device :: device where
  "elf_device s = (if s = 10 then [0x7F, 0x45, 0x4C, 0x46, 1, 1] @ replicate 22 0 @ [52] @ replicate 483 0 else replicate 512 0)"

definition elf_volume :: "volume option vfs" where
  "elf_volume = \<lparr>filesystems = replicate 12 0, file_descriptors = replicate 512 None,
     world = Some \<lparr>vol_private = elf_private, vol_files = \<lambda>_. None\<rparr>\<rparr>"

definition elf_heap :: heap where
  "elf_heap = \<lparr>heap_table_of = \<lparr>entries = 0, total = 4\<rparr>, saddr = 0x2000\<rparr>"

definition elf_mem :: mem where "elf_mem = (\<lambda>_. 0)(0 := 1, 2 := 1, 3 := 1, 0x100 := 0x72)"

lemma elf_item_fields:
  "filesize elf_item = 5000" "fat16_get_first_cluster elf_item = 2" "attribute elf_item = 0x20" "length elf_item = 32"
  by (simp_all add: filesize_def le32_def fat16_get_first_cluster_def high_16_bits_first_cluster_def
      low_16_bits_first_cluster_def le16_def attribute_def elf_item_def nth_append nth_Cons')

lemma elf_private_fields:
  "size_of_cluster_bytes sample_disk elf_private = 8192" "cluster_position sample_disk elf_private 2 = 5120"
  "dir_item (root_directory elf_private) 0 = elf_item" "dir_total (root_directory elf_private) = 1"
  by (simp_all add: size_of_cluster_bytes_def sample_disk_def elf_private_def sample_private_def sectors_per_cluster_def
      cluster_position_def fat16_cluster_to_sector_def dir_item_def elf_item_fields)

lemma elf_private_ok: "private_ok 0x9000 sample_disk elf_private"
  using sample_streams(1)
  by (simp add: private_ok_def plain_file_def elf_private_fields elf_item_fields) (simp add: elf_private_def)

lemma elf_entry: "root_entry elf_private [0x61] = Some elf_item"
proof -
  have "fat16_get_full_relative_filename elf_item = [0x41]"
    by (simp add: fat16_get_full_relative_filename_def elf_item_def Let_def)
  moreover have "names_equal [0x41] [0x61]" by (simp add: names_equal_iff tolower_def)
  ultimately show ?thesis by (simp add: root_entry_def elf_private_fields elf_item_fields)
qed

definition elf_bytes :: "u8 list" where
  "elf_bytes = file_bytes elf_device sample_disk elf_private elf_item"

lemma elf_bytes_nth:
  "length elf_bytes = 5000" "i < 512 \<Longrightarrow> elf_bytes ! i = elf_device 10 ! i"
proof -
  show len: "length elf_bytes = 5000" by (simp add: elf_bytes_def length_file_bytes elf_private_fields elf_item_fields)
  assume i: "i < 512"
  have "(5120 + int i) div 512 = 10" using i by simp
  moreover have "(5120 + int i) mod 512 = int i"
    using i by (intro int_mod_pos_eq [where q = 10]) simp_all
  ultimately show "elf_bytes ! i = elf_device 10 ! i"
    using len i by (simp add: elf_bytes_def file_bytes_def elf_private_fields elf_item_fields disk_byte_def)
qed

lemma elf_heap_blocks:
  "kzalloc elf_mem elf_heap 132 = (0x2000, memset (elf_mem(0 := 0x41)) 0x2000 0 132)"
  "fst (kzalloc (memset (elf_mem(0 := 0x41)) 0x2000 0 132) elf_heap 16) = 0x2000"
  "fst (kzalloc (memset (elf_mem(0 := 0x41)) 0x2000 0 132) elf_heap 5000) = 0x4000"
  by (simp_all add: elf_heap_def elf_mem_def kzalloc_def kmalloc_def heap_malloc_def heap_align_value_to_upper_def
      heap_malloc_blocks_def heap_get_start_block_def start_block_loop.simps heap_get_entry_type_def
      heap_block_to_address_def heap_mark_blocks_taken_def mark_taken_loop.simps memset_apply Let_def)

lemma elf_written:
  assumes "q = 0x4000"
  shows "elf_validate_loaded (write_bytes m q elf_bytes) q = ALL_OK"
proof -
  have at: "write_bytes m q elf_bytes (q + of_nat i) = elf_device 10 ! i" if "i < 512" for i
    using that write_bytes_inside [of i elf_bytes m q] elf_bytes_nth by simp
  have "e_phoff (write_bytes m q elf_bytes) q = 52"
    using at [of 28] at [of 29] at [of 30] at [of 31]
    by (simp add: e_phoff_def read32_def elf_device_def nth_append nth_Cons' add.assoc)
  then show ?thesis
    using at [of 0] at [of 1] at [of 2] at [of 3] at [of 4] at [of 5]
    by (simp add: elf_validate_loaded_def elf_valid_signature_def elf_valid_class_def elf_valid_encoding_def
        elf_has_program_header_def e_ident_def elf_device_def)
qed


end
