(* ===== verification/Task.thy ===== *)
theory Task
  imports Paging Strings
begin

unbundle bit_operations_syntax

text \<open>
  The tasks of \<^verbatim>\<open>src/task/task.c\<close>: the structures by their addresses in \<open>task_at\<close>, the list of
  tasks through their \<open>next\<close> and \<open>prev\<close> links, the current task, and the memory and heap that
  hold the page tables. The address of a new task comes from \<open>kzalloc\<close>; the structure itself
  is kept in \<open>task_at\<close>. \<open>cr3\<close> is the directory that is loaded, \<open>kernel_chunk\<close> the kernel's.
\<close>

record registers =
  edi :: u32
  esi :: u32
  ebp :: u32
  ebx :: u32
  edx :: u32
  ecx :: u32
  eax :: u32
  ip :: u32
  cs :: u32
  flags :: u32
  esp :: u32
  ss :: u32

text \<open>The frame of \<^verbatim>\<open>src/idt/idt.h\<close>: what the assembly pushes, and what the processor pushed.\<close>

record interrupt_frame =
  f_edi :: u32
  f_esi :: u32
  f_ebp :: u32
  f_reserved :: u32
  f_ebx :: u32
  f_edx :: u32
  f_ecx :: u32
  f_eax :: u32
  f_ip :: u32
  f_cs :: u32
  f_flags :: u32
  f_esp :: u32
  f_ss :: u32

record task =
  page_directory :: addr
  regs :: registers
  task_process :: addr
  next_task :: addr
  prev_task :: addr

record task_state =
  task_at :: "addr \<Rightarrow> task"
  current_task :: addr
  task_tail :: addr
  task_head :: addr
  task_mem :: mem
  task_heap :: heap
  kernel_chunk :: addr
  cr3 :: addr

definition no_registers :: registers where
  "no_registers = \<lparr>edi = 0, esi = 0, ebp = 0, ebx = 0, edx = 0, ecx = 0, eax = 0, ip = 0, cs = 0,
     flags = 0, esp = 0, ss = 0\<rparr>"

definition upd_task :: "addr \<Rightarrow> (task \<Rightarrow> task) \<Rightarrow> task_state \<Rightarrow> task_state" where
  "upd_task t f s = s\<lparr>task_at := (task_at s)(t := f (task_at s t))\<rparr>"

section \<open>Operations\<close>

definition kernel_page :: "task_state \<Rightarrow> task_state" where
  "kernel_page s = s\<lparr>cr3 := paging_switch (task_mem s) (kernel_chunk s)\<rparr>"

definition task_get_next :: "task_state \<Rightarrow> addr" where
  "task_get_next s =
     (if next_task (task_at s (current_task s)) = 0 then task_head s else next_task (task_at s (current_task s)))"

text \<open>The four statements of \<open>task_list_remove\<close>.\<close>

definition unlink_prev :: "addr \<Rightarrow> task_state \<Rightarrow> task_state" where
  "unlink_prev t s =
     (if prev_task (task_at s t) \<noteq> 0
      then upd_task (prev_task (task_at s t)) (\<lambda>p. p\<lparr>next_task := next_task (task_at s t)\<rparr>) s else s)"

definition unlink_head :: "addr \<Rightarrow> task_state \<Rightarrow> task_state" where
  "unlink_head t s = (if t = task_head s then s\<lparr>task_head := next_task (task_at s t)\<rparr> else s)"

definition unlink_tail :: "addr \<Rightarrow> task_state \<Rightarrow> task_state" where
  "unlink_tail t s = (if t = task_tail s then s\<lparr>task_tail := prev_task (task_at s t)\<rparr> else s)"

definition unlink_current :: "addr \<Rightarrow> task_state \<Rightarrow> task_state" where
  "unlink_current t s = (if t = current_task s then s\<lparr>current_task := task_get_next s\<rparr> else s)"

definition task_list_remove :: "addr \<Rightarrow> task_state \<Rightarrow> task_state" where
  "task_list_remove t s = unlink_current t (unlink_tail t (unlink_head t (unlink_prev t s)))"

definition task_free :: "addr \<Rightarrow> task_state \<Rightarrow> status \<times> task_state" where
  "task_free t s =
     (let s = s\<lparr>task_mem := paging_free_4gb (task_mem s) (task_heap s) (page_directory (task_at s t))\<rparr>;
          s = task_list_remove t s
      in (ALL_OK, s\<lparr>task_mem := kfree (task_mem s) (task_heap s) t\<rparr>))"

text \<open>\<open>filetype\<close> and \<open>e_entry\<close> are those of the process and of its ELF header.\<close>

definition task_init :: "addr \<Rightarrow> addr \<Rightarrow> u8 \<Rightarrow> u32 \<Rightarrow> task_state \<Rightarrow> status \<times> task_state" where
  "task_init t process filetype e_entry s =
     (let s = upd_task t (\<lambda>_. \<lparr>page_directory = 0, regs = no_registers, task_process = 0, next_task = 0, prev_task = 0\<rparr>) s;
          (chunk, m) = paging_new_4gb (task_mem s) (task_heap s) (PAGING_IS_PRESENT OR PAGING_ACCESS_FROM_ALL);
          s = upd_task t (\<lambda>k. k\<lparr>page_directory := chunk\<rparr>) (s\<lparr>task_mem := m\<rparr>)
      in if chunk = 0 then (Inl EIO, s)
         else
           let s = upd_task t (\<lambda>k. k\<lparr>regs := (regs k)\<lparr>ip := PROGRAM_VIRTUAL_ADDRESS\<rparr>\<rparr>) s;
               s = (if filetype = 0 then upd_task t (\<lambda>k. k\<lparr>regs := (regs k)\<lparr>ip := e_entry\<rparr>\<rparr>) s else s);
               s = upd_task t (\<lambda>k. k\<lparr>regs := (regs k)\<lparr>ss := USER_DATA_SEGMENT\<rparr>\<rparr>) s;
               s = upd_task t (\<lambda>k. k\<lparr>regs := (regs k)\<lparr>cs := USER_CODE_SEGMENT\<rparr>\<rparr>) s;
               s = upd_task t (\<lambda>k. k\<lparr>regs := (regs k)\<lparr>esp := PROGRAM_VIRTUAL_STACK_ADDRESS_START\<rparr>\<rparr>) s;
               s = upd_task t (\<lambda>k. k\<lparr>task_process := process\<rparr>) s
           in (ALL_OK, s))"

definition task_link :: "addr \<Rightarrow> task_state \<Rightarrow> task_state" where
  "task_link t s =
     (if task_head s = 0
      then s\<lparr>task_head := t, task_tail := t, current_task := t\<rparr>
      else
        let s = upd_task (task_tail s) (\<lambda>k. k\<lparr>next_task := t\<rparr>) s;
            s = upd_task t (\<lambda>k. k\<lparr>prev_task := task_tail s\<rparr>) s
        in s\<lparr>task_tail := t\<rparr>)"

definition task_new :: "addr \<Rightarrow> u8 \<Rightarrow> u32 \<Rightarrow> task_state \<Rightarrow> (error + addr) \<times> task_state" where
  "task_new process filetype e_entry s =
     (let (t, m) = kzalloc (task_mem s) (task_heap s) 64;
          s = s\<lparr>task_mem := m\<rparr>;
          (res, s) = (if t = 0 then (Inl ENOMEM, s) else task_init t process filetype e_entry s)
      in case res of
           Inr _ \<Rightarrow> (Inr t, task_link t s)
         | Inl e \<Rightarrow> (Inl e, snd (task_free t s)))"

definition task_switch :: "addr \<Rightarrow> task_state \<Rightarrow> task_state" where
  "task_switch t s =
     (let s = s\<lparr>current_task := t\<rparr>
      in s\<lparr>cr3 := paging_switch (task_mem s) (page_directory (task_at s t))\<rparr>)"

definition task_page :: "task_state \<Rightarrow> task_state" where
  "task_page s = task_switch (current_task s) s"

definition task_page_task :: "addr \<Rightarrow> task_state \<Rightarrow> task_state" where
  "task_page_task t s = s\<lparr>cr3 := paging_switch (task_mem s) (page_directory (task_at s t))\<rparr>"

definition task_save_state :: "addr \<Rightarrow> interrupt_frame \<Rightarrow> task_state \<Rightarrow> task_state" where
  "task_save_state t frame s =
     upd_task t (\<lambda>k. k\<lparr>regs := (regs k)\<lparr>ip := f_ip frame, cs := f_cs frame, flags := f_flags frame,
       esp := f_esp frame, ss := f_ss frame, eax := f_eax frame, ebp := f_ebp frame, ebx := f_ebx frame,
       ecx := f_ecx frame, edi := f_edi frame, edx := f_edx frame, esi := f_esi frame\<rparr>\<rparr>) s"

text \<open>Without a current task the kernel panics: \<open>None\<close>.\<close>

definition task_current_save_state :: "interrupt_frame \<Rightarrow> task_state \<Rightarrow> task_state option" where
  "task_current_save_state frame s =
     (if current_task s = 0 then None else Some (task_save_state (current_task s) frame s))"

text \<open>The registers the processor continues with, in user mode.\<close>

definition task_run_first_ever_task :: "task_state \<Rightarrow> (registers \<times> task_state) option" where
  "task_run_first_ever_task s =
     (if current_task s = 0 then None
      else let s = task_switch (task_head s) s in Some (regs (task_at s (task_head s)), s))"

text \<open>
  Memory as the processor sees it through the directory \<open>d\<close>, and a word read through it.
\<close>

definition mem_through :: "mem \<Rightarrow> addr \<Rightarrow> mem" where
  "mem_through m d a = m (paging_get_physical_address m d a)"

definition task_get_stack_item :: "addr \<Rightarrow> int \<Rightarrow> task_state \<Rightarrow> u32 \<times> task_state" where
  "task_get_stack_item t index s =
     (let sp_ptr = esp (regs (task_at s t));
          s = task_page_task t s;
          result = read32 (mem_through (task_mem s) (cr3 s)) (sp_ptr + 4 * word_of_int index)
      in (result, kernel_page s))"

text \<open>
  \<open>strncpy\<close> while the directory \<open>d\<close> is loaded: every address it reads or writes is translated, by the
  tables as they are at that moment.
\<close>

function strncpy_through_loop :: "mem \<Rightarrow> addr \<Rightarrow> addr \<Rightarrow> addr \<Rightarrow> int \<Rightarrow> int \<Rightarrow> mem" where
  "strncpy_through_loop m d dest src count i =
     (let at = paging_get_physical_address m d (dest + word_of_int i);
          c = mem_through m d (src + word_of_int i)
      in if i < count - 1 \<and> c \<noteq> 0 then strncpy_through_loop (m(at := c)) d dest src count (i + 1)
         else m(at := 0))"
  by pat_completeness auto
termination
  by (relation "measure (\<lambda>(m, d, dest, src, count, i). nat (count - i))") auto

declare strncpy_through_loop.simps [simp del]

definition strncpy_through :: "mem \<Rightarrow> addr \<Rightarrow> addr \<Rightarrow> addr \<Rightarrow> int \<Rightarrow> mem" where
  "strncpy_through m d dest src count = strncpy_through_loop m d dest src count 0"

definition copy_string_from_task ::
    "addr \<Rightarrow> addr \<Rightarrow> addr \<Rightarrow> int \<Rightarrow> task_state \<Rightarrow> status \<times> task_state" where
  "copy_string_from_task t virt phys mx s =
     (if PAGING_PAGE_SIZE \<le> mx then (Inl EINVARG, s)
      else
        let (tmp, m) = kzalloc (task_mem s) (task_heap s) (word_of_int mx);
            s = s\<lparr>task_mem := m\<rparr>
        in if tmp = 0 then (Inl ENOMEM, s)
           else
             let chunk = page_directory (task_at s t);
                 task_directory = directory_entry m chunk;
                 old_entry = paging_get m task_directory tmp;
                 m = snd (paging_map m chunk tmp tmp
                       (PAGING_IS_WRITEABLE OR PAGING_IS_PRESENT OR PAGING_ACCESS_FROM_ALL));
                 s = s\<lparr>cr3 := paging_switch m chunk\<rparr>;
                 m = strncpy_through m (cr3 s) tmp virt mx;
                 s = kernel_page (s\<lparr>task_mem := m\<rparr>);
                 (res, m) = paging_set m task_directory tmp old_entry;
                 (res, m) = (case res of
                               Inl _ \<Rightarrow> (Inl EIO, m)
                             | Inr _ \<Rightarrow> (ALL_OK, strncpy m phys tmp mx))
             in (res, s\<lparr>task_mem := kfree m (task_heap s) tmp\<rparr>))"

section \<open>The list of tasks\<close>

text \<open>
  The tasks in order, by their forward links, the head and the tail. The backward links are a
  property of their own, since removing a task does not keep them.
\<close>

definition task_list :: "task_state \<Rightarrow> addr list \<Rightarrow> bool" where
  "task_list s xs \<longleftrightarrow> distinct xs \<and> 0 \<notin> set xs
     \<and> task_head s = (if xs = [] then 0 else hd xs)
     \<and> (xs \<noteq> [] \<longrightarrow> task_tail s = last xs)
     \<and> (\<forall>i<length xs. next_task (task_at s (xs ! i)) = (if Suc i < length xs then xs ! Suc i else 0))"

definition prev_links :: "task_state \<Rightarrow> addr list \<Rightarrow> bool" where
  "prev_links s xs \<longleftrightarrow> (\<forall>i<length xs. prev_task (task_at s (xs ! i)) = (if i = 0 then 0 else xs ! (i - 1)))"

definition without :: "nat \<Rightarrow> 'a list \<Rightarrow> 'a list" where
  "without i xs = take i xs @ drop (Suc i) xs"

lemma length_without [simp]: "i < length xs \<Longrightarrow> length (without i xs) = length xs - 1"
  by (simp add: without_def)

lemma nth_without:
  "i < length xs \<Longrightarrow> j < length xs - 1 \<Longrightarrow> without i xs ! j = (if j < i then xs ! j else xs ! Suc j)"
  by (auto simp: without_def nth_append min_def)

lemma distinct_without: "distinct xs \<Longrightarrow> distinct (without i xs)"
  by (simp add: without_def set_take_disj_set_drop_if_distinct)

lemma set_without: "set (without i xs) \<subseteq> set xs"
  by (auto simp: without_def dest: in_set_takeD in_set_dropD)

lemma task_list_nth:
  "task_list s xs \<Longrightarrow> i < length xs \<Longrightarrow> xs ! i \<noteq> 0"
  "task_list s xs \<Longrightarrow> i < length xs \<Longrightarrow> j < length xs \<Longrightarrow> xs ! i = xs ! j \<longleftrightarrow> i = j"
  "task_list s xs \<Longrightarrow> i < length xs \<Longrightarrow> task_head s = xs ! i \<longleftrightarrow> i = 0"
  "task_list s xs \<Longrightarrow> i < length xs \<Longrightarrow> task_tail s = xs ! i \<longleftrightarrow> Suc i = length xs"
  by (auto simp: task_list_def hd_conv_nth last_conv_nth nth_eq_iff_index_eq dest: nth_mem)

lemma unlink_fields:
  "task_at (unlink_current t s) = task_at s" "task_at (unlink_tail t s) = task_at s"
  "task_at (unlink_head t s) = task_at s"
  "task_head (unlink_current t s) = task_head s" "task_head (unlink_tail t s) = task_head s"
  "task_head (unlink_head t s) = (if t = task_head s then next_task (task_at s t) else task_head s)"
  "task_head (unlink_prev t s) = task_head s"
  "task_tail (unlink_current t s) = task_tail s"
  "task_tail (unlink_tail t s) = (if t = task_tail s then prev_task (task_at s t) else task_tail s)"
  "task_tail (unlink_head t s) = task_tail s" "task_tail (unlink_prev t s) = task_tail s"
  by (simp_all add: unlink_current_def unlink_tail_def unlink_head_def unlink_prev_def upd_task_def)

text \<open>The state after removing a task whose backward link is right.\<close>

lemma list_remove_fields:
  assumes "task_list s xs" "i < length xs" "t = xs ! i"
    and "prev_task (task_at s t) = (if i = 0 then 0 else xs ! (i - 1))"
  shows "task_head (task_list_remove t s) = (if i = 0 then next_task (task_at s t) else task_head s)"
    and "task_tail (task_list_remove t s) = (if Suc i = length xs then prev_task (task_at s t) else task_tail s)"
    and "task_at (task_list_remove t s) = (if i = 0 then task_at s
      else (task_at s)(xs ! (i - 1) := (task_at s (xs ! (i - 1)))\<lparr>next_task := next_task (task_at s t)\<rparr>))"
proof -
  have ne: "i \<noteq> 0 \<Longrightarrow> xs ! (i - 1) \<noteq> t" "i \<noteq> 0 \<Longrightarrow> xs ! (i - 1) \<noteq> 0"
    using task_list_nth [OF assms(1)] assms(2,3) by auto
  have ht: "t = task_head s \<longleftrightarrow> i = 0" "t = task_tail s \<longleftrightarrow> Suc i = length xs"
    using task_list_nth(3,4) [OF assms(1,2)] assms(3) by auto
  have at: "task_at (unlink_prev t s) = (if i = 0 then task_at s
      else (task_at s)(xs ! (i - 1) := (task_at s (xs ! (i - 1)))\<lparr>next_task := next_task (task_at s t)\<rparr>))"
    using assms(4) ne by (simp add: unlink_prev_def upd_task_def)
  then have "task_at (unlink_prev t s) t = task_at s t" using ne by simp
  then show "task_head (task_list_remove t s) = (if i = 0 then next_task (task_at s t) else task_head s)"
    "task_tail (task_list_remove t s) = (if Suc i = length xs then prev_task (task_at s t) else task_tail s)"
    "task_at (task_list_remove t s) = (if i = 0 then task_at s
      else (task_at s)(xs ! (i - 1) := (task_at s (xs ! (i - 1)))\<lparr>next_task := next_task (task_at s t)\<rparr>))"
    using ht at by (simp_all add: unlink_fields task_list_remove_def)
qed

lemma task_list_remove_list:
  assumes "task_list s xs" "i < length xs"
    and "prev_task (task_at s (xs ! i)) = (if i = 0 then 0 else xs ! (i - 1))"
  shows "task_list (task_list_remove (xs ! i) s) (without i xs)"
proof -
  let ?s = "task_list_remove (xs ! i) s" and ?ys = "without i xs"
  note f = list_remove_fields [OF assms(1,2) refl assms(3)]
  note inj = task_list_nth(2) [OF assms(1)]
  have nx: "next_task (task_at s (xs ! j)) = (if Suc j < length xs then xs ! Suc j else 0)" if "j < length xs" for j
    using assms(1) that by (simp add: task_list_def)
  have "task_head ?s = (if ?ys = [] then 0 else hd ?ys)"
  proof (cases "i = 0")
    case True
    then show ?thesis using f(1) nx [of 0] assms(2) by (simp add: without_def hd_drop_conv_nth)
  next
    case False
    then have "?ys \<noteq> []" "hd ?ys = hd xs" using assms(2) by (auto simp: without_def hd_append)
    moreover have "xs \<noteq> []" using assms(2) by auto
    ultimately show ?thesis using False f(1) assms(1) by (simp add: task_list_def)
  qed
  moreover have "task_tail ?s = last ?ys" if "?ys \<noteq> []"
  proof (cases "Suc i = length xs")
    case True
    then have ys: "?ys = take i xs" by (simp add: without_def)
    with that have "i \<noteq> 0" by auto
    then have "last ?ys = xs ! (i - 1)" using assms(2) that by (simp add: ys last_conv_nth)
    with True \<open>i \<noteq> 0\<close> show ?thesis using f(2) assms(3) by simp
  next
    case False
    then have "drop (Suc i) xs \<noteq> []" using assms(2) by simp
    then have "last ?ys = last xs" by (simp add: without_def)
    with False show ?thesis using f(2) assms(1,2) by (auto simp: task_list_def)
  qed
  moreover have "next_task (task_at ?s (?ys ! j)) = (if Suc j < length ?ys then ?ys ! Suc j else 0)"
    if j: "j < length ?ys" for j
  proof -
    have len: "length ?ys = length xs - 1" using assms(2) by simp
    then have j': "j < length xs - 1" using j by simp
    consider "Suc j < i" | "Suc j = i" | "i \<le> j" by linarith
    then show ?thesis
    proof cases
      case 1
      then have "xs ! j \<noteq> xs ! (i - 1)" using inj [of j "i - 1"] assms(2) by simp
      moreover have "Suc j < length xs - 1" using 1 assms(2) by linarith
      ultimately show ?thesis using 1 assms(2) nx [of j] f(3) by (simp add: nth_without)
    next
      case 2
      then have "i - 1 = j" "i \<noteq> 0" by simp_all
      then have "next_task (task_at ?s (xs ! j)) = next_task (task_at s (xs ! i))" using f(3) by simp
      moreover have "?ys ! j = xs ! j" using nth_without [OF assms(2) j'] 2 by simp
      moreover have "?ys ! Suc j = xs ! Suc i" if "Suc j < length xs - 1"
        using nth_without [OF assms(2) that] 2 by simp
      moreover have "Suc j < length xs - 1 \<longleftrightarrow> Suc i < length xs" using 2 by linarith
      ultimately show ?thesis using nx [OF assms(2)] by (simp add: len)
    next
      case 3
      then have "i = 0 \<or> xs ! Suc j \<noteq> xs ! (i - 1)" using inj [of "Suc j" "i - 1"] j' assms(2) by linarith
      then have "next_task (task_at ?s (xs ! Suc j)) = next_task (task_at s (xs ! Suc j))"
        unfolding f(3) by (cases "i = 0") simp_all
      moreover have "?ys ! j = xs ! Suc j" using nth_without [OF assms(2) j'] 3 by simp
      moreover have "?ys ! Suc j = xs ! Suc (Suc j)" if "Suc j < length xs - 1"
        using nth_without [OF assms(2) that] 3 by simp
      moreover have "Suc j < length xs - 1 \<longleftrightarrow> Suc (Suc j) < length xs" "Suc j < length xs" using j' by linarith+
      ultimately show ?thesis using nx [of "Suc j"] by (simp add: len)
    qed
  qed
  moreover have "distinct xs" "0 \<notin> set xs" using assms(1) by (simp_all add: task_list_def)
  then have "distinct ?ys" by (intro distinct_without)
  moreover have "0 \<notin> set ?ys" using \<open>0 \<notin> set xs\<close> set_without [of i xs] by (rule contra_subsetD [rotated])
  ultimately show ?thesis by (simp only: task_list_def) simp
qed

lemma task_link_list:
  assumes "task_list s xs" "t \<noteq> 0" "t \<notin> set xs" "next_task (task_at s t) = 0"
  shows "task_list (task_link t s) (xs @ [t])"
proof (cases "xs = []")
  case True
  then show ?thesis using assms by (simp add: task_list_def task_link_def)
next
  case False
  let ?l = "last xs"
  have l: "?l = xs ! (length xs - 1)" "?l \<in> set xs" using False by (simp_all add: last_conv_nth)
  have ne: "?l \<noteq> t" using l(2) assms(3) by auto
  have head: "task_head s \<noteq> 0" using task_list_nth [OF assms(1), of 0] False by simp
  have tail: "task_tail s = ?l" using assms(1) False by (simp add: task_list_def)
  have link: "task_link t s = (upd_task t (\<lambda>k. k\<lparr>prev_task := ?l\<rparr>) (upd_task ?l (\<lambda>k. k\<lparr>next_task := t\<rparr>) s))\<lparr>task_tail := t\<rparr>"
    using head by (simp add: task_link_def tail upd_task_def Let_def)
  have next_at: "next_task (task_at (task_link t s) a) = (if a = ?l then t else next_task (task_at s a))" for a
    using ne by (simp add: link upd_task_def)
  have nx: "next_task (task_at s (xs ! j)) = (if Suc j < length xs then xs ! Suc j else 0)" if "j < length xs" for j
    using assms(1) that by (simp add: task_list_def)
  have "next_task (task_at (task_link t s) ((xs @ [t]) ! i)) =
      (if Suc i < length (xs @ [t]) then (xs @ [t]) ! Suc i else 0)" if "i < length (xs @ [t])" for i
  proof -
    have "i \<le> length xs" using that by simp
    then consider "Suc i < length xs" | "Suc i = length xs" | "i = length xs" by linarith
    then show ?thesis
    proof cases
      case 1
      then have "xs ! i \<noteq> ?l" using task_list_nth(2) [OF assms(1), of i "length xs - 1"] l(1) by auto
      with 1 nx [of i] show ?thesis by (simp add: next_at nth_append)
    next
      case 2
      then have "xs ! i = ?l" using l(1) by (simp add: 2 [symmetric])
      with 2 show ?thesis by (simp add: next_at nth_append)
    next
      case 3
      with ne assms(4) show ?thesis by (simp add: next_at)
    qed
  qed
  moreover have "task_head (task_link t s) = hd (xs @ [t])" "task_tail (task_link t s) = last (xs @ [t])"
    using assms(1) False by (simp_all add: link upd_task_def task_list_def)
  moreover have "distinct xs" "0 \<notin> set xs" using assms(1) by (simp_all add: task_list_def)
  ultimately show ?thesis using assms(2,3) by (simp add: task_list_def)
qed

lemma task_link_prev:
  assumes "task_list s xs" "prev_links s xs" "t \<notin> set xs" "prev_task (task_at s t) = 0"
  shows "prev_links (task_link t s) (xs @ [t])"
proof (cases "xs = []")
  case True
  then show ?thesis using assms by (simp add: task_list_def task_link_def prev_links_def)
next
  case False
  let ?l = "last xs"
  have l: "?l = xs ! (length xs - 1)" "?l \<in> set xs" using False by (simp_all add: last_conv_nth)
  have ne: "?l \<noteq> t" using l(2) assms(3) by auto
  have head: "task_head s \<noteq> 0" using task_list_nth [OF assms(1), of 0] False by simp
  have tail: "task_tail s = ?l" using assms(1) False by (simp add: task_list_def)
  have prev_at: "prev_task (task_at (task_link t s) a) = (if a = t then ?l else prev_task (task_at s a))" for a
    using head ne by (simp add: task_link_def tail upd_task_def Let_def)
  have "prev_task (task_at (task_link t s) ((xs @ [t]) ! i)) = (if i = 0 then 0 else (xs @ [t]) ! (i - 1))"
    if "i < length (xs @ [t])" for i
  proof (cases "i = length xs")
    case True
    with False l(1) show ?thesis by (simp add: prev_at nth_append)
  next
    case neq: False
    with that have i: "i < length xs" by simp
    then have "xs ! i \<noteq> t" "i - 1 < length xs" using assms(3) nth_mem [OF i] by auto
    with i assms(2) show ?thesis by (simp add: prev_at nth_append prev_links_def)
  qed
  then show ?thesis by (simp add: prev_links_def)
qed

section \<open>A list of three tasks\<close>

definition sample_task :: "addr \<Rightarrow> addr \<Rightarrow> task" where
  "sample_task nx pv = \<lparr>page_directory = 0, regs = no_registers, task_process = 0, next_task = nx, prev_task = pv\<rparr>"

definition sample_tasks :: task_state where
  "sample_tasks = \<lparr>task_at = (\<lambda>_. sample_task 0 0)(0x1000 := sample_task 0x2000 0,
       0x2000 := sample_task 0x3000 0x1000, 0x3000 := sample_task 0 0x2000),
     current_task = 0x3000, task_tail = 0x3000, task_head = 0x1000, task_mem = \<lambda>_. 0,
     task_heap = \<lparr>heap_table_of = \<lparr>entries = 0, total = 0\<rparr>, saddr = 0\<rparr>, kernel_chunk = 0, cr3 = 0\<rparr>"

lemma sample_tasks_list:
  "task_list sample_tasks [0x1000, 0x2000, 0x3000]" "prev_links sample_tasks [0x1000, 0x2000, 0x3000]"
proof -
  have all3: "(\<forall>i<length [a, b, c :: addr]. P i) \<longleftrightarrow> P 0 \<and> P 1 \<and> P (Suc 1)" for P a b c
    by (auto simp: less_Suc_eq)
  show "task_list sample_tasks [0x1000, 0x2000, 0x3000]" "prev_links sample_tasks [0x1000, 0x2000, 0x3000]"
    unfolding task_list_def prev_links_def all3
    by (simp_all add: sample_tasks_def sample_task_def)
qed

section \<open>Properties\<close>

text \<open>
  C21: A new task goes to the end of the list, and both directions of the links are right
  afterwards.
\<close>
theorem task_link_appends:
  assumes "task_list s xs" "prev_links s xs" "t \<noteq> 0" "t \<notin> set xs"
    and "next_task (task_at s t) = 0" "prev_task (task_at s t) = 0"
  shows "task_list (task_link t s) (xs @ [t]) \<and> prev_links (task_link t s) (xs @ [t])"
  using task_link_list task_link_prev assms by blast

theorem task_link_appends_witness:
  "task_list (task_link 0x4000 sample_tasks) [0x1000, 0x2000, 0x3000, 0x4000]"
  using task_link_appends [OF sample_tasks_list, of "0x4000"]
  by (simp add: sample_tasks_def sample_task_def)

text \<open>
  C23: The scheduler goes round: the task after the current one is the next of the list, and
  after the last comes the first.
\<close>
theorem task_get_next_cycles:
  assumes "task_list s xs" "i < length xs" "current_task s = xs ! i"
  shows "task_get_next s = xs ! (Suc i mod length xs)"
proof (cases "Suc i = length xs")
  case True
  then have "next_task (task_at s (xs ! i)) = 0" "task_head s = xs ! 0"
    using assms(1,2) by (auto simp: task_list_def hd_conv_nth)
  with True assms(3) show ?thesis by (simp add: task_get_next_def)
next
  case False
  then have "Suc i < length xs" using assms(2) by simp
  then have "next_task (task_at s (xs ! i)) = xs ! Suc i" "xs ! Suc i \<noteq> 0"
    using assms(1,2) task_list_nth(1) [OF assms(1), of "Suc i"] by (simp_all add: task_list_def)
  with \<open>Suc i < length xs\<close> assms(3) show ?thesis by (simp add: task_get_next_def)
qed

theorem task_get_next_cycles_witness: "task_get_next sample_tasks = 0x1000"
  using task_get_next_cycles [OF sample_tasks_list(1), of 2] by (simp add: sample_tasks_def)



text \<open>
  C22: The backward link of the task that follows is not updated, and when that one is removed
  too, the list still leads to it: after the removal of two neighbours behind another task,
  that task's forward link is the address of a task that has been freed.
\<close>
theorem task_list_remove_twice_dangles:
  assumes "task_list s xs" "prev_links s xs" "0 < i" "Suc i < length xs"
  shows "next_task (task_at (task_list_remove (xs ! Suc i) (task_list_remove (xs ! i) s)) (xs ! (i - 1)))
    = xs ! Suc i"
proof -
  have len: "i < length xs" "i - 1 < length xs" using assms(4) by simp_all
  have pi: "prev_task (task_at s (xs ! i)) = (if i = 0 then 0 else xs ! (i - 1))"
    and ps: "prev_task (task_at s (xs ! Suc i)) = xs ! i"
    using assms(2,4) len(1) by (simp_all add: prev_links_def)
  define s1 where "s1 = task_list_remove (xs ! i) s"
  have at: "task_at s1 = (task_at s)(xs ! (i - 1) := (task_at s (xs ! (i - 1)))\<lparr>next_task := xs ! Suc i\<rparr>)"
    using list_remove_fields(3) [OF assms(1) len(1) refl pi] assms by (simp add: task_list_def s1_def)
  have ne: "xs ! (i - 1) \<noteq> xs ! Suc i" "xs ! (i - 1) \<noteq> xs ! i"
    using task_list_nth(2) [OF assms(1)] len assms(3,4) by auto
  have p: "prev_task (task_at s1 (xs ! Suc i)) = xs ! i" using ps ne(1) by (simp add: at)
  have "task_at (task_list_remove (xs ! Suc i) s1) = task_at (unlink_prev (xs ! Suc i) s1)"
    by (simp only: task_list_remove_def unlink_fields)
  then have "task_at (task_list_remove (xs ! Suc i) s1) (xs ! (i - 1)) = task_at s1 (xs ! (i - 1))"
    unfolding unlink_prev_def p upd_task_def using ne(2) by simp
  then show ?thesis by (simp add: at flip: s1_def)
qed

theorem task_list_remove_twice_dangles_witness:
  "next_task (task_at (task_list_remove 0x3000 (task_list_remove 0x2000 sample_tasks)) 0x1000) = 0x3000"
  using task_list_remove_twice_dangles [OF sample_tasks_list, of 1] by simp

end
