(* ===== verification/Process.thy ===== *)
theory Process
  imports Elf Task Keyboard
begin

unbundle bit_operations_syntax

text \<open>
  Processes (\<^verbatim>\<open>src/task/process.c\<close>): loading a program, mapping it, the memory it allocates, its
  arguments and its end. A process is known by its address; its structure is kept in
  \<open>process_at\<close>. The state holds the tasks with the memory and the heap (\<open>ts\<close>), the table of
  processes, the current one, and the open files. \<open>None\<close> is a panic, or a loop that does not end.
\<close>

type_synonym process_allocation = "addr \<times> u32"

record process =
  pid :: u16
  filename :: "u8 list"
  task_of :: addr
  allocations :: "process_allocation list"
  filetype :: u8
  program :: addr
  stack :: addr
  program_size :: u32
  keyboard_of :: keyboard_buffer
  argc :: int
  argv :: addr

record 'w procs =
  ts :: task_state
  process_at :: "addr \<Rightarrow> process"
  processes :: "addr list"
  current_process :: addr
  open_files :: "'w vfs"

abbreviation (input) PROCESS_FILETYPE_ELF :: u8 where "PROCESS_FILETYPE_ELF \<equiv> 0"
abbreviation (input) PROCESS_FILETYPE_BINARY :: u8 where "PROCESS_FILETYPE_BINARY \<equiv> 1"
abbreviation (input) PROGRAM_VIRTUAL_STACK_ADDRESS_END :: addr where
  "PROGRAM_VIRTUAL_STACK_ADDRESS_END \<equiv> PROGRAM_VIRTUAL_STACK_ADDRESS_START - USER_PROGRAM_STACK_SIZE"

abbreviation pmem :: "'w procs \<Rightarrow> mem" where "pmem s \<equiv> task_mem (ts s)"
abbreviation pheap :: "'w procs \<Rightarrow> heap" where "pheap s \<equiv> task_heap (ts s)"

definition with_mem :: "mem \<Rightarrow> 'w procs \<Rightarrow> 'w procs" where
  "with_mem m s = s\<lparr>ts := (ts s)\<lparr>task_mem := m\<rparr>\<rparr>"

definition upd_process :: "addr \<Rightarrow> (process \<Rightarrow> process) \<Rightarrow> 'w procs \<Rightarrow> 'w procs" where
  "upd_process p f s = s\<lparr>process_at := (process_at s)(p := f (process_at s p))\<rparr>"

text \<open>The page directory of the task of a process.\<close>

definition process_directory :: "addr \<Rightarrow> 'w procs \<Rightarrow> addr" where
  "process_directory p s = page_directory (task_at (ts s) (task_of (process_at s p)))"

text \<open>What \<open>process_init\<close> leaves: all zero.\<close>

definition process_init :: process where
  "process_init = \<lparr>pid = 0, filename = replicate MAX_PATH 0, task_of = 0,
     allocations = replicate MAX_PROGRAM_ALLOCATIONS (0, 0), filetype = 0, program = 0, stack = 0,
     program_size = 0, keyboard_of = \<lparr>buffer = replicate KEYBOARD_BUFFER_SIZE 0, tail = 0, head = 0\<rparr>,
     argc = 0, argv = 0\<rparr>"

section \<open>The table of processes\<close>

definition process_get :: "int \<Rightarrow> 'w procs \<Rightarrow> addr" where
  "process_get process_id s =
     (if process_id < 0 \<or> MAX_PROCESSES \<le> process_id then 0 else processes s ! nat process_id)"

definition process_switch :: "addr \<Rightarrow> 'w procs \<Rightarrow> 'w procs" where
  "process_switch p s = s\<lparr>current_process := p\<rparr>"

definition process_get_free_slot :: "'w procs \<Rightarrow> error + nat" where
  "process_get_free_slot s =
     (case first_slot (\<lambda>p. p = 0) (processes s) of None \<Rightarrow> Inl EISTKN | Some i \<Rightarrow> Inr i)"

text \<open>Without any process the kernel panics.\<close>

definition process_switch_to_any :: "'w procs \<Rightarrow> 'w procs option" where
  "process_switch_to_any s =
     (case first_slot (\<lambda>p. p \<noteq> 0) (processes s) of
        None \<Rightarrow> None
      | Some i \<Rightarrow> Some (process_switch (processes s ! i) s))"

definition process_unlink :: "addr \<Rightarrow> 'w procs \<Rightarrow> 'w procs option" where
  "process_unlink p s =
     (let s = s\<lparr>processes := (processes s)[unat (pid (process_at s p)) := 0]\<rparr>
      in if current_process s = p then process_switch_to_any s else Some s)"

section \<open>Allocations\<close>

definition process_find_free_allocation_index :: "process \<Rightarrow> error + nat" where
  "process_find_free_allocation_index P =
     (case first_slot (\<lambda>a. fst a = 0) (allocations P) of None \<Rightarrow> Inl ENOMEM | Some i \<Rightarrow> Inr i)"

definition process_malloc :: "addr \<Rightarrow> u32 \<Rightarrow> 'w procs \<Rightarrow> addr \<times> 'w procs" where
  "process_malloc p n s =
     (let (ptr, m) = kzalloc (pmem s) (pheap s) n;
          s = with_mem m s
      in if ptr = 0 then (0, s)
         else case process_find_free_allocation_index (process_at s p) of
           Inl _ \<Rightarrow> (0, with_mem (kfree m (pheap s) ptr) s)
         | Inr i \<Rightarrow>
             let (res, m) = paging_map_to m (process_directory p s) ptr ptr (paging_align_address (ptr + n))
                   (PAGING_IS_WRITEABLE OR PAGING_IS_PRESENT OR PAGING_ACCESS_FROM_ALL);
                 s = with_mem m s
             in (case res of
                   Inl _ \<Rightarrow> (0, with_mem (kfree m (pheap s) ptr) s)
                 | Inr _ \<Rightarrow> (ptr, upd_process p (\<lambda>P. P\<lparr>allocations := (allocations P)[i := (ptr, n)]\<rparr>) s)))"

definition process_is_process_pointer :: "process \<Rightarrow> addr \<Rightarrow> bool" where
  "process_is_process_pointer P ptr \<longleftrightarrow> (\<exists>a\<in>set (allocations P). fst a = ptr)"

definition process_allocation_unjoin :: "addr \<Rightarrow> process \<Rightarrow> process" where
  "process_allocation_unjoin ptr P =
     P\<lparr>allocations := map (\<lambda>a. if fst a = ptr then (0, 0) else a) (allocations P)\<rparr>"

text \<open>The allocation is returned as its place in the table, as a pointer into it is.\<close>

definition process_get_allocation_by_addr :: "process \<Rightarrow> addr \<Rightarrow> nat option" where
  "process_get_allocation_by_addr P address = first_slot (\<lambda>a. fst a = address) (allocations P)"

definition process_free :: "addr \<Rightarrow> addr \<Rightarrow> 'w procs \<Rightarrow> 'w procs" where
  "process_free p ptr s =
     (if \<not> process_is_process_pointer (process_at s p) ptr then s
      else
        let allocation = process_get_allocation_by_addr (process_at s p) ptr;
            s = upd_process p (process_allocation_unjoin ptr) s
        in case allocation of
             None \<Rightarrow> s
           | Some i \<Rightarrow>
               let (aptr, asize) = allocations (process_at s p) ! i;
                   (res, m) = paging_map_to (pmem s) (process_directory p s) aptr aptr
                     (paging_align_address (aptr + asize)) 0x00;
                   s = with_mem m s
               in (case res of
                     Inl _ \<Rightarrow> s
                   | Inr _ \<Rightarrow> with_mem (kfree m (pheap s) ptr) s))"

definition process_terminate_allocations :: "addr \<Rightarrow> 'w procs \<Rightarrow> 'w procs" where
  "process_terminate_allocations p s =
     fold (\<lambda>i s. process_free p (fst (allocations (process_at s p) ! i)) s) [0..<MAX_PROGRAM_ALLOCATIONS] s"

definition process_free_program_data :: "addr \<Rightarrow> 'w procs \<Rightarrow> status \<times> 'w procs" where
  "process_free_program_data p s =
     (let P = process_at s p in
      if filetype P = PROCESS_FILETYPE_BINARY
      then (ALL_OK, with_mem (kfree (pmem s) (pheap s) (program P)) s)
      else if filetype P = PROCESS_FILETYPE_ELF
      then (ALL_OK, with_mem (elf_close (pmem s) (pheap s) (program P)) s)
      else (Inl EINVARG, s))"

definition process_terminate :: "addr \<Rightarrow> 'w procs \<Rightarrow> (status \<times> 'w procs) option" where
  "process_terminate p s =
     (let s = process_terminate_allocations p s;
          (res, s) = process_free_program_data p s
      in case res of
           Inl e \<Rightarrow> Some (Inl e, s)
         | Inr _ \<Rightarrow>
             let s = with_mem (kfree (pmem s) (pheap s) (stack (process_at s p))) s;
                 s = s\<lparr>ts := snd (task_free (task_of (process_at s p)) (ts s))\<rparr>
             in map_option (\<lambda>s. (ALL_OK, s)) (process_unlink p s))"

section \<open>Arguments\<close>

definition process_get_arguments :: "addr \<Rightarrow> 'w procs \<Rightarrow> int \<times> addr" where
  "process_get_arguments p s = (argc (process_at s p), argv (process_at s p))"

text \<open>
  A \<open>struct command_argument\<close> is 512 characters and the address of the next one. The walk along a
  list that runs in a circle does not end.
\<close>

partial_function (option) count_loop :: "mem \<Rightarrow> addr \<Rightarrow> int \<Rightarrow> int option" where
  "count_loop m current i =
     (if current = 0 then Some i else count_loop m (read32 m (current + 512)) (i + 1))"

definition process_count_command_arguments :: "mem \<Rightarrow> addr \<Rightarrow> int option" where
  "process_count_command_arguments m root_argument = count_loop m root_argument 0"

partial_function (option) inject_loop ::
    "addr \<Rightarrow> addr \<Rightarrow> addr \<Rightarrow> int \<Rightarrow> 'w procs \<Rightarrow> (status \<times> 'w procs) option" where
  "inject_loop p argv_ptr current i s =
     (if current = 0 then Some (ALL_OK, s)
      else case process_malloc p 512 s of (argument_str, s) \<Rightarrow>
        (if argument_str = 0 then Some (Inl ENOMEM, s)
         else let m = strncpy (pmem s) argument_str current 512;
                  m = write32 m (argv_ptr + 4 * word_of_int i) argument_str
              in inject_loop p argv_ptr (read32 m (current + 512)) (i + 1) (with_mem m s)))"

definition process_inject_arguments :: "addr \<Rightarrow> addr \<Rightarrow> 'w procs \<Rightarrow> (status \<times> 'w procs) option" where
  "process_inject_arguments p root_argument s =
     Option.bind (process_count_command_arguments (pmem s) root_argument) (\<lambda>n.
       if n = 0 then Some (Inl EIO, s)
       else let (argv_ptr, s) = process_malloc p (4 * word_of_int n) s in
            if argv_ptr = 0 then Some (Inl ENOMEM, s)
            else Option.bind (inject_loop p argv_ptr root_argument 0 s) (\<lambda>(res, s).
              Some (case res of
                 Inl e \<Rightarrow> (Inl e, s)
               | Inr _ \<Rightarrow> (ALL_OK, upd_process p (\<lambda>P. P\<lparr>argc := n, argv := argv_ptr\<rparr>) s))))"

section \<open>Loading\<close>

text \<open>
  What loading depends on outside the processes: the operations of the filesystems, the disk with
  its filesystem, the mode string, and the parsed path of the file. \<open>filename_ptr\<close> is the path.
\<close>

record 'w loader =
  fs_ops :: "addr \<Rightarrow> 'w filesystem_functions"
  the_disk_of :: addr
  disk_fs_of :: addr
  mode_r :: addr
  root_path_of :: "addr \<Rightarrow> (int \<times> u8 list list) option"

definition process_load_binary ::
    "'w loader \<Rightarrow> addr \<Rightarrow> addr \<Rightarrow> 'w procs \<Rightarrow> int \<times> 'w procs" where
  "process_load_binary l filename_ptr p s =
     (let (fd, fsys) = fopen (fs_ops l) (the_disk_of l) (disk_fs_of l)
            (fst (kzalloc (pmem s) (pheap s) 16) \<noteq> 0) (root_path_of l filename_ptr) (pmem s) (mode_r l)
            (open_files s);
          s = s\<lparr>open_files := fsys\<rparr>;
          close = (\<lambda>s. s\<lparr>open_files := snd (fclose (fs_ops l) fd (open_files s))\<rparr>)
      in if fd = 0 then (- errno EIO, close s)
         else
           let (res, stat) = fstat (fs_ops l) fd \<lparr>stat_flags = 0, stat_filesize = 0\<rparr> (open_files s)
           in case res of
                Inl e \<Rightarrow> (- errno e, close s)
              | Inr _ \<Rightarrow>
                  let (program_data_ptr, m) = kzalloc (pmem s) (pheap s) (stat_filesize stat);
                      s = with_mem m s
                  in if program_data_ptr = 0 then (- errno ENOMEM, close s)
                     else
                       let (n, bytes, fsys) = fread (fs_ops l) (stat_filesize stat) 1 fd (open_files s);
                           s = with_mem (write_bytes (pmem s) program_data_ptr bytes) (s\<lparr>open_files := fsys\<rparr>)
                       in if n \<noteq> 1 then (- errno EIO, close s)
                          else (0, close (upd_process p (\<lambda>P. P\<lparr>program := program_data_ptr,
                                                             program_size := stat_filesize stat\<rparr>) s)))"

definition process_load_elf :: "'w loader \<Rightarrow> addr \<Rightarrow> addr \<Rightarrow> 'w procs \<Rightarrow> int \<times> 'w procs" where
  "process_load_elf l filename_ptr p s =
     (let (res, elf_file, m, fsys) = elf_load (fs_ops l) (the_disk_of l) (disk_fs_of l)
            (root_path_of l filename_ptr) (mode_r l) (pmem s) (pheap s) (open_files s);
          s = with_mem m (s\<lparr>open_files := fsys\<rparr>)
      in if res < 0 then (res, s)
         else (res, upd_process p (\<lambda>P. P\<lparr>filetype := PROCESS_FILETYPE_ELF,
                                          program := (case elf_file of None \<Rightarrow> 0 | Some f \<Rightarrow> f)\<rparr>) s))"

definition process_load_data :: "'w loader \<Rightarrow> addr \<Rightarrow> addr \<Rightarrow> 'w procs \<Rightarrow> int \<times> 'w procs" where
  "process_load_data l filename_ptr p s =
     (let (res, s) = process_load_elf l filename_ptr p s
      in if res = - errno EINFORMAT then process_load_binary l filename_ptr p s else (res, s))"

definition process_map_binary :: "addr \<Rightarrow> 'w procs \<Rightarrow> status \<times> 'w procs" where
  "process_map_binary p s =
     (let P = process_at s p in
      (ALL_OK, with_mem (snd (paging_map_to (pmem s) (process_directory p s) PROGRAM_VIRTUAL_ADDRESS
         (program P) (paging_align_address (program P + program_size P))
         (PAGING_IS_PRESENT OR PAGING_ACCESS_FROM_ALL OR PAGING_IS_WRITEABLE))) s))"

definition map_segment :: "addr \<Rightarrow> elf_file \<Rightarrow> addr \<Rightarrow> mem \<Rightarrow> status \<times> mem" where
  "map_segment chunk elf_file phdr m =
     (let phdr_phys_address = elf_phdr_phys_address m elf_file phdr;
          flags = PAGING_IS_PRESENT OR PAGING_ACCESS_FROM_ALL;
          flags = (if p_flags m phdr AND 0x02 \<noteq> 0 then flags OR PAGING_IS_WRITEABLE else flags)
      in paging_map_to m chunk (paging_align_to_lower_page (p_vaddr m phdr))
           (paging_align_to_lower_page phdr_phys_address)
           (paging_align_address (phdr_phys_address + p_memsz m phdr)) flags)"

text \<open>The number of headers left is read again in every round, and so is bounded by \<open>2\<^sup>1\<^sup>6\<close>.\<close>

function map_elf_loop :: "addr \<Rightarrow> elf_file \<Rightarrow> addr \<Rightarrow> nat \<Rightarrow> mem \<Rightarrow> status \<times> mem" where
  "map_elf_loop chunk elf_file phdrs i m =
     (if i < unat (e_phnum m (elf_header elf_file)) then
        (case map_segment chunk elf_file (phdrs + 32 * of_nat i) m of
           (Inl e, m) \<Rightarrow> (Inl e, m)
         | (Inr _, m) \<Rightarrow> map_elf_loop chunk elf_file phdrs (i + 1) m)
      else (ALL_OK, m))"
  by pat_completeness auto
termination
proof (relation "measure (\<lambda>(chunk, elf_file, phdrs, i, m). 65536 - i)")
  fix chunk elf_file phdrs i m x m'
  assume "i < unat (e_phnum m (elf_header elf_file))"
  moreover have "unat (e_phnum m (elf_header elf_file)) < 65536"
    using unsigned_less [of "e_phnum m (elf_header elf_file)"] by simp
  ultimately show "((chunk, elf_file, phdrs, i + 1, m'), chunk, elf_file, phdrs, i, m)
      \<in> measure (\<lambda>(chunk, elf_file, phdrs, i, m). 65536 - i)" by simp
qed simp

declare map_elf_loop.simps [simp del]

definition process_map_elf :: "addr \<Rightarrow> 'w procs \<Rightarrow> status \<times> 'w procs" where
  "process_map_elf p s =
     (let elf_file = elf_file_at (pmem s) (program (process_at s p));
          phdrs = elf_pheader (pmem s) (elf_header elf_file);
          (res, m) = map_elf_loop (process_directory p s) elf_file phdrs 0 (pmem s)
      in (res, with_mem m s))"

text \<open>Any other type of file is a panic.\<close>

definition process_map_memory :: "addr \<Rightarrow> 'w procs \<Rightarrow> (status \<times> 'w procs) option" where
  "process_map_memory p s =
     Option.bind
       (if filetype (process_at s p) = PROCESS_FILETYPE_ELF then Some (process_map_elf p s)
        else if filetype (process_at s p) = PROCESS_FILETYPE_BINARY then Some (process_map_binary p s)
        else None)
       (\<lambda>(res, s).
          Some (case res of
             Inl e \<Rightarrow> (Inl e, s)
           | Inr _ \<Rightarrow>
               (res, with_mem (snd (paging_map_to (pmem s) (process_directory p s)
                  PROGRAM_VIRTUAL_STACK_ADDRESS_END (stack (process_at s p))
                  (paging_align_address (stack (process_at s p) + USER_PROGRAM_STACK_SIZE))
                  (PAGING_IS_PRESENT OR PAGING_ACCESS_FROM_ALL OR PAGING_IS_WRITEABLE))) s)))"

text \<open>
  The clean-up at the label \<open>out\<close>: the task is freed, nothing else.
\<close>

definition load_out :: "int \<Rightarrow> addr \<Rightarrow> 'w procs \<Rightarrow> int \<times> 'w procs" where
  "load_out res p s =
     (res, if res < 0 \<and> p \<noteq> 0 \<and> task_of (process_at s p) \<noteq> 0
           then s\<lparr>ts := snd (task_free (task_of (process_at s p)) (ts s))\<rparr> else s)"

text \<open>A number returned in place of an address: \<open>ERROR(res)\<close>.\<close>

definition error_pointer :: "error + addr \<Rightarrow> addr" where
  "error_pointer r = (case r of Inl e \<Rightarrow> word_of_int (- errno e) | Inr a \<Rightarrow> a)"

text \<open>
  The address stored through \<open>process\<close>, when one is. \<open>junk\<close> is what the local \<open>_process\<close> holds
  before it is set: the first exit reads it. The test after \<open>task_new\<close> compares the address with
  0, which neither an address of a task nor an error number is.
\<close>

definition process_load_for_slot ::
    "'w loader \<Rightarrow> addr \<Rightarrow> addr \<Rightarrow> nat \<Rightarrow> 'w procs \<Rightarrow> (int \<times> addr option \<times> 'w procs) option" where
  "process_load_for_slot l junk filename_ptr process_slot s =
     (let out = (\<lambda>res p s. let (res, s) = load_out res p s in Some (res, None, s)) in
      if process_get (int process_slot) s \<noteq> 0 then out (- errno EISTKN) junk s
      else
        let (p, m) = kzalloc (pmem s) (pheap s) 9364;
            s = with_mem m s
        in if p = 0 then out (- errno ENOMEM) 0 s
           else
             let s = upd_process p (\<lambda>_. process_init) s;
                 (res, s) = process_load_data l filename_ptr p s
             in if res < 0 then out res p s
                else
                  let (program_stack_ptr, m) = kzalloc (pmem s) (pheap s) USER_PROGRAM_STACK_SIZE;
                      s = with_mem m s
                  in if program_stack_ptr = 0 then out (- errno ENOMEM) p s
                     else
                       let name = bytes_at (strncpy (pmem s) (p + 2) filename_ptr MAX_PATH) (p + 2) MAX_PATH;
                           s = upd_process p (\<lambda>P. P\<lparr>filename := name, stack := program_stack_ptr,
                                                    pid := of_nat process_slot\<rparr>) s;
                           entry = e_entry (pmem s) (elf_header (elf_file_at (pmem s) (program (process_at s p))));
                           (task, t) = task_new p (filetype (process_at s p)) entry (ts s);
                           s = s\<lparr>ts := t\<rparr>
                       in if error_pointer task = 0 then out 0 p s
                          else
                            let s = upd_process p (\<lambda>P. P\<lparr>task_of := error_pointer task\<rparr>) s
                            in Option.bind (process_map_memory p s) (\<lambda>(res, s).
                                 case res of
                                   Inl e \<Rightarrow> out (- errno e) p s
                                 | Inr _ \<Rightarrow>
                                     Some (0, Some p, s\<lparr>processes := (processes s)[process_slot := p]\<rparr>)))"

definition process_load ::
    "'w loader \<Rightarrow> addr \<Rightarrow> addr \<Rightarrow> 'w procs \<Rightarrow> (int \<times> addr option \<times> 'w procs) option" where
  "process_load l junk filename_ptr s =
     (case process_get_free_slot s of
        Inl e \<Rightarrow> Some (- errno e, None, s)
      | Inr process_slot \<Rightarrow> process_load_for_slot l junk filename_ptr process_slot s)"

text \<open>\<open>old\<close> is what \<open>*process\<close> holds when nothing is stored through it.\<close>

definition process_load_switch ::
    "'w loader \<Rightarrow> addr \<Rightarrow> addr \<Rightarrow> addr \<Rightarrow> 'w procs \<Rightarrow> (int \<times> addr option \<times> 'w procs) option" where
  "process_load_switch l junk old filename_ptr s =
     Option.bind (process_load l junk filename_ptr s) (\<lambda>(res, p, s).
       Some (res, p, if res = 0 then process_switch (case p of None \<Rightarrow> old | Some p \<Rightarrow> p) s else s))"

section \<open>Lemmas: state\<close>

lemma with_mem_fields [simp]:
  "process_at (with_mem m s) = process_at s" "processes (with_mem m s) = processes s"
  "current_process (with_mem m s) = current_process s" "open_files (with_mem m s) = open_files s"
  "pmem (with_mem m s) = m" "pheap (with_mem m s) = pheap s"
  "task_at (ts (with_mem m s)) = task_at (ts s)"
  by (simp_all add: with_mem_def)

lemma upd_process_fields [simp]:
  "process_at (upd_process p f s) p = f (process_at s p)"
  "q \<noteq> p \<Longrightarrow> process_at (upd_process p f s) q = process_at s q"
  "processes (upd_process p f s) = processes s"
  "current_process (upd_process p f s) = current_process s" "open_files (upd_process p f s) = open_files s"
  "ts (upd_process p f s) = ts s"
  by (simp_all add: upd_process_def)

lemma with_mem_with_mem [simp]: "with_mem m (with_mem m' s) = with_mem m s"
  by (simp add: with_mem_def)

lemma with_mem_self [simp]: "with_mem (pmem s) s = s"
  by (simp add: with_mem_def)

lemma unjoin_fields [simp]:
  "allocations (process_allocation_unjoin ptr P)
     = map (\<lambda>a. if fst a = ptr then (0, 0) else a) (allocations P)"
  "task_of (process_allocation_unjoin ptr P) = task_of P" "pid (process_allocation_unjoin ptr P) = pid P"
  "filetype (process_allocation_unjoin ptr P) = filetype P" "program (process_allocation_unjoin ptr P) = program P"
  "stack (process_allocation_unjoin ptr P) = stack P"
  by (simp_all add: process_allocation_unjoin_def)

section \<open>Lemmas: allocations\<close>

text \<open>Unmapping the allocation after it was cleared maps nothing.\<close>

lemma paging_map_to_nothing [simp]: "paging_map_to m chunk 0 0 0 0 = (ALL_OK, m)"
  by (simp add: paging_map_to_def paging_map_range_def)

lemma paging_align_zero [simp]: "paging_align_address 0 = 0"
  by (simp add: paging_align_address_def)

text \<open>So all that \<open>process_free\<close> does is to clear the table and release the block.\<close>

lemma process_free_eq:
  "process_free p ptr s =
     (if process_is_process_pointer (process_at s p) ptr
      then with_mem (kfree (pmem s) (pheap s) ptr) (upd_process p (process_allocation_unjoin ptr) s)
      else s)"
proof (cases "process_is_process_pointer (process_at s p) ptr")
  case True
  then obtain i where i: "process_get_allocation_by_addr (process_at s p) ptr = Some i"
    by (cases "process_get_allocation_by_addr (process_at s p) ptr")
      (auto simp: process_get_allocation_by_addr_def process_is_process_pointer_def)
  then have "i < length (allocations (process_at s p))" "fst (allocations (process_at s p) ! i) = ptr"
    using first_slot_SomeD by (fastforce simp: process_get_allocation_by_addr_def)+
  then show ?thesis using True i by (simp add: process_free_def Let_def)
qed (simp add: process_free_def)

lemma process_free_fields [simp]:
  "processes (process_free p ptr s) = processes s" "current_process (process_free p ptr s) = current_process s"
  "open_files (process_free p ptr s) = open_files s" "task_at (ts (process_free p ptr s)) = task_at (ts s)"
  "pheap (process_free p ptr s) = pheap s" "pid (process_at (process_free p ptr s) q) = pid (process_at s q)"
  "task_of (process_at (process_free p ptr s) q) = task_of (process_at s q)"
  "filetype (process_at (process_free p ptr s) q) = filetype (process_at s q)"
  by (cases "q = p"; simp add: process_free_eq)+

lemma process_free_allocations:
  "allocations (process_at (process_free p ptr s) p)
     = map (\<lambda>a. if fst a = ptr then (0, 0) else a) (allocations (process_at s p))"
proof (cases "process_is_process_pointer (process_at s p) ptr")
  case False
  then show ?thesis
    by (auto simp: process_free_eq process_is_process_pointer_def intro!: map_idI [symmetric])
qed (simp add: process_free_eq)

text \<open>The two outcomes of \<open>process_malloc\<close>.\<close>

lemma process_malloc_cases:
  "(fst (process_malloc p n s) = 0 \<and> process_at (snd (process_malloc p n s)) = process_at s) \<or>
   (\<exists>ptr i m. process_malloc p n s
        = (ptr, upd_process p (\<lambda>P. P\<lparr>allocations := (allocations P)[i := (ptr, n)]\<rparr>) (with_mem m s))
      \<and> ptr \<noteq> 0 \<and> first_slot (\<lambda>a. fst a = 0) (allocations (process_at s p)) = Some i
      \<and> ptr = fst (kzalloc (pmem s) (pheap s) n))"
proof -
  obtain ptr m where k: "kzalloc (pmem s) (pheap s) n = (ptr, m)" by fastforce
  consider "ptr = 0" | "ptr \<noteq> 0" "first_slot (\<lambda>a. fst a = 0) (allocations (process_at s p)) = None"
    | i where "ptr \<noteq> 0" "first_slot (\<lambda>a. fst a = 0) (allocations (process_at s p)) = Some i"
    by fastforce
  then show ?thesis
  proof cases
    case 3
    obtain res m' where "paging_map_to m (process_directory p (with_mem m s)) ptr ptr
        (paging_align_address (ptr + n))
        (PAGING_IS_WRITEABLE OR PAGING_IS_PRESENT OR PAGING_ACCESS_FROM_ALL) = (res, m')" by fastforce
    then show ?thesis
      using 3 k by (cases res)
        (auto simp: process_malloc_def process_find_free_allocation_index_def Let_def)
  qed (use k in \<open>simp_all add: process_malloc_def process_find_free_allocation_index_def Let_def
      del: first_slot_None\<close>)
qed

section \<open>Lemmas: the memory after a release\<close>

text \<open>Releasing an address of the pool writes entries of the heap's table only.\<close>

lemma heap_address_to_block_nonneg:
  assumes "saddr h \<le> p" "p < 0x80000000" shows "0 \<le> heap_address_to_block h p"
proof -
  have le: "uint (saddr h) \<le> uint p" "uint p < 2147483648"
    using assms by (simp_all add: word_le_def word_less_def)
  then have diff: "0 \<le> uint p - uint (saddr h)" "uint p - uint (saddr h) < 2147483648"
    using uint_ge_0 [of "saddr h"] by linarith+
  then have "uint (p - saddr h) = uint p - uint (saddr h)"
    by (simp add: uint_word_ariths)
  then have "p - saddr h = word_of_int (uint p - uint (saddr h))"
    by (metis word_of_int_uint)
  moreover have "sint (word_of_int (uint p - uint (saddr h)) :: u32) = uint p - uint (saddr h)"
    using le diff by (intro sint_word_of_int_small) auto
  ultimately show ?thesis
    using le by (simp add: heap_address_to_block_def signed_divide_int_def sgn_if)
qed

lemma mark_free_loop_other:
  "0 \<le> i \<Longrightarrow> (\<And>j. j < unat (total t) \<Longrightarrow> x \<noteq> entries t + of_nat j) \<Longrightarrow> mark_free_loop m t i x = m x"
proof (induction m t i rule: mark_free_loop.induct)
  case (1 m t i)
  show ?case
  proof (cases "i < sint (total t)")
    case True
    have "sint (total t) = int (unat (total t))"
      using True 1(2) by (simp add: sint_uint_nonneg)
    then have "nat i < unat (total t)" using True 1(2) by (simp add: nat_less_iff)
    then have "x \<noteq> entries t + of_nat (nat i)" by (rule 1(3))
    then have "x \<noteq> entries t + word_of_int i" using 1(2) by (simp add: of_nat_nat)
    then show ?thesis
      using 1 True by (subst mark_free_loop.simps) (auto simp: Let_def fun_upd_def)
  qed simp
qed

text \<open>The words of a page that lies apart from the table are as they were.\<close>

lemma mark_free_loop_page:
  assumes "apart (entries t) (unat (total t)) q 4096" "i < (1024 :: u32)" "0 \<le> b"
  shows "read32 (mark_free_loop m t b) (q + 4 * i) = read32 m (q + 4 * i)"
proof -
  have "mark_free_loop m t b (q + 4 * i + of_nat k) = m (q + 4 * i + of_nat k)" if "k < 4" for k
  proof (rule mark_free_loop_other [OF assms(3)])
    fix j assume j: "j < unat (total t)"
    have "unat i < 1024" using assms(2) by (simp add: word_less_nat_alt)
    then have "4 * unat i + k < 4096" using that by simp
    from apartD [OF assms(1) j this] show "q + 4 * i + of_nat k \<noteq> entries t + of_nat j"
      by (simp add: add.assoc)
  qed
  from this [of 0] this [of 1] this [of 2] this [of 3] show ?thesis by (simp add: read32_def)
qed

lemma paging_get_kfree:
  assumes "saddr h \<le> ptr" "ptr < 0x80000000" "page_aligned v"
    and "apart (entries (heap_table_of h)) (unat (total (heap_table_of h))) d 4096"
    and "apart (entries (heap_table_of h)) (unat (total (heap_table_of h))) (table_of m d (dir_index v)) 4096"
  shows "paging_get (kfree m h ptr) d v = paging_get m d v"
proof -
  note page = mark_free_loop_page [OF _ _ heap_address_to_block_nonneg [OF assms(1,2)], of "heap_table_of h"]
  have "table_of (kfree m h ptr) d (dir_index v) = table_of m d (dir_index v)"
    using page [OF assms(4)] by (simp add: table_of_def heap_defs)
  then show ?thesis
    using page [OF assms(5)] assms(3) by (simp add: paging_get_slot pte_slot_def heap_defs)
qed

section \<open>Lemmas: loading\<close>

lemma status_iff:
  "(r :: status) \<noteq> ALL_OK \<longleftrightarrow> (\<exists>e. r = Inl e)" "(\<forall>e. (r :: status) \<noteq> Inl e) \<longleftrightarrow> r = ALL_OK"
  by (cases r; simp)+

lemma process_load_binary_fields:
  "processes (snd (process_load_binary l f p s)) = processes s"
  "filetype (process_at (snd (process_load_binary l f p s)) p) = filetype (process_at s p)"
  "task_of (process_at (snd (process_load_binary l f p s)) p) = task_of (process_at s p)"
  by (simp_all add: process_load_binary_def Let_def split: prod.splits sum.splits)

lemma process_load_elf_fields:
  "processes (snd (process_load_elf l f p s)) = processes s"
  "filetype (process_at s p) = 0 \<Longrightarrow> filetype (process_at (snd (process_load_elf l f p s)) p) = 0"
  "task_of (process_at (snd (process_load_elf l f p s)) p) = task_of (process_at s p)"
  by (simp_all add: process_load_elf_def Let_def split: prod.splits)

lemma process_load_data_fields:
  assumes "process_load_data l f p s = (res, s')"
  shows "processes s' = processes s \<and> (filetype (process_at s p) = 0 \<longrightarrow> filetype (process_at s' p) = 0)
    \<and> task_of (process_at s' p) = task_of (process_at s p)"
proof -
  obtain r s1 where "process_load_elf l f p s = (r, s1)" by fastforce
  then have "s' = s1 \<or> s' = snd (process_load_binary l f p s1)" "s1 = snd (process_load_elf l f p s)"
    using assms by (auto simp: process_load_data_def split: if_splits)
  then show ?thesis
    by (auto simp: process_load_binary_fields process_load_elf_fields)
qed

lemma process_map_fields [simp]:
  "process_at (snd (process_map_elf p s)) = process_at s" "processes (snd (process_map_elf p s)) = processes s"
  "process_at (snd (process_map_binary p s)) = process_at s"
  "processes (snd (process_map_binary p s)) = processes s"
  by (simp_all add: process_map_elf_def process_map_binary_def Let_def split: prod.splits)

lemma process_map_memory_fields:
  assumes "process_map_memory p s = Some (res, s')"
  shows "process_at s' = process_at s \<and> processes s' = processes s"
proof -
  define x where "x = (if filetype (process_at s p) = 0 then process_map_elf p s else process_map_binary p s)"
  obtain r1 s1 where x: "x = (r1, s1)" by fastforce
  have "process_at (snd x) = process_at s \<and> processes (snd x) = processes s" by (simp add: x_def)
  moreover have "process_map_memory p s = None \<or> (\<exists>m. process_map_memory p s = Some (r1, with_mem m s1))"
    using x unfolding x_def process_map_memory_def
    by (cases r1) (auto split: if_splits intro: exI [of _ "pmem s1"])
  ultimately show ?thesis using assms x by auto
qed

lemma process_init_fields [simp]: "filetype process_init = 0" "task_of process_init = 0"
  by (simp_all add: process_init_def)

text \<open>A load that succeeds.\<close>

lemma process_load_for_slot_Some:
  assumes "process_load_for_slot l junk f slot s = Some (0, Some p, s')"
  shows "p \<noteq> 0 \<and> process_get (int slot) s = 0 \<and> processes s' = (processes s)[slot := p]
    \<and> filetype (process_at s' p) = 0 \<and> pid (process_at s' p) = of_nat slot \<and> task_of (process_at s' p) \<noteq> 0"
  using assms
  by (auto simp: process_load_for_slot_def Let_def bind_eq_Some_conv status_iff load_out_def
      dest!: process_map_memory_fields process_load_data_fields split: if_splits prod.splits sum.splits)

section \<open>Lemmas: termination and arguments\<close>

lemma process_terminate_allocations_fields:
  "processes (process_terminate_allocations p s) = processes s"
  "current_process (process_terminate_allocations p s) = current_process s"
  "pid (process_at (process_terminate_allocations p s) p) = pid (process_at s p)"
  "filetype (process_at (process_terminate_allocations p s) p) = filetype (process_at s p)"
  "pheap (process_terminate_allocations p s) = pheap s"
proof -
  have "processes (fold (\<lambda>i s. process_free p (fst (allocations (process_at s p) ! i)) s) xs s) = processes s
    \<and> current_process (fold (\<lambda>i s. process_free p (fst (allocations (process_at s p) ! i)) s) xs s) = current_process s
    \<and> pid (process_at (fold (\<lambda>i s. process_free p (fst (allocations (process_at s p) ! i)) s) xs s) p) = pid (process_at s p)
    \<and> filetype (process_at (fold (\<lambda>i s. process_free p (fst (allocations (process_at s p) ! i)) s) xs s) p) = filetype (process_at s p)
    \<and> pheap (fold (\<lambda>i s. process_free p (fst (allocations (process_at s p) ! i)) s) xs s) = pheap s" for xs
    by (induction xs arbitrary: s) simp_all
  then show "processes (process_terminate_allocations p s) = processes s"
    "current_process (process_terminate_allocations p s) = current_process s"
    "pid (process_at (process_terminate_allocations p s) p) = pid (process_at s p)"
    "filetype (process_at (process_terminate_allocations p s) p) = filetype (process_at s p)"
    "pheap (process_terminate_allocations p s) = pheap s"
    unfolding process_terminate_allocations_def by blast+
qed

text \<open>A byte cleared by a release stays cleared through the others.\<close>

lemma process_free_zero: "pmem s a = 0 \<Longrightarrow> pmem (process_free p ptr s) a = 0"
  using heap_free_zero [of "pmem s" "pheap s" ptr a] by (auto simp: process_free_eq kfree_def)

lemma fold_process_free_zero:
  "pmem s a = 0 \<Longrightarrow>
   pmem (fold (\<lambda>i s. process_free p (fst (allocations (process_at s p) ! i)) s) xs s) a = 0"
  by (induction xs arbitrary: s) (simp_all add: process_free_zero)

lemma fold_split_at: "i < n \<Longrightarrow> fold f [0..<n] s = fold f [Suc i..<n] (f i (fold f [0..<i] s))"
proof -
  assume i: "i < n"
  have "[0..<n] = [0..<i] @ [i..<n]" using upt_add_eq_append [of 0 i "n - i"] i by simp
  moreover have "[i..<n] = i # [Suc i..<n]" using i by (rule upt_conv_Cons)
  ultimately have "[0..<n] = [0..<i] @ i # [Suc i..<n]" by simp
  then show ?thesis by simp
qed

lemma fold_process_free_null:
  "i < length (allocations (process_at s p)) \<Longrightarrow> fst (allocations (process_at s p) ! i) = 0 \<Longrightarrow>
   fst (allocations (process_at (fold (\<lambda>i s. process_free p (fst (allocations (process_at s p) ! i)) s) xs s) p) ! i) = 0
   \<and> length (allocations (process_at (fold (\<lambda>i s. process_free p (fst (allocations (process_at s p) ! i)) s) xs s) p))
     = length (allocations (process_at s p))"
  by (induction xs arbitrary: s) (simp_all add: process_free_allocations)

text \<open>A list of arguments of \<open>n\<close> elements.\<close>

inductive argument_list :: "mem \<Rightarrow> addr \<Rightarrow> nat \<Rightarrow> bool" for m where
  stop: "argument_list m 0 0"
| more: "a \<noteq> 0 \<Longrightarrow> argument_list m (read32 m (a + 512)) n \<Longrightarrow> argument_list m a (Suc n)"

lemma count_loop_list: "argument_list m a n \<Longrightarrow> count_loop m a i = Some (i + int n)"
  by (induction a n arbitrary: i rule: argument_list.induct) (simp_all add: count_loop.simps [of m])

lemma count_loop_Some:
  assumes "count_loop m a i = Some k" shows "\<exists>n. argument_list m a n \<and> k = i + int n"
proof (rule count_loop.raw_induct [OF _ assms, where P = "\<lambda>m a i k. \<exists>n. argument_list m a n \<and> k = i + int n"])
  fix loop m a i k
  assume IH: "\<And>m a i k. loop m a i = Some k \<Longrightarrow> \<exists>n. argument_list m a n \<and> k = i + int n"
    and k: "(if a = 0 then Some i else loop m (read32 m (a + 512)) (i + 1)) = Some (k :: int)"
  show "\<exists>n. argument_list m a n \<and> k = i + int n"
  proof (cases "a = 0")
    case True
    then show ?thesis using k by (auto intro: argument_list.stop)
  next
    case False
    then obtain n where "argument_list m (read32 m (a + 512)) n" "k = i + 1 + int n"
      using IH [of m "read32 m (a + 512)" "i + 1" k] k by auto
    then have "argument_list m a (Suc n)" "k = i + int (Suc n)"
      using False by (auto intro: argument_list.more)
    then show ?thesis by blast
  qed
qed

text \<open>No load is a panic: the type of file stays 0, and every outcome but one leaves the table alone.\<close>

definition load_outcome :: "nat \<Rightarrow> 'w procs \<Rightarrow> (int \<times> addr option \<times> 'w procs) option \<Rightarrow> bool" where
  "load_outcome slot s r =
     (case r of
        None \<Rightarrow> False
      | Some (res, None, s') \<Rightarrow> res \<le> 0 \<and> processes s' = processes s
      | Some (res, Some p, s') \<Rightarrow> res = 0 \<and> p \<noteq> 0 \<and> process_get (int slot) s = 0
          \<and> processes s' = (processes s)[slot := p] \<and> filetype (process_at s' p) = 0
          \<and> pid (process_at s' p) = of_nat slot \<and> task_of (process_at s' p) \<noteq> 0)"

lemma load_outcome_out:
  "res \<le> 0 \<Longrightarrow> processes s' = processes s \<Longrightarrow>
   load_outcome slot s (let (res, s) = load_out res p s' in Some (res, None, s))"
  by (simp add: load_outcome_def load_out_def)

lemma process_map_memory_elf:
  "filetype (process_at s p) = 0 \<Longrightarrow> \<exists>res s'. process_map_memory p s = Some (res, s')"
  by (cases "process_map_elf p s"; cases "fst (process_map_elf p s)") (auto simp: process_map_memory_def)

lemma process_load_for_slot_outcome:
  "load_outcome slot s (process_load_for_slot l junk f slot s)"
proof -
  obtain p m where p: "kzalloc (pmem s) (pheap s) 9364 = (p, m)" by fastforce
  let ?s1 = "upd_process p (\<lambda>_. process_init) (with_mem m s)"
  obtain res s2 where d: "process_load_data l f p ?s1 = (res, s2)" by fastforce
  then have s2: "processes s2 = processes s" "filetype (process_at s2 p) = 0"
    using process_load_data_fields by fastforce+
  obtain st m2 where st: "kzalloc (pmem s2) (pheap s2) 16384 = (st, m2)" by fastforce
  let ?name = "bytes_at (strncpy m2 (p + 2) f MAX_PATH) (p + 2) MAX_PATH"
  let ?s3 = "upd_process p (\<lambda>P. P\<lparr>filename := ?name, stack := st, pid := of_nat slot\<rparr>) (with_mem m2 s2)"
  let ?entry = "e_entry m2 (elf_header (elf_file_at m2 (program (process_at s2 p))))"
  obtain t T where t: "task_new p 0 ?entry (ts ?s3) = (t, T)" by fastforce
  let ?s4 = "upd_process p (\<lambda>P. P\<lparr>task_of := error_pointer t\<rparr>) (?s3\<lparr>ts := T\<rparr>)"
  obtain r s5 where r: "process_map_memory p ?s4 = Some (r, s5)"
    using process_map_memory_elf [of ?s4 p] s2(2) by auto
  note s5 = process_map_memory_fields [OF r]
  consider "process_get (int slot) s \<noteq> 0" | "process_get (int slot) s = 0" "p = 0"
    | "process_get (int slot) s = 0" "p \<noteq> 0" "res < 0"
    | "process_get (int slot) s = 0" "p \<noteq> 0" "0 \<le> res" "st = 0"
    | "process_get (int slot) s = 0" "p \<noteq> 0" "0 \<le> res" "st \<noteq> 0" "error_pointer t = 0"
    | "process_get (int slot) s = 0" "p \<noteq> 0" "0 \<le> res" "st \<noteq> 0" "error_pointer t \<noteq> 0"
    by fastforce
  then show ?thesis
  proof cases
    case 6
    then show ?thesis
      using p d st t r s2 s5
      by (cases r) (simp_all add: process_load_for_slot_def Let_def load_outcome_def load_out_def
        order_less_imp_le [OF errno_pos])
  qed (use p d st t s2 in \<open>simp_all add: process_load_for_slot_def Let_def load_outcome_def load_out_def\<close>)
qed

text \<open>Without a free page nothing is loaded.\<close>

lemma process_load_all_free:
  assumes "all_free (pmem s) (heap_table_of (pheap s))" "first_slot (\<lambda>p. p = 0) (processes s) = Some slot" "slot < 12"
  shows "process_load l junk f s = Some (- 3, None, s)"
proof -
  have "kzalloc (pmem s) (pheap s) 9364 = (0, pmem s)" by (rule kzalloc_all_free [OF assms(1)])
  moreover have "process_get (int slot) s = 0"
    using first_slot_SomeD [OF assms(2)] assms(3) by (simp add: process_get_def)
  ultimately show ?thesis
    using assms(2)
    by (simp add: process_load_def process_get_free_slot_def process_load_for_slot_def load_out_def Let_def)
qed

section \<open>A process of its own\<close>

text \<open>A process at \<open>0x9000\<close> with one page of the pool, over the sample tables of \<open>Paging\<close>.\<close>

definition sample_process :: process where
  "sample_process = process_init\<lparr>task_of := 0x1000, allocations := (0x1000000, 4096) # replicate 1023 (0, 0)\<rparr>"

definition sample_procs :: "mem \<Rightarrow> heap \<Rightarrow> unit procs" where
  "sample_procs m h = \<lparr>ts = sample_tasks\<lparr>task_mem := m, task_heap := h\<rparr>,
     process_at = \<lambda>_. sample_process, processes = 0x9000 # replicate 11 0, current_process = 0x9000,
     open_files = sample_vfs\<rparr>"

definition kernel_heap :: heap where
  "kernel_heap = \<lparr>heap_table_of = \<lparr>entries = 0x7E00, total = 25600\<rparr>, saddr = 0x1000000\<rparr>"

lemma sample_procs_fields [simp]:
  "pmem (sample_procs m h) = m" "pheap (sample_procs m h) = h"
  "process_at (sample_procs m h) p = sample_process"
  "processes (sample_procs m h) = 0x9000 # replicate 11 0" "current_process (sample_procs m h) = 0x9000"
  by (simp_all add: sample_procs_def)

lemma sample_process_fields [simp]:
  "allocations sample_process = (0x1000000, 4096) # replicate 1023 (0, 0)"
  "filetype sample_process = 0" "pid sample_process = 0"
  by (simp_all add: sample_process_def process_init_def)

section \<open>Properties\<close>



text \<open>
  C14: Releasing a block takes it out of the process's table but leaves its pages mapped: every
  entry of the page directory is what it was, since the ranges to unmap are computed from the
  place in the table after it was cleared. The hypotheses say that the pages of the directory are
  not inside the table of the heap.
\<close>
theorem process_free_keeps_mapping:
  assumes "saddr (pheap s) \<le> ptr" "ptr < 0x80000000" "page_aligned v"
    and "apart (entries (heap_table_of (pheap s))) (unat (total (heap_table_of (pheap s)))) d 4096"
    and "apart (entries (heap_table_of (pheap s))) (unat (total (heap_table_of (pheap s))))
      (table_of (pmem s) d (dir_index v)) 4096"
  shows "paging_get (pmem (process_free p ptr s)) d v = paging_get (pmem s) d v
    \<and> (ptr \<noteq> 0 \<longrightarrow> \<not> process_is_process_pointer (process_at (process_free p ptr s) p) ptr)"
  using paging_get_kfree [OF assms]
  by (auto simp: process_free_eq process_is_process_pointer_def)

theorem process_free_keeps_mapping_witness:
  "paging_get (pmem (process_free 0x9000 0x1000000 (sample_procs sample_tables kernel_heap))) 0x100000 0x1000000
     = paging_get sample_tables 0x100000 0x1000000
   \<and> \<not> process_is_process_pointer
       (process_at (process_free 0x9000 0x1000000 (sample_procs sample_tables kernel_heap)) 0x9000) 0x1000000"
proof -
  have "apart 0x7E00 25600 0x100000 4096" "apart 0x7E00 25600 0x204000 4096"
    by (rule apart_ranges; simp)+
  moreover have "table_of sample_tables 0x100000 (dir_index 0x1000000) = 0x204000"
    using sample_table [of "dir_index 0x1000000"] by (simp add: dir_index_def)
  ultimately show ?thesis
    using process_free_keeps_mapping [where s = "sample_procs sample_tables kernel_heap" and ptr = "0x1000000" and v = "0x1000000"
        and d = "0x100000" and p = "0x9000"]
    by (simp add: kernel_heap_def page_aligned_def)
qed

text \<open>
  C25: When a process whose table has a free place ends, \<open>process_terminate_allocations\<close> releases
  address 0 as well: block -4096 of the kernel's heap, so that the byte at \<open>0x6E00\<close>, outside the
  table, is cleared.
\<close>
theorem terminate_clears_foreign_byte:
  assumes "pheap s = kernel_heap" "length (allocations (process_at s p)) = 1024"
    and "i < 1024" "fst (allocations (process_at s p) ! i) = 0"
  shows "pmem (process_terminate_allocations p s) 0x6E00 = 0"
proof -
  let ?free = "\<lambda>i s. process_free p (fst (allocations (process_at s p) ! i)) s"
  let ?s = "fold ?free [0..<i] s"
  have heap: "pheap (fold ?free xs s') = pheap s'" for xs and s' :: "'a procs"
    by (induction xs arbitrary: s') simp_all
  have null: "fst (allocations (process_at ?s p) ! i) = 0" "length (allocations (process_at ?s p)) = 1024"
    using fold_process_free_null [of i s p "[0..<i]"] assms by simp_all
  then have "process_is_process_pointer (process_at ?s p) 0"
    using assms(3) nth_mem [of i "allocations (process_at ?s p)"]
    by (auto simp: process_is_process_pointer_def)
  then have "pmem (?free i ?s) = kfree (pmem ?s) kernel_heap 0"
    using null(1) heap assms(1) by (simp add: process_free_eq)
  moreover have "heap_address_to_block kernel_heap 0 = - 4096"
    by (simp add: heap_address_to_block_def kernel_heap_def signed_divide_int_def)
  ultimately have "pmem (?free i ?s) 0x6E00 = 0"
    using mark_free_loop_head [of "- 4096" "heap_table_of kernel_heap" "pmem ?s"]
    by (simp add: kfree_def heap_free_def heap_mark_blocks_free_def kernel_heap_def)
  from fold_process_free_zero [where p = p and xs = "[Suc i..<1024]", OF this] show ?thesis
    using fold_split_at [of i 1024 ?free s] assms(3) by (simp add: process_terminate_allocations_def)
qed

theorem terminate_clears_foreign_byte_witness:
  "pmem (sample_procs (\<lambda>_. 0xFF) kernel_heap) 0x6E00 = 0xFF
   \<and> pmem (process_terminate_allocations 0x9000 (sample_procs (\<lambda>_. 0xFF) kernel_heap)) 0x6E00 = 0"
  using terminate_clears_foreign_byte [where s = "sample_procs (\<lambda>_. 0xFF) kernel_heap" and p = "0x9000" and i = 1] by simp


text \<open>
  On the kernel's heap, after any history of allocations and releases, no process is ever
  loaded: its structure cannot be allocated, and the result is -ENOMEM.
\<close>
theorem kernel_loads_no_process:
  assumes "heap_reachable (pheap s) (pmem s)" "first_slot (\<lambda>p. p = 0) (processes s) = Some slot" "slot < 12"
  shows "process_load l junk f s = Some (- 3, None, s)"
  by (rule process_load_all_free [OF heap_reachable_all_free [OF assms(1)] assms(2,3)])

theorem kernel_loads_no_process_witness:
  "case kheap_init \<lparr>heap_table_of = \<lparr>entries = 0, total = 0\<rparr>, saddr = 0\<rparr> (\<lambda>_. 0) of
     (_, h, m) \<Rightarrow> \<forall>l. process_load l 0 0x8000 (sample_procs m h) = Some (- 3, None, sample_procs m h)"
proof -
  let ?h = "\<lparr>heap_table_of = \<lparr>entries = 0, total = 0\<rparr>, saddr = 0\<rparr>" and ?m = "\<lambda>_. 0 :: u8"
  obtain h' m' where k: "kheap_init ?h ?m = (ALL_OK, h', m')"
    by (simp add: kheap_init_def heap_create_def heap_validate_alignment_def
        heap_validate_table_def Let_def)
  then have "heap_reachable h' m'"
    unfolding kheap_init_def Let_def by (intro heap_reachable.create)
  moreover have "first_slot (\<lambda>p. p = 0) (processes (sample_procs m' h')) = Some 1"
    by (simp add: first_slot_replicate)
  ultimately show ?thesis
    using kernel_loads_no_process [where s = "sample_procs m' h'" and slot = 1 and junk = 0 and f = "0x8000"]
    by (simp add: k)
qed

text \<open>
  C32: Counting the arguments returns exactly on the lists that end, with the length of the list;
  on a list that runs in a circle it does not return.
\<close>
theorem count_arguments_iff:
  "process_count_command_arguments m a = Some k \<longleftrightarrow> (\<exists>n. argument_list m a n \<and> k = int n)"
  using count_loop_list [of m a _ 0] count_loop_Some [of m a 0 k]
  by (auto simp: process_count_command_arguments_def)

text \<open>
  C26: The end of a process of a known type frees its slot and, when it was the current one, makes
  the first of the remaining processes current; the kernel panics when none remains. A process of
  another type stays in the table with the error EINVARG.
\<close>
theorem process_terminate_effect:
  "case process_terminate p s of
     None \<Rightarrow> filetype (process_at s p) \<le> 1 \<and> current_process s = p
       \<and> set ((processes s)[unat (pid (process_at s p)) := 0]) \<subseteq> {0}
   | Some (Inl e, s') \<Rightarrow> 1 < filetype (process_at s p) \<and> e = EINVARG \<and> processes s' = processes s
       \<and> current_process s' = current_process s
   | Some (Inr _, s') \<Rightarrow> filetype (process_at s p) \<le> 1
       \<and> processes s' = (processes s)[unat (pid (process_at s p)) := 0]
       \<and> (if current_process s = p
          then \<exists>i. first_slot (\<lambda>q. q \<noteq> 0) (processes s') = Some i \<and> current_process s' = processes s' ! i
          else current_process s' = current_process s)"
proof -
  let ?s = "process_terminate_allocations p s"
  have le1: "filetype (process_at s p) \<le> 1 \<longleftrightarrow> filetype (process_at s p) = 0 \<or> filetype (process_at s p) = 1"
    by (simp add: word_le_nat_alt word_unat_eq_iff le_Suc_eq)
  note fields = process_terminate_allocations_fields [of p s]
  have unlink: "case process_unlink p s' of
      None \<Rightarrow> current_process s = p \<and> set ((processes s)[unat (pid (process_at s p)) := 0]) \<subseteq> {0}
    | Some s2 \<Rightarrow> processes s2 = (processes s)[unat (pid (process_at s p)) := 0]
       \<and> (if current_process s = p
          then \<exists>i. first_slot (\<lambda>q. q \<noteq> 0) (processes s2) = Some i \<and> current_process s2 = processes s2 ! i
          else current_process s2 = current_process s)"
    if "processes s' = processes s" "current_process s' = current_process s" "pid (process_at s' p) = pid (process_at s p)"
    for s' :: "'a procs"
    using that by (auto simp: process_unlink_def process_switch_to_any_def process_switch_def Let_def
        split: option.splits)
  show ?thesis
  proof (cases "filetype (process_at s p) \<le> 1")
    case True
    then obtain m where fr: "process_free_program_data p ?s = (ALL_OK, with_mem m ?s)"
      using fields by (auto simp: le1 process_free_program_data_def Let_def)
    let ?s1 = "with_mem (kfree m (pheap ?s) (stack (process_at ?s p))) ?s"
    let ?s2 = "?s1\<lparr>ts := snd (task_free (task_of (process_at ?s p)) (ts ?s1))\<rparr>"
    have "process_terminate p s = map_option (\<lambda>s. (ALL_OK, s)) (process_unlink p ?s2)"
      using fr by (simp add: process_terminate_def Let_def)
    then show ?thesis
      using True unlink [of ?s2] fields by (cases "process_unlink p ?s2") (auto split: if_splits)
  next
    case False
    then have "process_free_program_data p ?s = (Inl EINVARG, ?s)"
      using fields by (simp add: le1 process_free_program_data_def Let_def)
    then show ?thesis
      using False fields by (simp add: process_terminate_def not_le)
  qed
qed

end
