(* ===== verification/Interrupts.thy ===== *)
theory Interrupts
  imports Task
begin

unbundle bit_operations_syntax

text \<open>
  Interrupts and system calls (\<^verbatim>\<open>src/idt/idt.c\<close>): the descriptor table, the callbacks, the table
  of kernel commands and the two handlers the assembly calls. A machine is the state of the tasks
  together with the rest \<open>'w\<close> of the kernel, which callbacks and commands may change; they
  return \<open>None\<close> when the kernel panics or does not come back to its caller. The writes to ports
  are recorded in order.
\<close>

record idt_desc =
  offset_1 :: u16
  selector :: u16
  zero :: u8
  type_attr :: u8
  offset_2 :: u16

record 'w machine =
  tasks :: task_state
  ports :: "(u16 \<times> u8) list"
  rest :: 'w

type_synonym 'w interrupt_callback = "interrupt_frame \<Rightarrow> 'w machine \<Rightarrow> 'w machine option"
type_synonym 'w isr80h_command = "interrupt_frame \<Rightarrow> 'w machine \<Rightarrow> (u32 \<times> 'w machine) option"

record 'w idt =
  idt_descriptors :: "idt_desc list"
  idtr_limit :: u16
  idtr_base :: addr
  interrupt_callbacks :: "'w interrupt_callback option list"
  isr80h_commands :: "'w isr80h_command option list"

section \<open>Tables\<close>

definition idt_set :: "nat \<Rightarrow> addr \<Rightarrow> 'w idt \<Rightarrow> 'w idt" where
  "idt_set interrupt_no address s =
     s\<lparr>idt_descriptors := (idt_descriptors s)[interrupt_no :=
        \<lparr>offset_1 = ucast (address AND 0x0000ffff), selector = KERNEL_CODE_SELECTOR, zero = 0x00,
         type_attr = 0xEE, offset_2 = ucast (drop_bit 16 address)\<rparr>]\<rparr>"

definition idt_register_interrupt_callback ::
    "int \<Rightarrow> 'w interrupt_callback \<Rightarrow> 'w idt \<Rightarrow> status \<times> 'w idt" where
  "idt_register_interrupt_callback interrupt callback s =
     (if interrupt < 0 \<or> TOTAL_INTERRUPTS \<le> interrupt then (Inl EINVARG, s)
      else (ALL_OK, s\<lparr>interrupt_callbacks := (interrupt_callbacks s)[nat interrupt := Some callback]\<rparr>))"

definition isr80h_register_command :: "int \<Rightarrow> 'w isr80h_command \<Rightarrow> 'w idt \<Rightarrow> 'w idt option" where
  "isr80h_register_command command_id command s =
     (if command_id < 0 \<or> MAX_ISR80H_COMMANDS \<le> command_id then None
      else if isr80h_commands s ! nat command_id \<noteq> None then None
      else Some (s\<lparr>isr80h_commands := (isr80h_commands s)[nat command_id := Some command]\<rparr>))"

text \<open>
  \<open>base\<close> is the address of the table, \<open>entry i\<close> the assembly stub of interrupt \<open>i\<close>,
  \<open>zero_stub\<close> and \<open>isr80h\<close> the addresses of \<open>idt_zero\<close> and of the system call stub.
\<close>

definition idt_init ::
    "addr \<Rightarrow> (nat \<Rightarrow> addr) \<Rightarrow> addr \<Rightarrow> addr \<Rightarrow> 'w interrupt_callback \<Rightarrow> 'w interrupt_callback
      \<Rightarrow> 'w idt \<Rightarrow> 'w idt" where
  "idt_init base entry zero_stub isr80h idt_handle_exception idt_clock s =
     (let s = s\<lparr>idt_descriptors := replicate TOTAL_INTERRUPTS
                  \<lparr>offset_1 = 0, selector = 0, zero = 0, type_attr = 0, offset_2 = 0\<rparr>\<rparr>;
          s = s\<lparr>idtr_limit := 6 - 1, idtr_base := base\<rparr>;
          s = fold (\<lambda>i. idt_set i (entry i)) [0..<TOTAL_INTERRUPTS] s;
          s = idt_set 0 zero_stub s;
          s = idt_set 0x80 isr80h s;
          s = fold (\<lambda>i s. snd (idt_register_interrupt_callback (int i) idt_handle_exception s)) [0..<0x20] s
      in snd (idt_register_interrupt_callback 0x20 idt_clock s))"

section \<open>Handlers\<close>

definition no_interrupt_handler :: "'w machine \<Rightarrow> 'w machine" where
  "no_interrupt_handler k = k\<lparr>ports := ports k @ [(0x20, 0x20)]\<rparr>"

definition interrupt_handler :: "'w idt \<Rightarrow> nat \<Rightarrow> interrupt_frame \<Rightarrow> 'w machine \<Rightarrow> 'w machine option" where
  "interrupt_handler s interrupt frame k =
     (let k = k\<lparr>tasks := kernel_page (tasks k)\<rparr> in
      case (case interrupt_callbacks s ! interrupt of
              None \<Rightarrow> Some k
            | Some callback \<Rightarrow>
                (case task_current_save_state frame (tasks k) of
                   None \<Rightarrow> None
                 | Some ts \<Rightarrow> callback frame (k\<lparr>tasks := ts\<rparr>))) of
        None \<Rightarrow> None
      | Some k \<Rightarrow>
          let k = k\<lparr>tasks := task_page (tasks k)\<rparr>
          in Some (k\<lparr>ports := ports k @ [(0x20, 0x20)]\<rparr>))"

text \<open>\<open>task_next\<close> is declared in \<^verbatim>\<open>src/task/task.h\<close> but defined nowhere: it is a parameter.\<close>

definition idt_clock :: "('w machine \<Rightarrow> 'w machine option) \<Rightarrow> 'w interrupt_callback" where
  "idt_clock task_next frame k = task_next (k\<lparr>ports := ports k @ [(0x20, 0x20)]\<rparr>)"

definition isr80h_handle_command ::
    "'w idt \<Rightarrow> int \<Rightarrow> interrupt_frame \<Rightarrow> 'w machine \<Rightarrow> (u32 \<times> 'w machine) option" where
  "isr80h_handle_command s command frame k =
     (if command < 0 \<or> MAX_ISR80H_COMMANDS \<le> command then Some (0, k)
      else case isr80h_commands s ! nat command of
        None \<Rightarrow> Some (0, k)
      | Some command_func \<Rightarrow> command_func frame k)"

definition isr80h_handler ::
    "'w idt \<Rightarrow> int \<Rightarrow> interrupt_frame \<Rightarrow> 'w machine \<Rightarrow> (u32 \<times> 'w machine) option" where
  "isr80h_handler s command frame k =
     (let k = k\<lparr>tasks := kernel_page (tasks k)\<rparr> in
      case task_current_save_state frame (tasks k) of
        None \<Rightarrow> None
      | Some ts \<Rightarrow>
          (case isr80h_handle_command s command frame (k\<lparr>tasks := ts\<rparr>) of
             None \<Rightarrow> None
           | Some (res, k) \<Rightarrow> Some (res, k\<lparr>tasks := task_page (tasks k)\<rparr>)))"

text \<open>The command of \<^verbatim>\<open>src/isr80h/misc.c\<close>: the sum of the two words on top of the user stack.\<close>

definition isr80h_command0_sum :: "'w isr80h_command" where
  "isr80h_command0_sum frame k =
     (let (v2, ts) = task_get_stack_item (current_task (tasks k)) 1 (tasks k);
          (v1, ts) = task_get_stack_item (current_task ts) 0 ts
      in Some (v1 + v2, k\<lparr>tasks := ts\<rparr>))"

section \<open>Lemmas\<close>

text \<open>The address a gate jumps to, as the processor puts it together.\<close>

definition gate_address :: "idt_desc \<Rightarrow> addr" where
  "gate_address desc = ucast (offset_1 desc) OR push_bit 16 (ucast (offset_2 desc))"

lemma gate_address_join:
  fixes a :: u32
  shows "ucast (ucast (a AND 0xffff) :: u16) OR push_bit 16 (ucast (ucast (drop_bit 16 a) :: u16)) = a"
proof (rule bit_word_eqI)
  have FFFF: "(0xffff :: u32) = mask 16" by (simp add: mask_eq_exp_minus_1)
  fix n assume "n < LENGTH(32)"
  then show "bit (ucast (ucast (a AND 0xffff) :: u16) OR push_bit 16 (ucast (ucast (drop_bit 16 a) :: u16)) :: u32) n
      = bit a n"
    unfolding FFFF by (cases "n < 16") (auto simp: bit_simps not_less)
qed

lemma fold_idt_set:
  "n \<le> length (idt_descriptors s) \<Longrightarrow>
   length (idt_descriptors (fold (\<lambda>i. idt_set i (entry i)) [0..<n] s)) = length (idt_descriptors s)
   \<and> (\<forall>i<n. idt_descriptors (fold (\<lambda>i. idt_set i (entry i)) [0..<n] s) ! i =
        \<lparr>offset_1 = ucast (entry i AND 0xffff), selector = 8, zero = 0, type_attr = 0xEE,
         offset_2 = ucast (drop_bit 16 (entry i))\<rparr>)
   \<and> interrupt_callbacks (fold (\<lambda>i. idt_set i (entry i)) [0..<n] s) = interrupt_callbacks s
   \<and> idtr_limit (fold (\<lambda>i. idt_set i (entry i)) [0..<n] s) = idtr_limit s"
  by (induction n) (auto simp: idt_set_def nth_list_update less_Suc_eq)

lemma fold_register:
  "n \<le> 512 \<Longrightarrow> n \<le> length (interrupt_callbacks s) \<Longrightarrow>
   idt_descriptors (fold (\<lambda>i s. snd (idt_register_interrupt_callback (int i) cb s)) [0..<n] s) = idt_descriptors s
   \<and> interrupt_callbacks (fold (\<lambda>i s. snd (idt_register_interrupt_callback (int i) cb s)) [0..<n] s)
     = map (\<lambda>i. if i < n then Some cb else interrupt_callbacks s ! i) [0..<length (interrupt_callbacks s)]
   \<and> idtr_limit (fold (\<lambda>i s. snd (idt_register_interrupt_callback (int i) cb s)) [0..<n] s) = idtr_limit s"
  by (induction n)
    (auto simp: idt_register_interrupt_callback_def map_nth intro!: nth_equalityI simp: nth_list_update)

section \<open>Properties\<close>

text \<open>
  After \<open>idt_init\<close> every gate leads to its stub, interrupt 0 and the system call to their
  own; exceptions and the clock have their callbacks and every other interrupt the one it had
  before. But the limit is that of the descriptor of the table instead of the table: the 6 bytes
  it allows do not hold a single gate.
\<close>
theorem idt_init_gates:
  assumes "length (interrupt_callbacks s) = 512"
  shows "let s' = idt_init base entry z isr ex clk s in
    (\<forall>i<512. gate_address (idt_descriptors s' ! i) = (if i = 0x80 then isr else if i = 0 then z else entry i)
       \<and> type_attr (idt_descriptors s' ! i) = 0xEE)
    \<and> (\<forall>i<512. interrupt_callbacks s' ! i = (if i < 0x20 then Some ex else if i = 0x20 then Some clk
         else interrupt_callbacks s ! i))
    \<and> uint (idtr_limit s') + 1 < 8"
proof -
  define s1 where "s1 = s\<lparr>idt_descriptors := replicate 512
      \<lparr>offset_1 = 0, selector = 0, zero = 0, type_attr = 0, offset_2 = 0\<rparr>, idtr_limit := 5, idtr_base := base\<rparr>"
  define s2 where "s2 = fold (\<lambda>i. idt_set i (entry i)) [0..<512] s1"
  define s3 where "s3 = idt_set 0x80 isr (idt_set 0 z s2)"
  define s4 where "s4 = fold (\<lambda>i s. snd (idt_register_interrupt_callback (int i) ex s)) [0..<0x20] s3"
  have init: "idt_init base entry z isr ex clk s = snd (idt_register_interrupt_callback 0x20 clk s4)"
    by (simp add: idt_init_def Let_def s1_def s2_def s3_def s4_def)
  have 2: "length (idt_descriptors s2) = 512" "interrupt_callbacks s2 = interrupt_callbacks s" "idtr_limit s2 = 5"
    "\<And>i. i < 512 \<Longrightarrow> idt_descriptors s2 ! i = \<lparr>offset_1 = ucast (entry i AND 0xffff), selector = 8, zero = 0,
       type_attr = 0xEE, offset_2 = ucast (drop_bit 16 (entry i))\<rparr>"
    using fold_idt_set [of 512 s1 entry] by (simp_all add: s2_def s1_def)
  have 3: "interrupt_callbacks s3 = interrupt_callbacks s" "idtr_limit s3 = 5"
    by (simp_all add: s3_def idt_set_def 2)
  have desc: "gate_address (idt_descriptors s3 ! i) = (if i = 0x80 then isr else if i = 0 then z else entry i)
       \<and> type_attr (idt_descriptors s3 ! i) = 0xEE" if "i < 512" for i
    using that 2 by (simp add: s3_def idt_set_def nth_list_update gate_address_def gate_address_join)
  have 4: "idt_descriptors s4 = idt_descriptors s3" "idtr_limit s4 = 5"
    "interrupt_callbacks s4 = map (\<lambda>i. if i < 0x20 then Some ex else interrupt_callbacks s ! i) [0..<512]"
    using fold_register [of "0x20" s3 ex] assms 3 by (simp_all add: s4_def)
  have "interrupt_callbacks (snd (idt_register_interrupt_callback 0x20 clk s4)) ! i =
      (if i < 0x20 then Some ex else if i = 0x20 then Some clk else interrupt_callbacks s ! i)" if "i < 512" for i
    using that by (simp add: idt_register_interrupt_callback_def 4 nth_list_update)
  moreover have "idt_descriptors (snd (idt_register_interrupt_callback 0x20 clk s4)) = idt_descriptors s3"
    "idtr_limit (snd (idt_register_interrupt_callback 0x20 clk s4)) = 5"
    by (simp_all add: idt_register_interrupt_callback_def 4)
  ultimately show ?thesis using desc by (simp add: init Let_def)
qed

definition sample_idt :: "unit idt" where
  "sample_idt = \<lparr>idt_descriptors = [], idtr_limit = 0, idtr_base = 0,
     interrupt_callbacks = replicate 512 None, isr80h_commands = replicate 1024 None\<rparr>"

theorem idt_init_gates_witness:
  "gate_address (idt_descriptors (idt_init 0x5000 (\<lambda>i. 0x100000 + of_nat i) 0x200000 0x300000
     (\<lambda>_ _. None) (\<lambda>_ _. None) sample_idt) ! 33) = 0x100021"
  using idt_init_gates [of sample_idt "0x5000" "\<lambda>i. 0x100000 + of_nat i" "0x200000" "0x300000" "\<lambda>_ _. None" "\<lambda>_ _. None"]
  by (simp add: sample_idt_def Let_def)

text \<open>
  A system call with a number that is out of range or not registered returns 0, saves the
  caller's registers in its task, and goes back to the pages of the task.
\<close>
theorem isr80h_unknown_command:
  assumes "command < 0 \<or> 1024 \<le> command \<or> isr80h_commands s ! nat command = None"
    and "current_task (tasks k) \<noteq> 0"
  shows "\<exists>k'. isr80h_handler s command frame k = Some (0, k')
    \<and> current_task (tasks k') = current_task (tasks k)
    \<and> eax (regs (task_at (tasks k') (current_task (tasks k)))) = f_eax frame
    \<and> ip (regs (task_at (tasks k') (current_task (tasks k)))) = f_ip frame
    \<and> esp (regs (task_at (tasks k') (current_task (tasks k)))) = f_esp frame
    \<and> cr3 (tasks k') = directory_entry (task_mem (tasks k)) (page_directory (task_at (tasks k) (current_task (tasks k))))"
proof -
  have "isr80h_handle_command s command frame k' = Some (0, k')" for k'
    using assms(1) by (auto simp: isr80h_handle_command_def)
  then show ?thesis
    using assms(2)
    by (simp add: isr80h_handler_def kernel_page_def task_current_save_state_def task_save_state_def
        task_page_def task_switch_def upd_task_def paging_switch_def Let_def)
qed

text \<open>The number 42 on a machine whose third task is running.\<close>
theorem isr80h_unknown_command_witness:
  "\<exists>k'. isr80h_handler sample_idt 42
      \<lparr>f_edi = 0, f_esi = 0, f_ebp = 0, f_reserved = 0, f_ebx = 0, f_edx = 0, f_ecx = 0, f_eax = 7,
       f_ip = 0x400010, f_cs = 0x1b, f_flags = 0x202, f_esp = 0x3FEFF0, f_ss = 0x23\<rparr>
      \<lparr>tasks = sample_tasks, ports = [], rest = ()\<rparr> = Some (0, k')
    \<and> eax (regs (task_at (tasks k') 0x3000)) = 7"
  using isr80h_unknown_command [of 42 sample_idt "\<lparr>tasks = sample_tasks, ports = [], rest = ()\<rparr>"
    "\<lparr>f_edi = 0, f_esi = 0, f_ebp = 0, f_reserved = 0, f_ebx = 0, f_edx = 0, f_ecx = 0, f_eax = 7,
       f_ip = 0x400010, f_cs = 0x1b, f_flags = 0x202, f_esp = 0x3FEFF0, f_ss = 0x23\<rparr>"]
  by (simp add: sample_idt_def sample_tasks_def) blast

end
