(* ===== verification/Syscalls.thy ===== *)
theory Syscalls
  imports Interrupts Process Terminal
begin

unbundle bit_operations_syntax

text \<open>
  The kernel commands of \<^verbatim>\<open>src/isr80h\<close> and the callbacks of exceptions and keys, on the whole
  machine: the tasks with the memory (\<open>tasks\<close>), and as its rest the processes, the screen and the
  lock of the keyboard. The processes hold the tasks too: \<open>procs_of\<close> and \<open>put_procs\<close> keep the two
  in step. A command that loads a program and enters it does not come back to its caller:
  \<open>Enters\<close> gives the registers the processor goes on with. \<open>task_next\<close> and
  \<open>task_virtual_address_to_physical\<close> are declared in \<^verbatim>\<open>src/task/task.h\<close> but defined nowhere: they
  are parameters. So are the addresses of the local arrays on the kernel's stack.
\<close>

record 'w kernel =
  k_procs :: "'w procs"
  screen :: terminal
  lock :: int

type_synonym 'w os = "'w kernel machine"

datatype 'k outcome = Returns u32 'k | Enters registers 'k

definition procs_of :: "'w os \<Rightarrow> 'w procs" where
  "procs_of k = (k_procs (rest k))\<lparr>ts := tasks k\<rparr>"

definition put_procs :: "'w procs \<Rightarrow> 'w os \<Rightarrow> 'w os" where
  "put_procs s k = k\<lparr>tasks := ts s, rest := (rest k)\<lparr>k_procs := s\<rparr>\<rparr>"

definition put_screen :: "terminal \<Rightarrow> 'w os \<Rightarrow> 'w os" where
  "put_screen t k = k\<lparr>rest := (rest k)\<lparr>screen := t\<rparr>\<rparr>"

definition put_mem :: "mem \<Rightarrow> 'w os \<Rightarrow> 'w os" where
  "put_mem m k = k\<lparr>tasks := (tasks k)\<lparr>task_mem := m\<rparr>\<rparr>"

text \<open>\<open>task_current()->process\<close>.\<close>

definition current_owner :: "'w os \<Rightarrow> addr" where
  "current_owner k = task_process (task_at (tasks k) (current_task (tasks k)))"

definition stack_item :: "int \<Rightarrow> 'w os \<Rightarrow> u32 \<times> 'w os" where
  "stack_item i k =
     (let (v, t) = task_get_stack_item (current_task (tasks k)) i (tasks k) in (v, k\<lparr>tasks := t\<rparr>))"

definition copy_string :: "addr \<Rightarrow> addr \<Rightarrow> int \<Rightarrow> 'w os \<Rightarrow> status \<times> 'w os" where
  "copy_string user buf mx k =
     (let (res, t) = copy_string_from_task (current_task (tasks k)) user buf mx (tasks k)
      in (res, k\<lparr>tasks := t\<rparr>))"

section \<open>Terminal and keyboard\<close>

text \<open>The result of the copy is not tested: without it the buffer is printed as it is.\<close>

definition isr80h_command1_print :: "addr \<Rightarrow> 'w kernel isr80h_command" where
  "isr80h_command1_print buf frame k =
     (let (user_space_msg_buffer, k) = stack_item 0 k;
          (_, k) = copy_string user_space_msg_buffer buf 1024 k
      in map_option (\<lambda>t. (0, put_screen t k)) (print (task_mem (tasks k)) buf (screen (rest k))))"

text \<open>\<open>keyboard_pop\<close> takes from the process of the current task.\<close>

definition pop_key :: "'w os \<Rightarrow> u8 \<times> 'w os" where
  "pop_key k =
     (let s = procs_of k; p = current_owner k;
          (c, kb) = keyboard_pop (if current_task (tasks k) = 0 then None else Some (keyboard_of (process_at s p)))
      in case kb of
           None \<Rightarrow> (c, k)
         | Some b \<Rightarrow> (c, put_procs (upd_process p (\<lambda>P. P\<lparr>keyboard_of := b\<rparr>) s) k))"

definition isr80h_command2_getkey :: "'w kernel isr80h_command" where
  "isr80h_command2_getkey frame k = (let (c, k) = pop_key k in Some (scast c, k))"

definition isr80h_command3_putchar :: "'w kernel isr80h_command" where
  "isr80h_command3_putchar frame k =
     (let (v, k) = stack_item 0 k; c = ucast v
      in Some (0, put_screen (terminal_writechar c 15 (screen (rest k))) k))"

text \<open>
  The callback of the keyboard: \<open>keyboard_push\<close> gives the key to the current process, which need
  not be the process of the current task.
\<close>

definition keyboard_callback :: "u8 \<Rightarrow> u8 \<Rightarrow> 'w kernel interrupt_callback" where
  "keyboard_callback after scancode frame k =
     (let s = procs_of k; p = current_process s;
          d = clasic_keyboard_handle_interrupt after scancode
                \<lparr>capslock = lock (rest k),
                 current_buffer = (if p = 0 then None else Some (keyboard_of (process_at s p))),
                 kernel_pages = False\<rparr>;
          s = (case current_buffer d of
                 None \<Rightarrow> s | Some b \<Rightarrow> upd_process p (\<lambda>P. P\<lparr>keyboard_of := b\<rparr>) s);
          t = kernel_page (ts s);
          k = put_procs (s\<lparr>ts := (if kernel_pages d then t else task_page t)\<rparr>) k
      in Some (k\<lparr>rest := (rest k)\<lparr>lock := capslock d\<rparr>\<rparr>))"

section \<open>Memory\<close>

definition isr80h_command4_malloc :: "'w kernel isr80h_command" where
  "isr80h_command4_malloc frame k =
     (let (n, k) = stack_item 0 k;
          (ptr, s) = process_malloc (current_owner k) n (procs_of k)
      in Some (ptr, put_procs s k))"

definition isr80h_command5_free :: "'w kernel isr80h_command" where
  "isr80h_command5_free frame k =
     (let (ptr_to_free, k) = stack_item 0 k
      in Some (0, put_procs (process_free (current_owner k) ptr_to_free (procs_of k)) k))"

section \<open>Programs\<close>

text \<open>\<open>task_switch\<close> to the task of a process, and \<open>task_return\<close> with its registers.\<close>

definition enter_process :: "addr \<Rightarrow> 'w os \<Rightarrow> 'w os outcome" where
  "enter_process p k =
     (let t = task_of (process_at (procs_of k) p);
          k = k\<lparr>tasks := task_switch t (tasks k)\<rparr>
      in Enters (regs (task_at (tasks k) t)) k)"

text \<open>\<open>0:/\<close>, as \<open>strcpy\<close> writes it; \<open>path + 3\<close> is where the name goes.\<close>

definition drive_prefix :: "u8 list" where "drive_prefix = [0x30, 0x3A, 0x2F, 0]"

text \<open>
  \<open>filename\<close> and \<open>path\<close> are the local arrays of 108 bytes. The second copy has no bound: it is
  partial, as \<open>strcpy\<close> is.
\<close>

definition isr80h_command6_process_load_start ::
    "'w loader \<Rightarrow> addr \<Rightarrow> addr \<Rightarrow> addr \<Rightarrow> interrupt_frame \<Rightarrow> 'w os \<Rightarrow> 'w os outcome option" where
  "isr80h_command6_process_load_start l junk filename_buf path frame k =
     (let (filename_user_ptr, k) = stack_item 0 k;
          (res, k) = copy_string filename_user_ptr filename_buf MAX_PATH k
      in case res of
           Inl _ \<Rightarrow> Some (Returns 0 k)
         | Inr _ \<Rightarrow>
             let m = write_bytes (task_mem (tasks k)) path drive_prefix in
             Option.bind (strcpy m (path + 3) filename_buf) (\<lambda>m.
             Option.bind (process_load_switch l junk 0 path (procs_of (put_mem m k))) (\<lambda>(res, p, s).
               let k = put_procs s (put_mem m k)
               in Some (if res < 0 then Returns 0 k
                        else enter_process (case p of None \<Rightarrow> 0 | Some p \<Rightarrow> p) k))))"

definition isr80h_command7_invoke_system_command ::
    "'w loader \<Rightarrow> addr \<Rightarrow> (addr \<Rightarrow> addr \<Rightarrow> 'w os \<Rightarrow> addr) \<Rightarrow> addr \<Rightarrow> interrupt_frame \<Rightarrow> 'w os
      \<Rightarrow> 'w os outcome option" where
  "isr80h_command7_invoke_system_command l junk task_virtual_address_to_physical path frame k =
     (let (v, k) = stack_item 0 k;
          arguments = task_virtual_address_to_physical (current_task (tasks k)) v k
      in Option.bind (if arguments = 0 then Some 0 else strlen (task_mem (tasks k)) arguments) (\<lambda>len.
         if len = 0 then Some (Returns (word_of_int (- errno EINVARG)) k)
         else
           let m = write_bytes (task_mem (tasks k)) path drive_prefix;
               m = strncpy m (path + 3) arguments MAX_PATH
           in Option.bind (process_load_switch l junk 0 path (procs_of (put_mem m k))) (\<lambda>(res, p, s).
                let k = put_procs s (put_mem m k); p = (case p of None \<Rightarrow> 0 | Some p \<Rightarrow> p)
                in if res < 0 then Some (Returns (word_of_int res) k)
                   else Option.bind (process_inject_arguments p arguments (procs_of k)) (\<lambda>(res, s).
                     let k = put_procs s k
                     in Some (case res of
                          Inl e \<Rightarrow> Returns (word_of_int (- errno e)) k
                        | Inr _ \<Rightarrow> enter_process p k)))))"

definition isr80h_command8_get_program_arguments ::
    "(addr \<Rightarrow> addr \<Rightarrow> 'w os \<Rightarrow> addr) \<Rightarrow> 'w kernel isr80h_command" where
  "isr80h_command8_get_program_arguments task_virtual_address_to_physical frame k =
     (let p = current_owner k;
          (v, k) = stack_item 0 k;
          arguments = task_virtual_address_to_physical (current_task (tasks k)) v k;
          (n, a) = process_get_arguments p (procs_of k);
          m = write32 (task_mem (tasks k)) arguments (word_of_int n);
          m = write32 m (arguments + 4) a
      in Some (0, put_mem m k))"

definition isr80h_command9_exit ::
    "('w os \<Rightarrow> 'w os option) \<Rightarrow> 'w kernel isr80h_command" where
  "isr80h_command9_exit task_next frame k =
     Option.bind (process_terminate (current_owner k) (procs_of k)) (\<lambda>(_, s).
       map_option (\<lambda>k. (0, k)) (task_next (put_procs s k)))"

text \<open>An exception ends the process that caused it.\<close>

definition idt_handle_exception :: "('w os \<Rightarrow> 'w os option) \<Rightarrow> 'w kernel interrupt_callback" where
  "idt_handle_exception task_next frame k =
     Option.bind (process_terminate (current_owner k) (procs_of k)) (\<lambda>(_, s). task_next (put_procs s k))"

section \<open>The table of commands\<close>

text \<open>A command as the table holds it: one that enters a program does not come back.\<close>

definition as_command :: "(interrupt_frame \<Rightarrow> 'w os \<Rightarrow> 'w os outcome option) \<Rightarrow> 'w kernel isr80h_command" where
  "as_command f frame k =
     (case f frame k of Some (Returns v k) \<Rightarrow> Some (v, k) | _ \<Rightarrow> None)"

record 'w command_context =
  c_loader :: "'w loader"
  c_junk :: addr
  c_buf :: addr
  c_filename :: addr
  c_path :: addr
  c_physical :: "addr \<Rightarrow> addr \<Rightarrow> 'w os \<Rightarrow> addr"
  c_next :: "'w os \<Rightarrow> 'w os option"

definition commands :: "'w command_context \<Rightarrow> 'w kernel isr80h_command list" where
  "commands c =
     [isr80h_command0_sum, isr80h_command1_print (c_buf c), isr80h_command2_getkey, isr80h_command3_putchar,
      isr80h_command4_malloc, isr80h_command5_free,
      as_command (isr80h_command6_process_load_start (c_loader c) (c_junk c) (c_filename c) (c_path c)),
      as_command (isr80h_command7_invoke_system_command (c_loader c) (c_junk c) (c_physical c) (c_path c)),
      isr80h_command8_get_program_arguments (c_physical c), isr80h_command9_exit (c_next c)]"

definition isr80h_register_commands ::
    "'w command_context \<Rightarrow> 'w kernel idt \<Rightarrow> 'w kernel idt option" where
  "isr80h_register_commands c s =
     fold (\<lambda>(i, command) s. Option.bind s (isr80h_register_command i command))
       (zip [0, 1, 2, 3, 4, 5, 6, 7, 8, 9] (commands c)) (Some s)"

section \<open>Lemmas: state\<close>

lemma put_procs_fields [simp]:
  "tasks (put_procs s k) = ts s" "k_procs (rest (put_procs s k)) = s"
  "screen (rest (put_procs s k)) = screen (rest k)" "lock (rest (put_procs s k)) = lock (rest k)"
  "ports (put_procs s k) = ports k"
  by (simp_all add: put_procs_def)

lemma procs_of_put_procs [simp]: "procs_of (put_procs s k) = s"
  by (simp add: procs_of_def)

lemma procs_of_fields [simp]:
  "ts (procs_of k) = tasks k" "process_at (procs_of k) = process_at (k_procs (rest k))"
  "current_process (procs_of k) = current_process (k_procs (rest k))"
  "processes (procs_of k) = processes (k_procs (rest k))"
  by (simp_all add: procs_of_def)

section \<open>Lemmas: keys\<close>

text \<open>The keys that wait for a process.\<close>

definition waiting_keys :: "addr \<Rightarrow> 'w os \<Rightarrow> u8 list" where
  "waiting_keys p k = kb_contents (keyboard_of (process_at (procs_of k) p))"

definition keys_ok :: "addr \<Rightarrow> 'w os \<Rightarrow> bool" where
  "keys_ok p k \<longleftrightarrow> kb_ok (keyboard_of (process_at (procs_of k) p))"

text \<open>What the driver makes of a scancode: the new lock, and the character, 0 for none.\<close>

definition key_lock :: "u8 \<Rightarrow> int \<Rightarrow> int" where
  "key_lock scancode l =
     (if scancode AND 0x80 = 0 \<and> scancode = 0x3A
      then (if l = KEYBOARD_CAPS_LOCK_ON then KEYBOARD_CAPS_LOCK_OFF else KEYBOARD_CAPS_LOCK_ON) else l)"

definition key_char :: "u8 \<Rightarrow> u8 \<Rightarrow> int \<Rightarrow> u8" where
  "key_char after scancode l =
     (if scancode AND 0x80 \<noteq> 0 then 0
      else classic_keyboard_scancode_to_char after (key_lock scancode l) scancode)"

lemma driver_buffer:
  "current_buffer (clasic_keyboard_handle_interrupt after scancode
     \<lparr>capslock = l, current_buffer = Some kb, kernel_pages = b\<rparr>)
   = (if key_char after scancode l = 0 then Some kb else keyboard_push (key_char after scancode l) (Some kb))"
  by (auto simp: clasic_keyboard_handle_interrupt_def key_char_def key_lock_def Let_def)

lemma queue_Some [simp]: "queue_ok (Some kb) = kb_ok kb" "queue_contents (Some kb) = kb_contents kb"
  by (simp_all add: queue_ok_def queue_contents_def)

lemma keyboard_push_Some: "\<exists>kb'. keyboard_push c (Some kb) = Some kb'"
  by (simp add: keyboard_push_def Let_def)

text \<open>A key on the machine: it joins the queue of the current process and touches no other.\<close>

lemma keyboard_callback_keys:
  assumes "current_process (procs_of k) = p" "p \<noteq> 0" "keys_ok p k" "length (waiting_keys p k) < 1024"
  shows "\<exists>k'. keyboard_callback after scancode frame k = Some k' \<and> keys_ok p k'
    \<and> waiting_keys p k' = waiting_keys p k
        @ (if key_char after scancode (lock (rest k)) = 0 then [] else [key_char after scancode (lock (rest k))])
    \<and> (\<forall>q. q \<noteq> p \<longrightarrow> process_at (procs_of k') q = process_at (procs_of k) q)
    \<and> current_task (tasks k') = current_task (tasks k) \<and> task_at (tasks k') = task_at (tasks k)"
proof -
  let ?kb = "keyboard_of (process_at (procs_of k) p)"
  let ?c = "key_char after scancode (lock (rest k))"
  define d where "d = clasic_keyboard_handle_interrupt after scancode
      \<lparr>capslock = lock (rest k), current_buffer = Some ?kb, kernel_pages = False\<rparr>"
  obtain b where b: "current_buffer d = Some b" "kb_ok b"
      "kb_contents b = kb_contents ?kb @ (if ?c = 0 then [] else [?c])"
  proof (cases "?c = 0")
    case True
    then show ?thesis using that [of ?kb] assms(3) by (simp add: d_def driver_buffer keys_ok_def)
  next
    case False
    obtain b where p: "keyboard_push ?c (Some ?kb) = Some b" using keyboard_push_Some by blast
    have "kb_ok ?kb" "length (kb_contents ?kb) < 1024"
      using assms(3,4) by (simp_all add: keys_ok_def waiting_keys_def)
    then show ?thesis
      using that [of b] p False keys.ok_push [of "Some ?kb" ?c] keys.contents_push [of "Some ?kb" ?c]
      by (simp add: d_def driver_buffer)
  qed
  let ?s = "upd_process p (\<lambda>P. P\<lparr>keyboard_of := b\<rparr>) (procs_of k)"
  let ?t = "kernel_page (tasks k)"
  let ?k = "put_procs (?s\<lparr>ts := (if kernel_pages d then ?t else task_page ?t)\<rparr>) k"
  have run: "keyboard_callback after scancode frame k = Some (?k\<lparr>rest := (rest ?k)\<lparr>lock := capslock d\<rparr>\<rparr>)"
    using assms(1,2) b(1) by (simp add: keyboard_callback_def d_def Let_def)
  have "procs_of (?k\<lparr>rest := (rest ?k)\<lparr>lock := capslock d\<rparr>\<rparr>) = ?s\<lparr>ts := (if kernel_pages d then ?t else task_page ?t)\<rparr>"
    by (simp add: procs_of_def)
  then show ?thesis
    unfolding run using b(2,3)
    by (simp add: keys_ok_def waiting_keys_def kernel_page_def task_page_def task_switch_def)
qed

text \<open>The first of the waiting keys, and 0 without one.\<close>

definition first_key :: "u8 list \<Rightarrow> u8" where
  "first_key xs = (if xs = [] then 0 else hd xs)"

lemma keyboard_pop_contents:
  assumes "kb_ok kb"
  shows "\<exists>b. keyboard_pop (Some kb) = (first_key (kb_contents kb), Some b) \<and> kb_ok b
    \<and> kb_contents b = tl (kb_contents kb)"
proof (cases "kb_contents kb")
  case Nil
  then have "keyboard_pop (Some kb) = (0, Some kb)" using assms keys.pop_Nil [of "Some kb"] by simp
  with Nil assms show ?thesis by (simp add: first_key_def)
next
  case (Cons c xs)
  then obtain q where q: "keyboard_pop (Some kb) = (c, q)" "queue_ok q" "queue_contents q = xs"
    using keys.pop_Cons [of "Some kb" c xs] assms by auto
  then obtain b where "q = Some b" by (cases q) (auto simp: queue_ok_def)
  with q Cons show ?thesis by (simp add: first_key_def)
qed

text \<open>A program fetches a key from the queue of its own process.\<close>

lemma getkey_keys:
  assumes "current_task (tasks k) \<noteq> 0" "keys_ok (current_owner k) k"
  shows "\<exists>k'. isr80h_command2_getkey frame k = Some (scast (first_key (waiting_keys (current_owner k) k)), k')
      \<and> waiting_keys (current_owner k) k' = tl (waiting_keys (current_owner k) k)
      \<and> keys_ok (current_owner k) k' \<and> tasks k' = tasks k"
proof -
  let ?p = "current_owner k" and ?kb = "keyboard_of (process_at (procs_of k) (current_owner k))"
  obtain b where pop: "keyboard_pop (Some ?kb) = (first_key (kb_contents ?kb), Some b)" "kb_ok b"
      "kb_contents b = tl (kb_contents ?kb)"
    using keyboard_pop_contents [of ?kb] assms(2) by (auto simp: keys_ok_def)
  let ?k = "put_procs (upd_process ?p (\<lambda>P. P\<lparr>keyboard_of := b\<rparr>) (procs_of k)) k"
  have "isr80h_command2_getkey frame k = Some (scast (first_key (kb_contents ?kb)), ?k)"
    using assms(1) pop(1) by (simp add: isr80h_command2_getkey_def pop_key_def Let_def)
  moreover have "waiting_keys ?p ?k = tl (waiting_keys ?p k)" "keys_ok ?p ?k" "tasks ?k = tasks k"
    using pop(2,3) by (simp_all add: waiting_keys_def keys_ok_def)
  ultimately show ?thesis by (auto simp: waiting_keys_def)
qed

section \<open>Lemmas: commands without memory\<close>

lemma stack_item_fields [simp]:
  "task_mem (tasks (snd (stack_item i k))) = task_mem (tasks k)"
  "task_heap (tasks (snd (stack_item i k))) = task_heap (tasks k)"
  "task_at (tasks (snd (stack_item i k))) = task_at (tasks k)"
  "current_task (tasks (snd (stack_item i k))) = current_task (tasks k)"
  "rest (snd (stack_item i k)) = rest k" "current_owner (snd (stack_item i k)) = current_owner k"
  by (simp_all add: stack_item_def task_get_stack_item_def task_page_task_def kernel_page_def
      current_owner_def Let_def split: prod.splits)

lemma copy_string_all_free:
  assumes "all_free (task_mem (tasks k)) (heap_table_of (task_heap (tasks k)))" "mx < 4096"
  shows "copy_string user buf mx k = (Inl ENOMEM, k)"
  using assms by (simp add: copy_string_def copy_string_from_task_def kzalloc_all_free Let_def)

lemma process_malloc_all_free:
  assumes "all_free (pmem s) (heap_table_of (pheap s))"
  shows "process_malloc p n s = (0, s)"
  using assms by (simp add: process_malloc_def kzalloc_all_free Let_def)

section \<open>Lemmas: registration\<close>

lemma register_one:
  assumes "isr80h_commands s = xs @ replicate (1024 - length xs) None" "length xs < 1024"
  shows "isr80h_register_command (int (length xs)) c s
    = Some (s\<lparr>isr80h_commands := (xs @ [Some c]) @ replicate (1024 - length (xs @ [Some c])) None\<rparr>)"
proof -
  obtain n where n: "1024 - length xs = Suc n" using assms(2) by (cases "1024 - length xs") auto
  then have "1024 - length (xs @ [Some c]) = n" by simp
  with n assms show ?thesis
    by (simp add: isr80h_register_command_def nth_append list_update_append)
qed

lemma register_all:
  "isr80h_commands s = xs @ replicate (1024 - length xs) None \<Longrightarrow> length xs + length fs \<le> 1024 \<Longrightarrow>
   fold (\<lambda>(i, f) s. Option.bind s (isr80h_register_command i f))
     (zip (map int [length xs..<length xs + length fs]) fs) (Some s)
   = Some (s\<lparr>isr80h_commands := (xs @ map Some fs) @ replicate (1024 - length (xs @ map Some fs)) None\<rparr>)"
proof (induction fs arbitrary: s xs)
  case (Cons f fs)
  have up: "[length xs..<length xs + length (f # fs)] = length xs # [length (xs @ [Some f])..<length (xs @ [Some f]) + length fs]"
    by (simp add: upt_rec)
  let ?s = "s\<lparr>isr80h_commands := (xs @ [Some f]) @ replicate (1024 - length (xs @ [Some f])) None\<rparr>"
  have "isr80h_register_command (int (length xs)) f s = Some ?s"
    using Cons.prems by (intro register_one) simp_all
  with Cons.IH [of ?s "xs @ [Some f]"] Cons.prems show ?case unfolding up by simp
qed simp

lemma commands_zip: "[0, 1, 2, 3, 4, 5, 6, 7, 8, 9] = map int [0..<10]"
  by (simp add: upt_rec)

lemma length_commands [simp]: "length (commands c) = 10"
  by (simp add: commands_def)

lemma isr80h_register_commands_table:
  assumes "isr80h_commands s = replicate 1024 None"
  shows "isr80h_register_commands c s
    = Some (s\<lparr>isr80h_commands := map Some (commands c) @ replicate 1014 None\<rparr>)"
  using register_all [of s "[]" "commands c"] assms
  by (simp add: isr80h_register_commands_def commands_zip)

section \<open>A machine\<close>

definition empty_commands :: "unit kernel idt" where
  "empty_commands = \<lparr>idt_descriptors = [], idtr_limit = 0, idtr_base = 0,
     interrupt_callbacks = replicate 512 None, isr80h_commands = replicate 1024 None\<rparr>"

text \<open>The only process is at \<open>0x9000\<close>; it is in the foreground and its task is running.\<close>

definition sample_os :: "mem \<Rightarrow> heap \<Rightarrow> unit os" where
  "sample_os m h = \<lparr>tasks = sample_tasks\<lparr>task_at := \<lambda>_. (sample_task 0 0)\<lparr>task_process := 0x9000\<rparr>,
       task_mem := m, task_heap := h\<rparr>, ports = [],
     rest = \<lparr>k_procs = sample_procs m h, screen = \<lparr>cells = \<lambda>_. 0, terminal_row = 0, terminal_col = 0\<rparr>,
       lock = 0\<rparr>\<rparr>"

definition sample_frame :: interrupt_frame where
  "sample_frame = \<lparr>f_edi = 0, f_esi = 0, f_ebp = 0, f_reserved = 0, f_ebx = 0, f_edx = 0, f_ecx = 0, f_eax = 2,
     f_ip = 0x400010, f_cs = 0x1b, f_flags = 0x202, f_esp = 0x3FEFF0, f_ss = 0x23\<rparr>"

lemma sample_os_fields [simp]:
  "current_owner (sample_os m h) = 0x9000" "current_process (k_procs (rest (sample_os m h))) = 0x9000"
  "current_task (tasks (sample_os m h)) \<noteq> 0" "lock (rest (sample_os m h)) = 0"
  "task_mem (tasks (sample_os m h)) = m" "task_heap (tasks (sample_os m h)) = h"
  "waiting_keys 0x9000 (sample_os m h) = []" "keys_ok 0x9000 (sample_os m h)"
proof -
  have "keyboard_of sample_process = empty_buffer"
    by (simp add: sample_process_def process_init_def empty_buffer_def)
  then show "waiting_keys 0x9000 (sample_os m h) = []" "keys_ok 0x9000 (sample_os m h)"
    using empty_buffer_ok by (simp_all add: waiting_keys_def keys_ok_def sample_os_def)
qed (simp_all add: sample_os_def current_owner_def sample_tasks_def)

section \<open>Properties\<close>

text \<open>
  On an empty table the registration succeeds: command \<open>n < 10\<close> is then the one of that number,
  every other number does nothing and gives 0. A second registration panics.
\<close>
theorem commands_registered:
  assumes "isr80h_commands s = replicate 1024 None"
  shows "\<exists>s'. isr80h_register_commands c s = Some s'
    \<and> (\<forall>n frame k. isr80h_handle_command s' n frame k
        = (if 0 \<le> n \<and> n < 10 then (commands c ! nat n) frame k else Some (0, k)))
    \<and> isr80h_register_commands c s' = None"
proof -
  let ?s = "s\<lparr>isr80h_commands := map Some (commands c) @ replicate 1014 None\<rparr>"
  have "isr80h_handle_command ?s n frame k
      = (if 0 \<le> n \<and> n < 10 then (commands c ! nat n) frame k else Some (0, k))" for n frame k
    by (auto simp: isr80h_handle_command_def nth_append not_less nat_less_iff nat_le_iff le_nat_iff
        split: option.splits)
  moreover have none: "fold (\<lambda>(i, f) s. Option.bind s (isr80h_register_command i f)) xs None = None" for xs
    by (induction xs) auto
  have "isr80h_register_command 0 (commands c ! 0) ?s = None"
    by (simp add: isr80h_register_command_def nth_append commands_def)
  then have "isr80h_register_commands c ?s = None"
    using none by (simp add: isr80h_register_commands_def commands_def)
  ultimately show ?thesis using isr80h_register_commands_table [OF assms] by blast
qed

theorem commands_registered_witness:
  "\<forall>c. \<exists>s'. isr80h_register_commands c empty_commands = Some s'
    \<and> isr80h_handle_command s' 2 sample_frame (sample_os (\<lambda>_. 0) kernel_heap)
        = isr80h_command2_getkey sample_frame (sample_os (\<lambda>_. 0) kernel_heap)"
proof
  fix c :: "unit command_context"
  have "isr80h_commands empty_commands = replicate 1024 None" by (simp add: empty_commands_def)
  from commands_registered [OF this, of c] show "\<exists>s'. isr80h_register_commands c empty_commands = Some s'
    \<and> isr80h_handle_command s' 2 sample_frame (sample_os (\<lambda>_. 0) kernel_heap)
        = isr80h_command2_getkey sample_frame (sample_os (\<lambda>_. 0) kernel_heap)"
    by (auto simp: commands_def)
qed

text \<open>
  C12: A key goes to the process in the foreground, and a program that asks for one gets the first that
  waits for its own process: the new key only if the foreground process is its own and none waited.
\<close>
theorem key_reaches_reader:
  assumes "current_process (procs_of k) = p" "p \<noteq> 0" "keys_ok p k" "length (waiting_keys p k) < 1024"
    and "current_task (tasks k) \<noteq> 0" "keys_ok (current_owner k) k"
  shows "\<exists>k1 k2. keyboard_callback after scancode frame k = Some k1
    \<and> isr80h_command2_getkey frame' k1 = Some (scast (first_key (waiting_keys (current_owner k) k
        @ (if current_owner k = p \<and> key_char after scancode (lock (rest k)) \<noteq> 0
           then [key_char after scancode (lock (rest k))] else []))), k2)"
proof -
  obtain k1 where k1: "keyboard_callback after scancode frame k = Some k1" "keys_ok p k1"
    "waiting_keys p k1 = waiting_keys p k
        @ (if key_char after scancode (lock (rest k)) = 0 then [] else [key_char after scancode (lock (rest k))])"
    "\<And>q. q \<noteq> p \<Longrightarrow> process_at (procs_of k1) q = process_at (procs_of k) q"
    "current_task (tasks k1) = current_task (tasks k)" "task_at (tasks k1) = task_at (tasks k)"
    using keyboard_callback_keys [OF assms(1-4), of after scancode frame] by blast
  let ?q = "current_owner k"
  have owner: "current_owner k1 = ?q" using k1(5,6) by (simp add: current_owner_def)
  have "keys_ok ?q k1" using k1(2,4) assms(6) by (cases "?q = p") (simp_all add: keys_ok_def)
  then obtain k2 where "isr80h_command2_getkey frame' k1 = Some (scast (first_key (waiting_keys ?q k1)), k2)"
    using getkey_keys [of k1 frame'] k1(5) assms(5) owner by auto
  moreover have "waiting_keys ?q k1 = waiting_keys ?q k @ (if ?q = p \<and> key_char after scancode (lock (rest k)) \<noteq> 0
      then [key_char after scancode (lock (rest k))] else [])"
    using k1(3,4) by (cases "?q = p") (simp_all add: waiting_keys_def)
  ultimately show ?thesis using k1(1) by auto
qed

text \<open>The key A, typed and read.\<close>
theorem key_reaches_reader_witness:
  "\<exists>k1 k2. keyboard_callback 0 0x1E sample_frame (sample_os (\<lambda>_. 0) kernel_heap) = Some k1
    \<and> isr80h_command2_getkey sample_frame k1 = Some (0x61, k2)"
proof -
  have "key_char 0 0x1E 0 = 0x61"
    by (simp add: key_char_def key_lock_def classic_keyboard_scancode_to_char_def keyboard_scan_set_one_def)
  then show ?thesis
    using key_reaches_reader [of "sample_os (\<lambda>_. 0) kernel_heap" "0x9000" 0 "0x1E" sample_frame sample_frame]
    by (simp add: first_key_def)
qed



end
