(* ===== verification/Kernel.thy ===== *)
theory Kernel
  imports Syscalls Gdt Disk
begin

unbundle bit_operations_syntax

text \<open>
  The start of the kernel (\<^verbatim>\<open>kernel_main\<close> of \<^verbatim>\<open>src/kernel.c\<close>): the components in the order in which
  they are set up, the first two processes, and the jump into the first task. The routines in
  assembly (\<open>gdt_load\<close>, \<open>tss_load\<close>, \<open>enable_paging\<close>) change the processor only; the kernel itself
  is modelled on the physical memory, also after paging is on.
\<close>

section \<open>What the kernel is given\<close>

text \<open>
  The places of its globals, stubs and strings, and what is outside: the byte the
  keyboard's port gives, the filesystems, the disk, the
  paths as \<open>pathparser_parse\<close> parses them (in \<open>c_loader\<close>), and the functions that are declared but
  not defined (in the context of the commands).
\<close>

record 'w image =
  gdt_real :: addr
  tss_addr :: addr
  idt_base :: addr
  stub :: "nat \<Rightarrow> addr"
  zero_stub :: addr
  isr80h_stub :: addr
  classic_addr :: addr
  after_scancodes :: u8
  port_byte :: "'w os \<Rightarrow> u8"
  blank_path :: addr
  argument_local :: addr
  context_of :: "'w command_context"

datatype 'w boot_result = Panic string "'w os" | Runs registers "'w os"

section \<open>The keyboard driver\<close>

definition classic_keyboard_init ::
    "'w kernel interrupt_callback \<Rightarrow> addr \<Rightarrow> 'w kernel idt \<Rightarrow> keyboard_list
      \<Rightarrow> 'w kernel idt \<times> keyboard_list \<times> (u16 \<times> u8) list" where
  "classic_keyboard_init handler keyboard i s =
     (snd (idt_register_interrupt_callback 0x21 handler i),
      s\<lparr>keyboards := (keyboards s)(keyboard := keyboard_set_capslock (keyboards s keyboard) KEYBOARD_CAPS_LOCK_OFF)\<rparr>,
      [(0x64, 0xAE)])"

text \<open>The driver runs through \<open>keyboard_insert\<close>; its other effects are those of \<open>classic_keyboard_init\<close>.\<close>

definition keyboard_init ::
    "'w kernel interrupt_callback \<Rightarrow> addr \<Rightarrow> 'w kernel idt \<Rightarrow> keyboard_list
      \<Rightarrow> 'w kernel idt \<times> keyboard_list \<times> (u16 \<times> u8) list" where
  "keyboard_init handler keyboard i s =
     (let (i', _, out) = classic_keyboard_init handler keyboard i s
      in (i', snd (keyboard_insert (\<lambda>s. (ALL_OK, fst (snd (classic_keyboard_init handler keyboard i s)))) keyboard s), out))"

section \<open>The stages\<close>

text \<open>The first stage ends with the heap; the second with the pages of the kernel.\<close>

definition setup_memory :: "'w image \<Rightarrow> mem \<Rightarrow> heap \<Rightarrow> (heap \<times> mem) option" where
  "setup_memory im m h =
     (let m = memset m (gdt_real im) 0 48 in
      map_option (\<lambda>m. snd (kheap_init h m))
        (gdt_structured_to_gdt m (gdt_real im) (kernel_segments (tss_addr im))))"

definition setup_tss :: "addr \<Rightarrow> mem \<Rightarrow> mem" where
  "setup_tss t m =
     (let m = memset m t 0 100;
          m = write32 m (t + 4) 0x600000
      in write32 m (t + 8) KERNEL_DATA_SELECTOR)"

definition setup_interrupts :: "'w image \<Rightarrow> 'w kernel idt \<Rightarrow> 'w kernel idt" where
  "setup_interrupts im i =
     idt_init (idt_base im) (stub im) (zero_stub im) (isr80h_stub im)
       (idt_handle_exception (c_next (context_of im))) (idt_clock (c_next (context_of im))) i"

text \<open>The disk and its filesystem: \<open>fs_resolve\<close> asks every registered filesystem.\<close>

definition setup_files :: "'w image \<Rightarrow> 'w vfs \<Rightarrow> disk \<times> 'w vfs" where
  "setup_files im s =
     (let s = fs_init s;
          (fs, s) = fs_resolve (fs_ops (c_loader (context_of im))) s
      in (disk_search_and_init (\<lambda>d. (fs, d)), s))"

text \<open>No task exists yet; the kernel's chunk is loaded.\<close>

definition first_tasks :: "mem \<Rightarrow> heap \<Rightarrow> addr \<Rightarrow> task_state" where
  "first_tasks m h chunk =
     \<lparr>task_at = \<lambda>_. \<lparr>page_directory = 0, regs = no_registers, task_process = 0, next_task = 0, prev_task = 0\<rparr>,
      current_task = 0, task_tail = 0, task_head = 0, task_mem = m, task_heap = h, kernel_chunk = chunk,
      cr3 = paging_switch m chunk\<rparr>"

definition first_procs :: "task_state \<Rightarrow> 'w vfs \<Rightarrow> 'w procs" where
  "first_procs t s =
     \<lparr>ts = t, process_at = \<lambda>_. process_init, processes = replicate MAX_PROCESSES 0, current_process = 0,
      open_files = s\<rparr>"

section \<open>The first processes\<close>

text \<open>A \<open>struct command_argument\<close> on the stack with one word and no next argument.\<close>

definition one_argument :: "addr \<Rightarrow> u8 list \<Rightarrow> mem \<Rightarrow> mem" where
  "one_argument a word m = write32 (write_bytes m a (word @ [0])) (a + 512) 0"

definition testing_word :: "u8 list" where "testing_word = [0x54, 0x65, 0x73, 0x74, 0x69, 0x6E, 0x67, 0x21]"
definition abc_word :: "u8 list" where "abc_word = [0x41, 0x62, 0x63, 0x21]"

text \<open>The result of the injection is not tested.\<close>

definition inject_word :: "'w image \<Rightarrow> u8 list \<Rightarrow> addr \<Rightarrow> 'w os \<Rightarrow> 'w os option" where
  "inject_word im word p k =
     (let k = put_mem (one_argument (argument_local im) word (task_mem (tasks k))) k
      in map_option (\<lambda>(_, s). put_procs s k) (process_inject_arguments p (argument_local im) (procs_of k)))"

text \<open>A literal of the kernel that ends with a new line, on the screen.\<close>

definition print_line :: "string \<Rightarrow> 'w os \<Rightarrow> 'w os" where
  "print_line msg k =
     put_screen (fold (\<lambda>c. terminal_writechar c 15) (map of_char msg @ [0x0A]) (screen (rest k))) k"

text \<open>The message of a panic is on the screen when the kernel stops.\<close>

definition panic :: "string \<Rightarrow> 'w os \<Rightarrow> 'w boot_result" where
  "panic msg k = Panic msg (print_line msg k)"

text \<open>The gate of interrupt 0 leads here, past the stubs and their callbacks.\<close>

definition idt_zero :: "'w os \<Rightarrow> 'w os" where
  "idt_zero k = print_line ''Divide by zero error!'' k"

text \<open>\<open>*process\<close> keeps its value when the second load does not set it.\<close>

definition first_programs :: "'w loader \<Rightarrow> 'w image \<Rightarrow> 'w os \<Rightarrow> 'w boot_result option" where
  "first_programs l im k =
     Option.bind (process_load l (c_junk (context_of im)) (blank_path im) (procs_of k)) (\<lambda>(res, p, s).
       let k = put_procs s k; p1 = (case p of None \<Rightarrow> 0 | Some p \<Rightarrow> p) in
       if res \<noteq> 0 then Some (panic ''Failed to load process'' k)
       else
         Option.bind (inject_word im testing_word p1 k) (\<lambda>k.
         Option.bind (process_load_switch l (c_junk (context_of im)) p1 (blank_path im) (procs_of k)) (\<lambda>(res, p, s).
           let k = put_procs s k; p2 = (case p of None \<Rightarrow> p1 | Some p \<Rightarrow> p) in
           if res \<noteq> 0 then Some (panic ''Failed to load blank.elf'' k)
           else
             Option.bind (inject_word im abc_word p2 k) (\<lambda>k.
               Some (case task_run_first_ever_task (tasks k) of
                 None \<Rightarrow> panic ''task_run_first_ever_task(): No current task exists!'' k
               | Some (r, t) \<Rightarrow> Runs r (k\<lparr>tasks := t\<rparr>))))))"

definition kernel_main ::
    "'w image \<Rightarrow> mem \<Rightarrow> heap \<Rightarrow> terminal \<Rightarrow> 'w vfs \<Rightarrow> 'w kernel idt \<Rightarrow> keyboard_list
      \<Rightarrow> ('w boot_result \<times> 'w kernel idt \<times> keyboard_list) option" where
  "kernel_main im m h t s i kl =
     (let t = terminal_initialize t in
      Option.bind (setup_memory im m h) (\<lambda>(h, m).
        let (disk, s) = setup_files im s;
            i = setup_interrupts im i;
            m = setup_tss (tss_addr im) m;
            (chunk, m) = paging_new_4gb m h (PAGING_IS_WRITEABLE OR PAGING_IS_PRESENT OR PAGING_ACCESS_FROM_ALL);
            ts = first_tasks m h chunk
        in Option.bind (isr80h_register_commands (context_of im) i) (\<lambda>i.
             let (i, kl, out) = keyboard_init (\<lambda>frame k. keyboard_callback (after_scancodes im) (port_byte im k) frame k) (classic_addr im) i kl;
                 k = \<lparr>tasks = ts, ports = out,
                      rest = \<lparr>k_procs = first_procs ts s, screen = t, lock = KEYBOARD_CAPS_LOCK_OFF\<rparr>\<rparr>;
                 l = (c_loader (context_of im))\<lparr>disk_fs_of := filesystem disk\<rparr>
             in map_option (\<lambda>r. (r, i, kl)) (first_programs l im k))))"

section \<open>Lemmas\<close>

lemma setup_memory_heap:
  "\<exists>h' m'. setup_memory im m h = Some (h', m') \<and> heap_reachable h' m'
    \<and> heap_table_of h' = \<lparr>entries = 0x7E00, total = 25600\<rparr>"
proof -
  let ?m = "memset m (gdt_real im) 0 48"
  obtain m1 where g: "gdt_structured_to_gdt ?m (gdt_real im) (kernel_segments (tss_addr im)) = Some m1"
    by (simp add: kernel_segments_def encodeGdtEntry_def Let_def)
  obtain h' m' where k: "kheap_init h m1 = (ALL_OK, h', m')"
    and t: "heap_table_of h' = \<lparr>entries = 0x7E00, total = 25600\<rparr>"
    by (simp add: kheap_init_def heap_create_def heap_validate_alignment_def
        heap_validate_table_def Let_def)
  then have "heap_reachable h' m'"
    unfolding kheap_init_def Let_def by (intro heap_reachable.create)
  with g k t show ?thesis by (simp add: setup_memory_def Let_def)
qed

lemma heap_entry_low: "i < 25600 \<Longrightarrow> 0x7E00 + (i :: u32) < 0x10000"
  using unat_add_no_wrap [of "0x7E00 :: u32" i] by (simp add: word_less_nat_alt)

text \<open>The task segment lies above the table of the heap.\<close>

lemma setup_tss_low:
  assumes "0x10000 \<le> t" "t < 0xFFFFFF00" "x < 0x10000" shows "setup_tss t m x = m x"
proof -
  have far: "0x100 \<le> x - t"
    using assms by (simp add: word_le_nat_alt word_less_nat_alt unat_sub_if_size word_size)
  then have "unat (x - t) \<ge> 256" by (simp add: word_le_nat_alt)
  then have "4 \<le> x - (t + 4)" "4 \<le> x - (t + 8)" "\<not> x - t < 100"
    by (simp_all add: word_le_nat_alt word_less_nat_alt diff_diff_eq [symmetric] unat_sub_if_size)
  then show ?thesis by (simp add: setup_tss_def write32_other memset_apply)
qed

lemma setup_interrupts_commands: "isr80h_commands (setup_interrupts im i) = isr80h_commands i"
proof -
  have "isr80h_commands (fold (\<lambda>i. idt_set i (e i)) xs s) = isr80h_commands s" for e xs and s :: "'a kernel idt"
    by (induction xs arbitrary: s) (simp_all add: idt_set_def)
  moreover have "isr80h_commands (fold (\<lambda>i s. snd (idt_register_interrupt_callback (int i) c s)) xs s) = isr80h_commands s"
    for c xs and s :: "'a kernel idt"
    by (induction xs arbitrary: s) (simp_all add: idt_register_interrupt_callback_def)
  ultimately show ?thesis
    by (simp add: setup_interrupts_def idt_init_def Let_def idt_set_def idt_register_interrupt_callback_def)
qed

text \<open>A line of printable characters from the cursor on.\<close>

lemma print_line_effect:
  assumes "\<forall>c\<in>set (map of_char msg). printable c" "in_line (screen (rest k))"
    and "cursor (screen (rest k)) + int (length msg) \<le> 65535 * 80"
  shows "tasks (print_line msg k) = tasks k" "k_procs (rest (print_line msg k)) = k_procs (rest k)"
    and "terminal_col (screen (rest (print_line msg k))) = 0"
    and "cells (screen (rest (print_line msg k))) p =
      (let s = cursor (screen (rest k)) in
       if s \<le> p \<and> p < s + int (length msg) then terminal_make_char (of_char (msg ! nat (p - s))) 15
       else cells (screen (rest k)) p)"
  using writechars_printable [OF assms(1,2)] assms(3)
  by (simp_all add: print_line_def put_screen_def terminal_writechar.simps [of "0x0A"] Let_def nat_less_iff)

text \<open>What is on the screen after a message on a cleared screen.\<close>

lemma message_screen:
  fixes t :: terminal
  assumes "\<forall>c\<in>set xs. printable c" "length xs < 80"
  defines "t' \<equiv> fold (\<lambda>c. terminal_writechar c 15) (xs @ [0x0A]) (terminal_initialize t)"
  shows "terminal_row t' = 1 \<and> terminal_col t' = 0
    \<and> (\<forall>p. cells t' p = (if 0 \<le> p \<and> p < int (length xs) then terminal_make_char (xs ! nat p) 15
         else if 0 \<le> p \<and> p < 1600 then 0x20 else cells t p))"
proof -
  let ?t = "terminal_initialize t"
  have start: "in_line ?t" "cursor ?t = 0" by (simp_all add: in_line_def cursor_def terminal_initialize_blank)
  let ?u = "fold (\<lambda>c. terminal_writechar c 15) xs ?t"
  have u: "in_line ?u" "cursor ?u = int (length xs)"
    "cells ?u = (\<lambda>p. if 0 \<le> p \<and> p < int (length xs) then terminal_make_char (xs ! nat p) 15 else cells ?t p)"
    using writechars_printable [OF assms(1) start(1)] assms(2) by (simp_all add: start(2) fun_eq_iff)
  have "uint (terminal_row ?u) * 80 \<le> int (length xs)" using u(2) uint_ge_0 [of "terminal_col ?u"] unfolding cursor_def by linarith
  then have "uint (terminal_row ?u) < 1" using assms(2) by linarith
  then have "terminal_row ?u = 0" by (metis int_one_le_iff_zero_less less_irrefl linorder_not_le uint_0_iff uint_ge_0 order_less_le)
  then show ?thesis
    using u(3) by (simp add: t'_def terminal_writechar.simps terminal_initialize_blank)
qed

lemma panic_on_blank:
  assumes "screen (rest k) = terminal_initialize t"
    and "\<forall>c\<in>set (map of_char msg). printable c" "length msg < 80"
  shows "\<exists>k'. panic msg k = Panic msg k' \<and> tasks k' = tasks k \<and> k_procs (rest k') = k_procs (rest k)
    \<and> terminal_row (screen (rest k')) = 1 \<and> terminal_col (screen (rest k')) = 0
    \<and> (\<forall>p. cells (screen (rest k')) p =
        (if 0 \<le> p \<and> p < int (length msg) then terminal_make_char (of_char (msg ! nat p)) 15
         else if 0 \<le> p \<and> p < 1600 then 0x20 else cells t p))"
  using message_screen [OF assms(2), of t] assms(3)
  by (simp add: panic_def print_line_def put_screen_def assms(1) nat_less_iff)

lemma kernel_main_panics:
  assumes "isr80h_commands i = replicate 1024 None" "0x10000 \<le> tss_addr im" "tss_addr im < 0xFFFFFF00"
  shows "\<exists>k i' kl'. kernel_main im m h t s i kl = Some (Panic ''Failed to load process'' k, i', kl')
    \<and> processes (k_procs (rest k)) = replicate 12 0 \<and> current_task (tasks k) = 0
    \<and> kernel_chunk (tasks k) = 0 \<and> cr3 (tasks k) = 0
    \<and> terminal_row (screen (rest k)) = 1 \<and> terminal_col (screen (rest k)) = 0
    \<and> (\<forall>p. cells (screen (rest k)) p =
        (if 0 \<le> p \<and> p < 22 then terminal_make_char (of_char (''Failed to load process'' ! nat p)) 15
         else if 0 \<le> p \<and> p < 1600 then 0x20 else cells t p))"
proof -
  obtain h1 m1 where mem: "setup_memory im m h = Some (h1, m1)" "heap_reachable h1 m1"
    and tab: "heap_table_of h1 = \<lparr>entries = 0x7E00, total = 25600\<rparr>"
    using setup_memory_heap [of im m h] by blast
  let ?m2 = "setup_tss (tss_addr im) m1"
  have r2: "heap_reachable h1 ?m2"
    using mem(2) setup_tss_low [OF assms(2,3)] heap_entry_low tab
    by (intro heap_reachable.other [of h1 m1 ?m2]) simp_all
  note new = kernel_paging_new [OF r2 tab]
  obtain m3 where p: "paging_new_4gb ?m2 h1 7 = (0, m3)"
    using new(1) [of 7] by (metis prod.collapse)
  have m3: "4096 \<le> x \<Longrightarrow> m3 x = ?m2 x" for x using new(2) [of x 7] p by simp
  have "directory_entry m3 0 = 0" using new(3) [of 7] p by simp
  then have cr: "cr3 (first_tasks m3 h1 0) = 0" by (simp add: first_tasks_def paging_switch_def)
  have "heap_reachable h1 m3"
    using r2 m3 kernel_entry_high tab by (intro heap_reachable.other [of h1 ?m2 m3]) simp_all
  then have free: "all_free m3 (heap_table_of h1)" by (rule heap_reachable_all_free)
  obtain disk s1 where f: "setup_files im s = (disk, s1)" by fastforce
  let ?i = "setup_interrupts im i"
  have "isr80h_commands ?i = replicate 1024 None" using assms(1) by (simp add: setup_interrupts_commands)
  from isr80h_register_commands_table [OF this] obtain i1 where
    i1: "isr80h_register_commands (context_of im) ?i = Some i1" by blast
  obtain i2 kl2 out where key: "keyboard_init (\<lambda>frame k. keyboard_callback (after_scancodes im) (port_byte im k) frame k)
      (classic_addr im) i1 kl = (i2, kl2, out)"
    by (rule prod_cases3)
  let ?k = "\<lparr>tasks = first_tasks m3 h1 0, ports = out, rest = \<lparr>k_procs = first_procs (first_tasks m3 h1 0) s1,
      screen = terminal_initialize t, lock = KEYBOARD_CAPS_LOCK_OFF\<rparr>\<rparr>"
  let ?l = "(c_loader (context_of im))\<lparr>disk_fs_of := filesystem disk\<rparr>"
  have "process_load ?l (c_junk (context_of im)) (blank_path im) (procs_of ?k) = Some (- 3, None, procs_of ?k)"
    using free by (intro process_load_all_free [where slot = 0])
      (simp_all add: first_procs_def first_tasks_def first_slot_replicate)
  then have "first_programs ?l im ?k = Some (panic ''Failed to load process'' (put_procs (procs_of ?k) ?k))"
    by (simp add: first_programs_def Let_def)
  then have "kernel_main im m h t s i kl
      = Some (panic ''Failed to load process'' (put_procs (procs_of ?k) ?k), i2, kl2)"
    using mem(1) f p i1 key by (simp add: kernel_main_def Let_def)
  moreover have "kernel_chunk (first_tasks m3 h1 0) = 0" "current_task (first_tasks m3 h1 0) = 0"
    by (simp_all add: first_tasks_def)
  moreover have "screen (rest (put_procs (procs_of ?k) ?k)) = terminal_initialize t"
    and k: "tasks (put_procs (procs_of ?k) ?k) = first_tasks m3 h1 0"
    "processes (k_procs (rest (put_procs (procs_of ?k) ?k))) = replicate 12 0"
    by (simp_all add: put_procs_def procs_of_def first_procs_def)
  from panic_on_blank [OF this(1), of "''Failed to load process''"] obtain k' where
    "panic ''Failed to load process'' (put_procs (procs_of ?k) ?k) = Panic ''Failed to load process'' k'"
    "tasks k' = first_tasks m3 h1 0" "processes (k_procs (rest k')) = replicate 12 0"
    "terminal_row (screen (rest k')) = 1 \<and> terminal_col (screen (rest k')) = 0
    \<and> (\<forall>p. cells (screen (rest k')) p =
        (if 0 \<le> p \<and> p < 22 then terminal_make_char (of_char (''Failed to load process'' ! nat p)) 15
         else if 0 \<le> p \<and> p < 1600 then 0x20 else cells t p))"
    by (auto simp: printable_def put_procs_def procs_of_def first_procs_def)
  ultimately show ?thesis using cr by simp
qed

section \<open>Properties\<close>


text \<open>An image at 1 MB, over a memory of zeros.\<close>

definition sample_image :: "unit image" where
  "sample_image = \<lparr>gdt_real = 0x110000, tss_addr = 0x120000, idt_base = 0x130000, stub = \<lambda>_. 0x100200,
     zero_stub = 0x100300, isr80h_stub = 0x100400, classic_addr = 0x140000, after_scancodes = 0, port_byte = \<lambda>_. 0,
     blank_path = 0x150000, argument_local = 0x5FF000,
     context_of = \<lparr>c_loader = \<lparr>fs_ops = \<lambda>_. sample_fs, the_disk_of = 0x160000, disk_fs_of = 0, mode_r = 0x170000,
         root_path_of = \<lambda>_. Some (0, [[0x62]])\<rparr>,
       c_junk = 0, c_buf = 0x5FE000, c_filename = 0x5FD000, c_path = 0x5FD100, c_physical = \<lambda>_ a _. a,
       c_next = Some\<rparr>\<rparr>"




end
