(* ===== verification/Wellformed.thy ===== *)
theory Wellformed
  imports Process
begin

unbundle bit_operations_syntax

text \<open>
  What holds of the process structures at all times: the sizes of the arrays in them, and process
  numbers that are places of the table. Every operation of \<^verbatim>\<open>src/task/process.c\<close> keeps it.
\<close>

named_theorems keeps \<open>operations that keep the processes well-formed\<close>

definition process_ok :: "process \<Rightarrow> bool" where
  "process_ok P \<longleftrightarrow> length (allocations P) = MAX_PROGRAM_ALLOCATIONS
     \<and> length (buffer (keyboard_of P)) = KEYBOARD_BUFFER_SIZE \<and> unat (pid P) < MAX_PROCESSES"

definition procs_ok :: "'w procs \<Rightarrow> bool" where
  "procs_ok s \<longleftrightarrow> length (processes s) = MAX_PROCESSES \<and> (\<forall>p. process_ok (process_at s p))"

lemma procs_ok_fields [simp]:
  "procs_ok (with_mem m s) = procs_ok s" "procs_ok (s\<lparr>ts := t\<rparr>) = procs_ok s"
  "procs_ok (s\<lparr>current_process := p\<rparr>) = procs_ok s" "procs_ok (s\<lparr>open_files := f\<rparr>) = procs_ok s"
  "procs_ok (s\<lparr>processes := (processes s)[i := q]\<rparr>) = procs_ok s"
  by (simp_all add: procs_ok_def with_mem_def)

lemma procs_ok_upd: "procs_ok s \<Longrightarrow> (\<And>P. process_ok P \<Longrightarrow> process_ok (f P)) \<Longrightarrow> procs_ok (upd_process p f s)"
  by (simp add: procs_ok_def upd_process_def)

lemma procs_ok_keyboard:
  "procs_ok s \<Longrightarrow> length (buffer b) = KEYBOARD_BUFFER_SIZE \<Longrightarrow> procs_ok (upd_process p (\<lambda>P. P\<lparr>keyboard_of := b\<rparr>) s)"
  by (rule procs_ok_upd) (simp_all add: process_ok_def)

lemma process_ok_init: "process_ok process_init"
  by (simp add: process_ok_def process_init_def)

lemma procs_ok_new: "procs_ok s \<Longrightarrow> procs_ok (upd_process p (\<lambda>_. process_init) s)"
  by (simp add: procs_ok_upd process_ok_init)

lemma process_malloc_keeps [keeps]: "procs_ok s \<Longrightarrow> procs_ok (snd (process_malloc p n s))"
  by (auto simp: process_malloc_def Let_def process_ok_def split: prod.splits sum.splits intro!: procs_ok_upd)

lemma process_free_keeps [keeps]: "procs_ok s \<Longrightarrow> procs_ok (process_free p ptr s)"
  by (auto simp: process_free_def Let_def process_ok_def process_allocation_unjoin_def
      split: prod.splits sum.splits option.splits intro!: procs_ok_upd)

lemma process_terminate_allocations_keeps [keeps]:
  assumes "procs_ok s" shows "procs_ok (process_terminate_allocations p s)"
proof -
  have "procs_ok (fold (\<lambda>i s. process_free p (fst (allocations (process_at s p) ! i)) s) is s)" for "is"
    using assms by (induction "is" arbitrary: s) (simp_all add: keeps)
  then show ?thesis by (simp add: process_terminate_allocations_def)
qed

lemma process_free_program_data_keeps [keeps]:
  "procs_ok s \<Longrightarrow> procs_ok (snd (process_free_program_data p s))"
  by (simp add: process_free_program_data_def Let_def)

lemma process_unlink_keeps [keeps]: "procs_ok s \<Longrightarrow> process_unlink p s = Some s' \<Longrightarrow> procs_ok s'"
  by (auto simp: process_unlink_def process_switch_to_any_def process_switch_def Let_def
      split: if_splits option.splits)

lemma process_terminate_keeps [keeps]:
  assumes "procs_ok s" "process_terminate p s = Some (res, s')" shows "procs_ok s'"
proof -
  obtain r t where f: "process_free_program_data p (process_terminate_allocations p s) = (r, t)" by fastforce
  then have "procs_ok t" using assms(1) keeps by (metis snd_conv)
  with assms(2) f show ?thesis
    by (auto simp: process_terminate_def Let_def split: sum.splits dest: process_unlink_keeps [rotated])
qed

lemma inject_loop_keeps [keeps]:
  assumes "procs_ok s" "inject_loop p argv_ptr current i s = Some (res, s')" shows "procs_ok s'"
proof -
  have "procs_ok s \<longrightarrow> procs_ok (snd r)" if "inject_loop p argv_ptr current i s = Some r" for r
  proof (rule inject_loop.raw_induct [OF _ that, where P = "\<lambda>p a c i s r. procs_ok s \<longrightarrow> procs_ok (snd r)"])
    fix loop p argv_ptr current i and s :: "'w procs" and r
    assume IH: "\<And>p a c i s r. loop p a c i s = Some r \<Longrightarrow> procs_ok s \<longrightarrow> procs_ok (snd r)"
      and r: "(if current = 0 then Some (ALL_OK, s)
        else case process_malloc p 512 s of (argument_str, s) \<Rightarrow>
          (if argument_str = 0 then Some (Inl ENOMEM, s)
           else let m = strncpy (pmem s) argument_str current 512;
                    m = write32 m (argv_ptr + 4 * word_of_int i) argument_str
                in loop p argv_ptr (read32 m (current + 512)) (i + 1) (with_mem m s))) = Some r"
    obtain a t where m: "process_malloc p 512 s = (a, t)" by fastforce
    then have "procs_ok s \<Longrightarrow> procs_ok t" using process_malloc_keeps [of s p 512] by simp
    with r m IH show "procs_ok s \<longrightarrow> procs_ok (snd r)" by (auto simp: Let_def split: if_splits)
  qed
  with assms show ?thesis by force
qed

lemma process_inject_arguments_keeps [keeps]:
  assumes "procs_ok s" "process_inject_arguments p a s = Some (res, s')" shows "procs_ok s'"
proof -
  obtain n where n: "process_count_command_arguments (pmem s) a = Some n"
    using assms(2) by (auto simp: process_inject_arguments_def bind_eq_Some_conv)
  obtain ptr t where m: "process_malloc p (4 * word_of_int n) s = (ptr, t)" by fastforce
  then have t: "procs_ok t" using process_malloc_keeps [OF assms(1), of p "4 * word_of_int n"] by simp
  then show ?thesis
    using assms n m
    by (auto simp: process_inject_arguments_def bind_eq_Some_conv Let_def process_ok_def status_iff
        split: if_splits sum.split_asm intro!: procs_ok_upd dest: inject_loop_keeps [OF t])
qed

lemma process_load_binary_keeps [keeps]: "procs_ok s \<Longrightarrow> procs_ok (snd (process_load_binary l f p s))"
  by (auto simp: process_load_binary_def Let_def process_ok_def split: prod.splits sum.splits intro!: procs_ok_upd)

lemma process_load_elf_keeps [keeps]: "procs_ok s \<Longrightarrow> procs_ok (snd (process_load_elf l f p s))"
  by (auto simp: process_load_elf_def Let_def process_ok_def split: prod.splits intro!: procs_ok_upd)

lemma process_load_data_keeps [keeps]: "procs_ok s \<Longrightarrow> procs_ok (snd (process_load_data l f p s))"
  using process_load_elf_keeps [of s l f p] process_load_binary_keeps [of "snd (process_load_elf l f p s)" l f p]
  by (auto simp: process_load_data_def split: prod.splits)

lemma process_map_keeps:
  "procs_ok (snd (process_map_elf p s)) = procs_ok s" "procs_ok (snd (process_map_binary p s)) = procs_ok s"
  by (simp_all add: process_map_elf_def process_map_binary_def Let_def split: prod.split)

lemma process_map_memory_keeps [keeps]:
  assumes "procs_ok s" "process_map_memory p s = Some (res, s')" shows "procs_ok s'"
proof -
  obtain t where "procs_ok t"
    and "s' = t \<or> (\<exists>m. s' = with_mem m t)"
  proof (cases "filetype (process_at s p) = 0")
    case True
    obtain r t where e: "process_map_elf p s = (r, t)" by fastforce
    with True assms(2) have "s' = t \<or> (\<exists>m. s' = with_mem m t)"
      by (cases r) (auto simp: process_map_memory_def)
    with that [of t] process_map_keeps(1) [of p s] e assms(1) show ?thesis by simp
  next
    case False
    obtain r t where e: "process_map_binary p s = (r, t)" by fastforce
    with False assms(2) have "s' = t \<or> (\<exists>m. s' = with_mem m t)"
      by (cases r) (auto simp: process_map_memory_def split: if_splits)
    with that [of t] process_map_keeps(2) [of p s] e assms(1) show ?thesis by simp
  qed
  then show ?thesis by auto
qed

lemma load_out_keeps [keeps]: "procs_ok s \<Longrightarrow> procs_ok (snd (load_out res p s))"
  by (simp add: load_out_def)

lemma out_iff:
  "(case load_out r p s of (res, s) \<Rightarrow> Some (res, None, s)) = Some (res, q, s') \<longleftrightarrow> load_out r p s = (res, s') \<and> q = None"
  by (auto split: prod.splits)

lemma load_outD: "procs_ok s \<Longrightarrow> load_out r p s = (res, s') \<Longrightarrow> procs_ok s'"
  using load_out_keeps [of s r p] by simp

lemma process_load_for_slot_keeps [keeps]:
  assumes "procs_ok s" "slot < MAX_PROCESSES" "process_load_for_slot l junk f slot s = Some (res, q, s')"
  shows "procs_ok s'"
proof -
  have slot: "unat (of_nat slot :: u16) < MAX_PROCESSES"
    using unat_of_nat_le [of slot, where 'a = 16] assms(2) by simp
  have out: "procs_ok t \<Longrightarrow> (let (res, s) = load_out r p t in Some (res, None, s)) = Some (res, q, s') \<Longrightarrow> procs_ok s'"
    for r p and t :: "'a procs"
    using load_out_keeps [of t r p] by (auto split: prod.splits)
  show ?thesis
  proof (cases "process_get (int slot) s = 0")
    case False
    then show ?thesis using out [OF assms(1)] assms(3) by (simp add: process_load_for_slot_def Let_def)
  next
    case free: True
    obtain p m where p: "kzalloc (pmem s) (pheap s) 9364 = (p, m)" by fastforce
    let ?s1 = "with_mem m s"
    let ?s2 = "upd_process p (\<lambda>_. process_init) ?s1"
    obtain r s3 where d: "process_load_data l f p ?s2 = (r, s3)" by fastforce
    have "procs_ok ?s2" using assms(1) by (simp add: procs_ok_new)
    then have s3: "procs_ok s3" using process_load_data_keeps [of ?s2 l f p] d by simp
    obtain st m4 where st: "kzalloc (pmem s3) (pheap s3) USER_PROGRAM_STACK_SIZE = (st, m4)" by fastforce
    let ?P = "\<lambda>n. \<lambda>P. P\<lparr>filename := n, stack := st, pid := of_nat slot\<rparr>"
    have s5: "procs_ok ((upd_process p (?P n) (with_mem m4 s3))\<lparr>ts := t\<rparr>)" for n t
      unfolding procs_ok_fields using s3 slot by (intro procs_ok_upd) (simp_all add: process_ok_def)
    have s6: "procs_ok (upd_process p (\<lambda>P. P\<lparr>task_of := k\<rparr>) ((upd_process p (?P n) (with_mem m4 s3))\<lparr>ts := t\<rparr>))" for n t k
      using s5 by (intro procs_ok_upd) (simp_all add: process_ok_def)
    note run = assms(3) [unfolded process_load_for_slot_def Let_def]
    show ?thesis
    proof (cases "p = 0 \<or> r < 0 \<or> st = 0")
      case True
      then show ?thesis
        using run free p d st out [of "with_mem m s"] out [OF s3] out [of "with_mem m4 s3"] assms(1) s3
        by (auto split: if_splits)
    next
      case False
      with run free p d st show ?thesis
        by (auto simp: bind_eq_Some_conv status_iff out_iff split: if_splits prod.split_asm sum.split_asm
            dest: load_outD [OF s5] process_map_memory_keeps [OF s6] load_outD)
    qed
  qed
qed

lemma process_load_keeps [keeps]:
  assumes "procs_ok s" "process_load l junk f s = Some (res, q, s')" shows "procs_ok s'"
proof (cases "first_slot (\<lambda>p. p = 0) (processes s)")
  case None
  then show ?thesis using assms unfolding process_load_def process_get_free_slot_def None by simp
next
  case (Some i)
  then have "i < MAX_PROCESSES" using first_slot_Some [of _ "processes s" i] assms(1) by (simp add: procs_ok_def)
  then show ?thesis
    using assms Some process_load_for_slot_keeps [of s i l junk f res q s']
    by (simp add: process_load_def process_get_free_slot_def)
qed

lemma process_load_switch_keeps [keeps]:
  assumes "procs_ok s" "process_load_switch l junk old f s = Some (res, q, s')" shows "procs_ok s'"
  using assms by (auto simp: process_load_switch_def process_switch_def bind_eq_Some_conv
      split: if_splits dest: process_load_keeps)
end
