(* ===== verification/Isolation.thy ===== *)
theory Isolation
  imports Process
begin

unbundle bit_operations_syntax

text \<open>
  Address spaces next to each other: what mapping memory for one process does to the page tables
  of another one. Two chunks are separate when the tables of each lie apart from the directory, the
  tables and the chunk of the other, as the allocator has to hand them out.
\<close>

section \<open>Separate address spaces\<close>

definition tables_avoid :: "mem \<Rightarrow> addr \<Rightarrow> addr \<Rightarrow> addr \<Rightarrow> bool" where
  "tables_avoid m d c2 d2 \<longleftrightarrow> (\<forall>i<1024. table_of m d i \<noteq> d2 \<and> table_of m d i \<noteq> c2 AND 0xfffff000
     \<and> (\<forall>j<1024. table_of m d i \<noteq> table_of m d2 j))"

definition separate_spaces :: "mem \<Rightarrow> addr \<Rightarrow> addr \<Rightarrow> addr \<Rightarrow> addr \<Rightarrow> bool" where
  "separate_spaces m c d c2 d2 \<longleftrightarrow> wf_chunk m c d \<and> wf_chunk m c2 d2 \<and> tables_avoid m d c2 d2 \<and> tables_avoid m d2 c d"

lemma separate_sym: "separate_spaces m c d c2 d2 \<Longrightarrow> separate_spaces m c2 d2 c d"
  by (simp add: separate_spaces_def)

text \<open>The lookups of a directory, kept by an update of the other one.\<close>

lemma table_of_other:
  assumes "separate_spaces m c d c2 d2" "j < 1024"
  shows "table_of (write32 m (pte_slot m d v) x) d2 j = table_of m d2 j"
proof -
  have "table_of m d (dir_index v) \<noteq> d2" "page_aligned d2"
    using assms(1) by (auto simp: separate_spaces_def tables_avoid_def wf_chunk_def wf_directory_def)
  then have "read32 (write32 m (pte_slot m d v) x) (d2 + 4 * j) = read32 m (d2 + 4 * j)"
    using assms(2) by (simp add: pte_slot_def read32_write32_slots)
  then show ?thesis by (simp add: table_of_def)
qed

lemma paging_get_other:
  assumes "separate_spaces m c d c2 d2" "page_aligned w"
  shows "paging_get (write32 m (pte_slot m d v) x) d2 w = paging_get m d2 w"
proof -
  have "table_of m d (dir_index v) \<noteq> table_of m d2 (dir_index w)"
    using assms(1) by (simp add: separate_spaces_def tables_avoid_def)
  moreover have "pte_slot (write32 m (pte_slot m d v) x) d2 w = pte_slot m d2 w"
    using table_of_other [OF assms(1)] by (simp add: pte_slot_def)
  ultimately show ?thesis
    using assms(2) by (simp add: paging_get_slot) (simp add: pte_slot_def read32_write32_slots)
qed

lemma directory_entry_other:
  assumes "separate_spaces m c d c2 d2"
  shows "directory_entry (write32 m (pte_slot m d v) x) c2 = directory_entry m c2"
proof -
  let ?t = "table_of m d (dir_index v)"
  have ne: "?t \<noteq> c2 AND 0xfffff000" and c: "word_aligned c2"
    using assms by (simp_all add: separate_spaces_def tables_avoid_def wf_chunk_def)
  have "c2 \<noteq> pte_slot m d v"
    using ne page_mask_add [OF page_aligned_table_of word_slot_less [OF tab_index_less]]
    by (auto simp: pte_slot_def)
  moreover have "word_aligned (pte_slot m d v)"
    by (simp add: pte_slot_def word_aligned_add page_aligned_word_aligned)
  ultimately show ?thesis
    using c by (simp add: directory_entry_def read32_write32_other word_aligned_apart)
qed

lemma separate_set:
  assumes "separate_spaces m c d c2 d2" shows "separate_spaces (write32 m (pte_slot m d v) x) c d c2 d2"
proof -
  let ?m = "write32 m (pte_slot m d v) x"
  have own: "table_of ?m d i = table_of m d i" if "i < 1024" for i
    using assms that by (simp add: separate_spaces_def wf_chunk_def table_of_set)
  have other: "table_of ?m d2 i = table_of m d2 i" if "i < 1024" for i
    using table_of_other [OF assms that] .
  have "wf_chunk ?m c2 d2"
    using assms directory_entry_other [OF assms, of v x] other
    by (simp add: separate_spaces_def wf_chunk_def wf_directory_def)
  moreover have "tables_avoid ?m d c2 d2" "tables_avoid ?m d2 c d"
    using assms own other by (simp_all add: separate_spaces_def tables_avoid_def)
  ultimately show ?thesis using assms by (simp add: separate_spaces_def wf_chunk_set)
qed

section \<open>Mapping in one of them\<close>

text \<open>
  The page map of the first chunk, with the invariant that the second one is separate and shows
  what it showed before.
\<close>

definition isolated :: "addr \<Rightarrow> addr \<Rightarrow> addr \<Rightarrow> addr \<Rightarrow> (addr \<Rightarrow> u32) \<Rightarrow> mem \<Rightarrow> bool" where
  "isolated c d c2 d2 view m \<longleftrightarrow> separate_spaces m c d c2 d2 \<and> (\<forall>w. page_aligned w \<longrightarrow> paging_get m d2 w = view w)"

lemma isolated_self: "separate_spaces m c d c2 d2 \<Longrightarrow> isolated c d c2 d2 (paging_get m d2) m"
  by (simp add: isolated_def)

lemma isolated_set: "isolated c d c2 d2 view m \<Longrightarrow> isolated c d c2 d2 view (write32 m (pte_slot m d v) x)"
  unfolding isolated_def using separate_set [of m c d c2 d2] paging_get_other [of m c d c2 d2] by simp

lemma isolated_chunk:
  "isolated c d c2 d2 view m \<Longrightarrow> wf_chunk m c d" "isolated c d c2 d2 view m \<Longrightarrow> wf_directory m d"
  by (simp_all add: isolated_def separate_spaces_def wf_chunk_def)

interpretation isolated_map: page_map "\<lambda>m v. paging_get m d v" "\<lambda>m v p f. snd (paging_map m c v p f)"
    "isolated c d c2 d2 view" for c d c2 d2 view
  by unfold_locales
    (auto simp: paging_map_aligned [OF _ _ isolated_chunk(1)] isolated_set paging_get_set dest: isolated_chunk)

lemma paging_map_to_isolated:
  assumes "isolated c d c2 d2 view m"
  shows "isolated c d c2 d2 view (snd (paging_map_to m c virt phys phys_end fl))"
  using assms by (rule paging_map_to_keeps [where d = d]) (simp_all add: isolated_chunk isolated_set)

lemma map_elf_isolated:
  assumes "isolated c d c2 d2 view m"
  shows "isolated c d c2 d2 view (snd (map_elf_loop c elf_file phdrs i m))"
  using assms
proof (induction c elf_file phdrs i m rule: map_elf_loop.induct)
  case (1 c elf_file phdrs i m)
  obtain r m' where seg: "map_segment c elf_file (phdrs + 32 * of_nat i) m = (r, m')" by fastforce
  then have "isolated c d c2 d2 view m'"
    using paging_map_to_isolated [OF "1.prems"] unfolding map_segment_def Let_def by (metis snd_conv)
  then show ?case
    using 1 seg by (subst map_elf_loop.simps) (auto split: sum.split)
qed

lemma process_map_memory_isolated:
  assumes "isolated (process_directory p s) d c2 d2 view (pmem s)" "process_map_memory p s = Some (res, s')"
  shows "isolated (process_directory p s) d c2 d2 view (pmem s') \<and> process_directory p s' = process_directory p s"
proof -
  define x where "x = (if filetype (process_at s p) = 0 then process_map_elf p s else process_map_binary p s)"
  obtain r1 s1 where x: "x = (r1, s1)" by fastforce
  have "isolated (process_directory p s) d c2 d2 view (pmem (snd x)) \<and> process_directory p (snd x) = process_directory p s"
    using paging_map_to_isolated [OF assms(1)] map_elf_isolated [OF assms(1)]
    by (simp add: x_def process_map_elf_def process_map_binary_def process_directory_def with_mem_def Let_def split: prod.split)
       (metis snd_conv)
  then have one: "isolated (process_directory p s) d c2 d2 view (pmem s1)" "process_directory p s1 = process_directory p s"
    by (simp_all add: x)
  have "res = r1 \<and> (s' = s1 \<or> (\<exists>v q e f. s' = with_mem (snd (paging_map_to (pmem s1) (process_directory p s1) v q e f)) s1))"
    using assms(2) x unfolding x_def process_map_memory_def
    by (cases r1) (auto split: if_splits)
  then show ?thesis
    using one paging_map_to_isolated [OF one(1)] by (auto simp: process_directory_def with_mem_def)
qed

section \<open>What a process sees\<close>

lemma page_aligned_lower [simp]: "page_aligned (paging_align_to_lower_page a)"
proof -
  have "paging_align_to_lower_page a = 0 + of_nat (unat a div 4096) * 4096"
    using page_split [of a] by (simp add: paging_align_to_lower_page_def diff_eq_eq)
  then show ?thesis by (metis page_aligned_0 page_aligned_step)
qed

lemma page_aligned_align [simp]: "page_aligned (paging_align_address a)"
proof (cases "a mod 4096 = 0")
  case False
  then have "paging_align_address a = paging_align_to_lower_page a + of_nat 1 * 4096"
    by (simp add: paging_align_address_def paging_align_to_lower_page_def)
  then show ?thesis by (metis page_aligned_lower page_aligned_step)
qed (simp add: paging_align_address_def page_aligned_def)

lemma physical_address_cong:
  "paging_get m d (paging_align_to_lower_page v) = paging_get m' d' (paging_align_to_lower_page v)
    \<Longrightarrow> paging_get_physical_address m d v = paging_get_physical_address m' d' v"
  by (simp add: paging_get_physical_address_def)

lemma isolated_view:
  assumes "isolated c d c2 d2 (paging_get m d2) m'"
  shows "paging_get_physical_address m' d2 v = paging_get_physical_address m d2 v"
  using assms by (intro physical_address_cong) (simp add: isolated_def)

text \<open>A page of the program's range lies above the stack.\<close>

lemma program_page_above_stack:
  assumes "(n :: u32) < 0x80000000" shows "0x4000 \<le> paging_align_to_lower_page (0x400000 + n) - 0x3FB000"
proof -
  have n: "uint n < 0x80000000" "0 \<le> uint n" using assms by (simp_all add: word_less_def)
  then have v: "uint (0x400000 + n) = 0x400000 + uint n" by (simp add: uint_plus_if_size word_size)
  define r where "r = (0x400000 + n) mod 4096"
  have "uint r = (0x400000 + uint n) mod 4096" unfolding r_def by (simp only: uint_mod v) simp
  moreover have "(0x400000 + uint n) mod 4096 < 4096" "0 \<le> (0x400000 + uint n) mod 4096" by simp_all
  ultimately have r: "0 \<le> uint r" "uint r < 4096" by simp_all
  have "uint r \<le> 0x400000 + uint n" using n r by linarith
  then have w: "uint (0x400000 + n - r) = 0x400000 + uint n - uint r" by (simp add: uint_sub_if_size v)
  define q where "q = 0x400000 + n - r"
  have "0x3FB000 \<le> uint q" unfolding q_def w using n r by linarith
  then have "uint (q - 0x3FB000) = uint q - 0x3FB000" by (simp add: uint_sub_if_size)
  then have "uint (q - 0x3FB000) = 0x5000 + uint n - uint r" unfolding q_def w by simp
  then have "0x4000 \<le> uint (q - 0x3FB000)" using n r by linarith
  then have "0x4000 \<le> q - 0x3FB000" by (simp add: word_le_def)
  then show ?thesis by (simp only: q_def r_def paging_align_to_lower_page_def)
qed

section \<open>Two address spaces\<close>

text \<open>
  Chunks at \<open>0x3000\<close> and \<open>0x3004\<close>, directories at \<open>0x100000\<close> and \<open>0x101000\<close>, the tables from
  \<open>0x200000\<close> and \<open>0x600000\<close> on.
\<close>

definition two_words :: "u32 \<Rightarrow> u32" where
  "two_words x = (if x = 0xC00 then 0x100000 else if x = 0xC01 then 0x101000
     else if x - 0x40000 < 1024 then 0x200000 + (x - 0x40000) * 4096
     else if x - 0x40400 < 1024 then 0x600000 + (x - 0x40400) * 4096 else 0)"

definition two_tables :: mem where
  "two_tables = mem_of_words two_words"

lemma two_table:
  assumes "i < 1024"
  shows "table_of two_tables 0x100000 i = 0x200000 + i * 4096" "table_of two_tables 0x101000 i = 0x600000 + i * 4096"
proof -
  have i: "unat i < 1024" using assms by (simp add: word_less_nat_alt)
  have al: "word_aligned (0x100000 + 4 * i)" "word_aligned (0x101000 + 4 * i)"
    by (rule word_aligned_add; simp add: word_aligned_def)+
  have q: "(0x100000 + 4 * i) div 4 = 0x40000 + i" "(0x101000 + 4 * i) div 4 = 0x40400 + i"
    using i by (simp_all add: word_unat_eq_iff unat_div unat_word_ariths)
  have "(q + i * 4096) AND 0xfffff000 = q + i * 4096" if "page_aligned q" for q
    using page_mask_add [OF page_aligned_step [OF that], of 0 "unat i"] by simp
  from this [of "0x200000"] this [of "0x600000"]
  have mask: "(0x200000 + i * 4096) AND 0xfffff000 = 0x200000 + i * 4096" "(0x600000 + i * 4096) AND 0xfffff000 = 0x600000 + i * 4096"
    by (simp_all add: page_aligned_def)
  have "two_words (0x40000 + i) = 0x200000 + i * 4096" "two_words (0x40400 + i) = 0x600000 + i * 4096"
    using assms i by (auto simp: two_words_def word_unat_eq_iff word_less_nat_alt unat_word_ariths unat_sub_if_size)
  then show "table_of two_tables 0x100000 i = 0x200000 + i * 4096" "table_of two_tables 0x101000 i = 0x600000 + i * 4096"
    using mask by (simp_all add: table_of_def two_tables_def read32_mem_of_words al q)
qed

lemma two_table_unat:
  "(i :: u32) < 1024 \<Longrightarrow> unat (0x200000 + i * 4096) = 0x200000 + unat i * 4096"
  "(i :: u32) < 1024 \<Longrightarrow> unat (0x600000 + i * 4096) = 0x600000 + unat i * 4096"
  by (simp_all add: word_less_nat_alt unat_word_ariths)

lemma two_separate: "separate_spaces two_tables 0x3000 0x100000 0x3004 0x101000"
proof -
  note t = two_table two_table_unat word_unat_eq_iff word_less_nat_alt
  have "directory_entry two_tables 0x3000 = 0x100000" "directory_entry two_tables 0x3004 = 0x101000"
    by (simp_all add: directory_entry_def two_tables_def read32_mem_of_words word_aligned_def two_words_def)
  moreover have "wf_directory two_tables 0x100000" "wf_directory two_tables 0x101000"
    by (auto simp: wf_directory_def t page_aligned_def)
  ultimately show ?thesis
    by (auto simp: separate_spaces_def tables_avoid_def wf_chunk_def word_aligned_def t)
qed

section \<open>Properties\<close>

text \<open>
  C6: Mapping a program and its stack into the address space of its process, whether it succeeds or
  not, leaves every translation of another address space as it was, as long as the tables of the
  two lie apart; and they lie apart afterwards.
\<close>
theorem process_memory_isolated:
  assumes "separate_spaces (pmem s) (process_directory p s) d c2 d2" "process_map_memory p s = Some (res, s')"
  shows "separate_spaces (pmem s') (process_directory p s') d c2 d2
    \<and> paging_get_physical_address (pmem s') d2 v = paging_get_physical_address (pmem s) d2 v"
proof -
  have iso: "isolated (process_directory p s) d c2 d2 (paging_get (pmem s) d2) (pmem s')"
    and dir: "process_directory p s' = process_directory p s"
    using process_map_memory_isolated [OF isolated_self [OF assms(1)] assms(2)] by blast+
  then have "separate_spaces (pmem s') (process_directory p s') d c2 d2" by (simp add: isolated_def)
  then show ?thesis using isolated_view [OF iso] by blast
qed

text \<open>
  A flat program that is loaded on a page boundary finds itself at \<open>0x400000\<close> and its stack, 16 KB,
  below \<open>0x3FF000\<close>: every address of the two ranges translates to the byte at the same offset of the
  memory they were loaded into.
\<close>
theorem process_map_memory_maps:
  assumes "wf_chunk (pmem s) (process_directory p s) d" "filetype (process_at s p) = PROCESS_FILETYPE_BINARY"
    and "program (process_at s p) = a" "stack (process_at s p) = b" "page_aligned a" "page_aligned b" "b \<le> b + 0x4000"
    and "paging_align_address (a + program_size (process_at s p)) = e" "a \<le> e" "e - a \<le> 0x80000000"
  shows "\<exists>s'. process_map_memory p s = Some (ALL_OK, s')
    \<and> (\<forall>n<e - a. paging_get_physical_address (pmem s') d (PROGRAM_VIRTUAL_ADDRESS + n) = a + n)
    \<and> (\<forall>n<0x4000. paging_get_physical_address (pmem s') d (PROGRAM_VIRTUAL_STACK_ADDRESS_END + n) = b + n)"
proof -
  have e: "page_aligned e" using assms(8) by auto
  obtain m1 where m1: "paging_map_to (pmem s) (process_directory p s) 0x400000 a e 7 = (ALL_OK, m1)"
      "wf_chunk m1 (process_directory p s) d" "\<forall>n<e - a. paging_get_physical_address m1 d (0x400000 + n) = a + n"
    using paging_map_to_ranges [OF assms(1) _ assms(5) e assms(9), of "0x400000" 7] by (auto simp: page_aligned_def)
  have top: "paging_align_address (b + 0x4000) = b + 0x4000" "page_aligned (b + 0x4000)"
    using page_aligned_step [OF assms(6), of 4] by (simp_all add: paging_align_address_def page_aligned_def)
  obtain m2 where m2: "paging_map_to m1 (process_directory p s) 0x3FB000 b (b + 0x4000) 7 = (ALL_OK, m2)"
      "\<forall>n<0x4000. paging_get_physical_address m2 d (0x3FB000 + n) = b + n"
      "\<forall>w. page_aligned w \<and> 0x4000 \<le> w - 0x3FB000 \<longrightarrow> paging_get m2 d w = paging_get m1 d w"
    using paging_map_to_ranges [OF m1(2) _ assms(6) top(2) assms(7), of "0x3FB000" 7] by (auto simp: page_aligned_def)
  have "paging_get_physical_address m2 d (0x400000 + n) = a + n" if "n < e - a" for n
    using m1(3) m2(3) program_page_above_stack [of n] that assms(10)
      physical_address_cong [of m2 d "0x400000 + n" m1 d] by simp
  moreover have "process_map_memory p s = Some (ALL_OK, with_mem m2 (with_mem m1 s))"
    using assms m1(1) m2(1) top(1)
    by (simp add: process_map_memory_def process_map_binary_def process_directory_def with_mem_def)
  ultimately show ?thesis using m2(2) by simp
qed

text \<open>A flat program of \<open>0x1234\<close> bytes at \<open>0x800000\<close> with its stack at \<open>0x900000\<close>.\<close>

definition sample_space :: "unit procs" where
  "sample_space = (sample_procs two_tables kernel_heap)\<lparr>
     ts := sample_tasks\<lparr>task_at := \<lambda>_. (sample_task 0 0)\<lparr>page_directory := 0x3000\<rparr>, task_mem := two_tables\<rparr>,
     process_at := \<lambda>_. sample_process\<lparr>filetype := 1, program := 0x800000, program_size := 0x1234, stack := 0x900000\<rparr>\<rparr>"

lemma sample_space_fields:
  "pmem sample_space = two_tables" "process_directory p sample_space = 0x3000"
  "filetype (process_at sample_space p) = 1" "program (process_at sample_space p) = 0x800000"
  "stack (process_at sample_space p) = 0x900000" "program_size (process_at sample_space p) = 0x1234"
  by (simp_all add: sample_space_def process_directory_def)

theorem process_map_memory_maps_witness:
  "\<exists>s'. process_map_memory 0x9000 sample_space = Some (ALL_OK, s')
    \<and> paging_get_physical_address (pmem s') 0x100000 0x401042 = 0x801042
    \<and> paging_get_physical_address (pmem s') 0x100000 0x3FEFFF = 0x903FFF"
proof -
  have "wf_chunk (pmem sample_space) (process_directory 0x9000 sample_space) 0x100000"
    using two_separate by (simp add: sample_space_fields separate_spaces_def)
  from process_map_memory_maps [OF this, of "0x800000" "0x900000" "0x802000"]
  obtain s' where s': "process_map_memory 0x9000 sample_space = Some (ALL_OK, s')"
      "\<forall>n<0x2000. paging_get_physical_address (pmem s') 0x100000 (0x400000 + n) = 0x800000 + n"
      "\<forall>n<0x4000. paging_get_physical_address (pmem s') 0x100000 (0x3FB000 + n) = 0x900000 + n"
    by (auto simp: sample_space_fields page_aligned_def paging_align_address_def)
  from s'(2) [rule_format, of "0x1042"] s'(3) [rule_format, of "0x3FFF"] s'(1) show ?thesis by simp
qed

theorem process_memory_isolated_witness:
  "\<exists>res s'. process_map_memory 0x9000 sample_space = Some (res, s')
    \<and> paging_get_physical_address (pmem s') 0x101000 0x401042
      = paging_get_physical_address two_tables 0x101000 0x401042"
proof -
  have "process_map_memory 0x9000 sample_space \<noteq> None"
    by (simp add: process_map_memory_def sample_space_fields split: prod.split)
  then obtain res s' where m: "process_map_memory 0x9000 sample_space = Some (res, s')" by fastforce
  have "separate_spaces (pmem sample_space) (process_directory 0x9000 sample_space) 0x100000 0x3004 0x101000"
    using two_separate by (simp add: sample_space_fields)
  from process_memory_isolated [OF this m, of "0x401042"] m show ?thesis by (simp add: sample_space_fields)
qed

end
