(* ===== verification/Elf_Map.thy ===== *)
theory Elf_Map
  imports Isolation
begin

unbundle bit_operations_syntax

text \<open>
  The memory of a process loaded from an ELF file: what \<open>process_map_elf\<close> and \<open>process_map_memory\<close> put
  into its page tables, as a list of ranges.
\<close>

section \<open>What mapping leaves alone\<close>

text \<open>The memory \<open>X\<close> lies in none of the tables \<open>T\<close> and holds what it holds in \<open>g\<close>.\<close>

definition quiet :: "addr \<Rightarrow> addr \<Rightarrow> (u32 \<Rightarrow> addr) \<Rightarrow> addr set \<Rightarrow> mem \<Rightarrow> mem \<Rightarrow> bool" where
  "quiet c d T X g m \<longleftrightarrow> wf_chunk m c d \<and> (\<forall>i<1024. table_of m d i = T i)
     \<and> (\<forall>a\<in>X. m a = g a \<and> (\<forall>i<1024. 4096 \<le> a - T i))"

lemma quiet_chunk:
  "quiet c d T X g m \<Longrightarrow> wf_chunk m c d" "quiet c d T X g m \<Longrightarrow> wf_directory m d"
  unfolding quiet_def wf_chunk_def by blast+

lemma quiet_set: "quiet c d T X g m \<Longrightarrow> quiet c d T X g (write32 m (pte_slot m d v) x)"
proof -
  assume q: "quiet c d T X g m"
  let ?m = "write32 m (pte_slot m d v) x"
  note wf = quiet_chunk [OF q]
  have "?m a = m a" if "a \<in> X" for a
  proof -
    have j: "unat (tab_index v) < 1024" using tab_index_less [of v] by (simp add: word_less_nat_alt)
    have "4096 \<le> a - T (dir_index v)" using q that by (simp add: quiet_def)
    from far_from_slot [OF j this] have "4 \<le> a - (T (dir_index v) + 4 * tab_index v)"
      by (simp add: diff_diff_eq)
    moreover have "pte_slot m d v = T (dir_index v) + 4 * tab_index v" using q by (simp add: quiet_def pte_slot_def)
    ultimately show ?thesis by (simp add: write32_other)
  qed
  then show ?thesis using q wf table_of_set [OF wf(2)] by (simp add: quiet_def wf_chunk_set)
qed

lemma paging_map_to_quiet:
  "quiet c d T X g m \<Longrightarrow> quiet c d T X g (snd (paging_map_to m c virt phys phys_end fl))"
  by (rule paging_map_to_keeps [where P = "quiet c d T X g" and d = d]) (simp_all add: quiet_chunk quiet_set)

section \<open>Ranges\<close>

text \<open>A range of virtual addresses with the start and the end of its memory, and its flags.\<close>

type_synonym range = "addr \<times> addr \<times> addr \<times> u32"

fun range_ok :: "range \<Rightarrow> bool" where
  "range_ok (v, p, e, f) \<longleftrightarrow> page_aligned v \<and> page_aligned p \<and> page_aligned e \<and> p \<le> e \<and> f < 4096"

fun in_range :: "addr \<Rightarrow> range \<Rightarrow> bool" where
  "in_range w (v, p, e, f) \<longleftrightarrow> w - v < e - p"

definition apart_ranges_of :: "range \<Rightarrow> range \<Rightarrow> bool" where
  "apart_ranges_of r r' \<longleftrightarrow> (\<nexists>w. in_range w r \<and> in_range w r')"

fun shows_range :: "mem \<Rightarrow> addr \<Rightarrow> range \<Rightarrow> bool" where
  "shows_range m d (v, p, e, f) \<longleftrightarrow> (\<forall>x<e - p. paging_get_physical_address m d (v + x) = p + x)"

fun map_ranges :: "addr \<Rightarrow> range list \<Rightarrow> mem \<Rightarrow> status \<times> mem" where
  "map_ranges c [] m = (ALL_OK, m)"
| "map_ranges c ((v, p, e, f) # rs) m =
     (case paging_map_to m c v p e f of
        (Inl er, m) \<Rightarrow> (Inl er, m)
      | (Inr _, m) \<Rightarrow> map_ranges c rs m)"

lemma lower_page_in_range:
  assumes "page_aligned v" "(x :: u32) < n" shows "paging_align_to_lower_page (v + x) - v < n"
proof -
  have v: "uint v mod 4096 = 0" using assms(1) by (simp add: page_aligned_uint)
  have "uint ((v + x) mod 4096) = (uint v + uint x) mod 4096"
    by (simp add: uint_mod uint_word_ariths mod_mod_cancel)
  also have "\<dots> = (uint v mod 4096 + uint x) mod 4096" by (simp only: mod_add_left_eq)
  also have "\<dots> = uint (x mod 4096)" using v by (simp add: uint_mod)
  finally have "paging_align_to_lower_page (v + x) - v = x - x mod 4096"
    by (simp add: paging_align_to_lower_page_def)
  moreover have "x - x mod 4096 \<le> x" by (rule word_sub_le) (simp add: word_le_nat_alt unat_mod)
  ultimately show ?thesis using assms(2) by simp
qed

text \<open>Ranges apart from one another are all mapped, and nothing else is.\<close>

lemma map_ranges_shows:
  assumes "list_all range_ok rs" "sorted_wrt apart_ranges_of rs" "wf_chunk m c d"
  shows "\<exists>m'. map_ranges c rs m = (ALL_OK, m') \<and> wf_chunk m' c d \<and> list_all (shows_range m' d) rs
    \<and> (\<forall>w. page_aligned w \<and> list_all (\<lambda>r. \<not> in_range w r) rs \<longrightarrow> paging_get m' d w = paging_get m d w)"
  using assms
proof (induction rs arbitrary: m)
  case (Cons r rs)
  obtain v p e f where r: "r = (v, p, e, f)" by (cases r) auto
  have ok: "page_aligned v" "page_aligned p" "page_aligned e" "p \<le> e" "f < 4096" using Cons.prems(1) r by simp_all
  obtain m1 where m1: "paging_map_to m c v p e f = (ALL_OK, m1)" "wf_chunk m1 c d"
      "\<forall>n<e - p. paging_get_physical_address m1 d (v + n) = p + n"
      "\<forall>w. page_aligned w \<and> e - p \<le> w - v \<longrightarrow> paging_get m1 d w = paging_get m d w"
    using paging_map_to_ranges [OF Cons.prems(3) ok] by blast
  obtain m' where m': "map_ranges c rs m1 = (ALL_OK, m')" "wf_chunk m' c d" "list_all (shows_range m' d) rs"
      "\<forall>w. page_aligned w \<and> list_all (\<lambda>r. \<not> in_range w r) rs \<longrightarrow> paging_get m' d w = paging_get m1 d w"
    using Cons.IH [OF _ _ m1(2)] Cons.prems(1,2) by auto
  have "paging_get_physical_address m' d (v + x) = p + x" if "x < e - p" for x
  proof -
    let ?w = "paging_align_to_lower_page (v + x)"
    have "in_range ?w r" using lower_page_in_range [OF ok(1) that] by (simp add: r)
    then have "list_all (\<lambda>r. \<not> in_range ?w r) rs"
      using Cons.prems(2) by (auto simp: list_all_iff apart_ranges_of_def)
    then have "paging_get m' d ?w = paging_get m1 d ?w" using m'(4) by simp
    then show ?thesis using physical_address_cong [of m' d "v + x" m1 d] m1(3) that by simp
  qed
  then show ?case
    using m' m1(1,4) by (auto simp: r not_less)
qed simp

section \<open>The segments of a file\<close>

text \<open>The range that \<open>map_segment\<close> maps for the program header at \<open>ph\<close>, and the bytes the loop reads.\<close>

definition segment_range :: "mem \<Rightarrow> elf_file \<Rightarrow> addr \<Rightarrow> range" where
  "segment_range m elf_file ph =
     (let phys = elf_phdr_phys_address m elf_file ph in
      (paging_align_to_lower_page (p_vaddr m ph), paging_align_to_lower_page phys, paging_align_address (phys + p_memsz m ph),
       if p_flags m ph AND 0x02 \<noteq> 0 then 7 else 5))"

definition header_bytes :: "elf_file \<Rightarrow> addr \<Rightarrow> nat \<Rightarrow> addr set" where
  "header_bytes elf_file phdrs n =
     {a. a - elf_header elf_file < 52} \<union> (\<Union>k<n. {a. a - (phdrs + 32 * of_nat k) < 32})"

lemma segment_range_ok:
  assumes "segment_range m elf_file ph = (v, p, e, f)" "p \<le> e" shows "range_ok (v, p, e, f)"
  using assms by (auto simp: segment_range_def Let_def split: if_splits)

lemma map_segment_range:
  "map_segment c elf_file ph m = (case segment_range m elf_file ph of (v, p, e, f) \<Rightarrow> paging_map_to m c v p e f)"
  by (simp add: map_segment_def segment_range_def Let_def)

lemma word_inside: "a + k - b < (n :: addr) \<Longrightarrow> a + k \<in> {x. x - b < n}"
  by simp

lemma segment_range_cong:
  assumes "\<And>a. a - ph < 32 \<Longrightarrow> m a = m' a" shows "segment_range m elf_file ph = segment_range m' elf_file ph"
proof -
  have "read32 m (ph + o') = read32 m' (ph + o')" if "o' < 29" for o' :: addr
  proof -
    have "unat o' < 29" using that by (simp add: word_less_nat_alt)
    then have "o' < 32" "o' + 1 < 32" "o' + 2 < 32" "o' + 3 < 32" by (simp_all add: word_less_nat_alt unat_word_ariths)
    then have "m (ph + o') = m' (ph + o')" "m (ph + (o' + 1)) = m' (ph + (o' + 1))"
      "m (ph + (o' + 2)) = m' (ph + (o' + 2))" "m (ph + (o' + 3)) = m' (ph + (o' + 3))"
      by (intro assms; simp)+
    then show ?thesis by (simp add: read32_def add.assoc)
  qed
  then show ?thesis
    by (simp add: segment_range_def elf_phdr_phys_address_def p_vaddr_def p_offset_def p_memsz_def p_flags_def Let_def)
qed

lemma e_phnum_cong:
  assumes "\<And>a. a - h < 52 \<Longrightarrow> m a = m' a" shows "e_phnum m h = e_phnum m' h"
  using assms [of "h + 44"] assms [of "h + 45"] by (simp add: e_phnum_def read16_def add.assoc)

lemma map_elf_loop_ranges:
  assumes "n = unat (e_phnum g (elf_header elf_file))" "quiet c d T (header_bytes elf_file phdrs n) g m" "i \<le> n"
  shows "map_elf_loop c elf_file phdrs i m
      = map_ranges c (map (\<lambda>k. segment_range g elf_file (phdrs + 32 * of_nat k)) [i..<n]) m"
  using assms(2,3)
proof (induction "n - i" arbitrary: i m)
  case 0
  have "e_phnum m (elf_header elf_file) = e_phnum g (elf_header elf_file)"
    using 0(2) by (intro e_phnum_cong) (auto simp: quiet_def header_bytes_def)
  then show ?case using 0 assms(1) by (subst map_elf_loop.simps) simp
next
  case (Suc k)
  let ?ph = "phdrs + 32 * of_nat i"
  have i: "i < n" using Suc(2) by simp
  have num: "e_phnum m (elf_header elf_file) = e_phnum g (elf_header elf_file)"
    using Suc(3) by (intro e_phnum_cong) (auto simp: quiet_def header_bytes_def)
  obtain v p e f where r: "segment_range g elf_file ?ph = (v, p, e, f)" by (cases "segment_range g elf_file ?ph")
  moreover have "segment_range m elf_file ?ph = segment_range g elf_file ?ph"
    using Suc(3) i by (intro segment_range_cong) (auto simp: quiet_def header_bytes_def)
  ultimately have r': "segment_range m elf_file ?ph = (v, p, e, f)" by simp
  obtain st m' where m': "paging_map_to m c v p e f = (st, m')" by fastforce
  then have "quiet c d T (header_bytes elf_file phdrs n) g m'" using paging_map_to_quiet [OF Suc(3)] by (metis snd_conv)
  then have "map_elf_loop c elf_file phdrs (i + 1) m'
      = map_ranges c (map (\<lambda>k. segment_range g elf_file (phdrs + 32 * of_nat k)) [i + 1..<n]) m'"
    using Suc(2) i by (intro Suc(1)) simp_all
  moreover have "[i..<n] = i # [i + 1..<n]" using i by (simp add: upt_conv_Cons)
  ultimately show ?case
    using i num m' r r' assms(1)
    by (subst map_elf_loop.simps) (auto simp: map_segment_range split: sum.split)
qed

text \<open>The program's ranges are those of its segments and, after them, the stack.\<close>

definition elf_ranges :: "mem \<Rightarrow> elf_file \<Rightarrow> range list" where
  "elf_ranges m elf_file =
     map (\<lambda>k. segment_range m elf_file (elf_program_header m (elf_header elf_file) k))
       [0..<unat (e_phnum m (elf_header elf_file))]"

lemma map_ranges_append:
  "map_ranges c rs m = (ALL_OK, m') \<Longrightarrow> map_ranges c (rs @ rs') m = map_ranges c rs' m'"
  by (induction c rs m rule: map_ranges.induct) (auto split: prod.splits sum.splits)

lemma map_ranges_prefix: "map_ranges c (rs @ rs') m = (ALL_OK, m') \<Longrightarrow> \<exists>m1. map_ranges c rs m = (ALL_OK, m1)"
  by (induction c rs m rule: map_ranges.induct) (auto split: prod.splits sum.splits)

text \<open>An address inside of a segment.\<close>

lemma align_address_ge:
  assumes "b \<le> 0xFFFFF000" shows "b \<le> paging_align_address b"
proof (cases "b mod 4096 = 0")
  case False
  define q where "q = unat b mod 4096"
  have b: "unat b \<le> 0xFFFFF000" using assms by (simp add: word_le_nat_alt)
  have "unat (b mod 4096) = q" by (simp add: q_def unat_mod)
  moreover have "unat b \<noteq> 0xFFFFF000"
  proof
    assume "unat b = 0xFFFFF000"
    then have "unat (b mod 4096) = 0" by (simp add: unat_mod)
    then show False using False by (simp add: unat_eq_0)
  qed
  moreover have "q < 4096" by (simp add: q_def)
  moreover have "unat (b + 4096) = unat b + 4096"
    using b \<open>unat b \<noteq> 0xFFFFF000\<close> by (subst unat_add_no_wrap) simp_all
  ultimately have "unat (b + 4096 - b mod 4096) = unat b + 4096 - q" by (simp add: unat_sub_if_size)
  then show ?thesis using False \<open>q < 4096\<close> by (simp add: paging_align_address_def word_le_nat_alt)
qed (simp add: paging_align_address_def)

lemma shows_segment:
  assumes "shows_range m' d (segment_range m elf_file ph)" "a = elf_phdr_phys_address m elf_file ph" "n = p_memsz m ph"
    and "p_vaddr m ph mod 4096 = a mod 4096" "a \<le> a + n" "a + n \<le> 0xFFFFF000" "y < n"
  shows "paging_get_physical_address m' d (p_vaddr m ph + y) = a + y"
proof -
  define r e where "r = a mod 4096" and "e = paging_align_address (a + n)"
  have n: "unat (a + n) = unat a + unat n"
    using assms(5) by (metis no_olen_add_nat olen_add_eqv unat_plus_simple)
  have e: "unat (a + n) \<le> unat e" using align_address_ge [OF assms(6)] by (simp add: word_le_nat_alt e_def)
  have y: "unat y < unat n" using assms(7) by (simp add: word_less_nat_alt)
  have r: "unat r \<le> unat a" by (simp add: r_def unat_mod)
  have "unat (a - r) = unat a - unat r" using r by (simp add: unat_sub_if_size)
  moreover from this have "unat (e - (a - r)) = unat e - (unat a - unat r)" using e n by (simp add: unat_sub_if_size)
  moreover have "unat (r + y) = unat r + unat y"
  proof (rule unat_add_no_wrap)
    have "unat (a + n) < 2 ^ LENGTH(32)" by (rule unsigned_less)
    then show "unat r + unat y < 2 ^ LENGTH(32)" using r y n by linarith
  qed
  ultimately have "r + y < e - (a - r)" using e n r y by (simp add: word_less_nat_alt)
  moreover have "\<forall>x<e - (a - r). paging_get_physical_address m' d (p_vaddr m ph - r + x) = a - r + x"
    using assms(1,4) by (simp add: segment_range_def paging_align_to_lower_page_def Let_def
        assms(2)[symmetric] assms(3)[symmetric] r_def [symmetric] e_def [symmetric])
  ultimately have "paging_get_physical_address m' d (p_vaddr m ph - r + (r + y)) = a - r + (r + y)" by blast
  then show ?thesis by (simp add: algebra_simps)
qed

section \<open>Properties\<close>

text \<open>
  C7: A program loaded from an ELF file, whose ranges do not overlap and whose headers lie in none of its page
  tables: mapping its memory succeeds, every byte of a segment that keeps its offset in the page is then
  found at its virtual address, and the stack below \<open>0x3FF000\<close>. All of it is the memory the file was read
  into, also the bytes of a segment behind those of the file.
\<close>
theorem process_map_memory_segments:
  assumes "wf_chunk (pmem s) (process_directory p s) d" "filetype (process_at s p) = PROCESS_FILETYPE_ELF"
    and "m = pmem s" "f = elf_file_at m (program (process_at s p))" "h = elf_header f" "b = stack (process_at s p)"
    and "rs = elf_ranges m f @ [(PROGRAM_VIRTUAL_STACK_ADDRESS_END, b, b + 0x4000, 7)]"
    and "list_all (\<lambda>(v, q, e, fl). q \<le> e) rs" "sorted_wrt apart_ranges_of rs" "page_aligned b"
    and "\<forall>x\<in>header_bytes f (elf_pheader m h) (unat (e_phnum m h)). \<forall>i<1024. 4096 \<le> x - table_of m d i"
  shows "\<exists>s'. process_map_memory p s = Some (ALL_OK, s')
    \<and> (\<forall>k<unat (e_phnum m h). let ph = elf_program_header m h k; a = elf_phdr_phys_address m f ph; n = p_memsz m ph in
         p_vaddr m ph mod 4096 = a mod 4096 \<and> a \<le> a + n \<and> a + n \<le> 0xFFFFF000
         \<longrightarrow> (\<forall>y<n. paging_get_physical_address (pmem s') d (p_vaddr m ph + y) = a + y))
    \<and> (\<forall>y<0x4000. paging_get_physical_address (pmem s') d (PROGRAM_VIRTUAL_STACK_ADDRESS_END + y) = b + y)"
proof -
  let ?c = "process_directory p s"
  have "range_ok r" if "r \<in> set rs" for r
  proof (cases "r \<in> set (elf_ranges m f)")
    case True
    then obtain ph where "r = segment_range m f ph" by (auto simp: elf_ranges_def)
    then show ?thesis
      using assms(8) that segment_range_ok [of m f ph] by (cases r) (auto simp: list_all_iff)
  next
    case False
    then have r: "r = (0x3FB000, b, b + 0x4000, 7)" using that assms(7) by simp
    then have "b \<le> b + 0x4000" using assms(8) that by (auto simp: list_all_iff)
    moreover have "page_aligned (b + 0x4000)" using page_aligned_step [OF assms(10), of 4] by simp
    ultimately show ?thesis using assms(10) by (simp add: r page_aligned_def)
  qed
  then have ok: "list_all range_ok rs" by (simp add: list_all_iff)
  obtain m2 where m2: "map_ranges ?c rs m = (ALL_OK, m2)" "list_all (shows_range m2 d) rs"
    using map_ranges_shows [OF ok assms(9)] assms(1,3) by blast
  obtain m1 where m1: "map_ranges ?c (elf_ranges m f) m = (ALL_OK, m1)"
    using map_ranges_prefix m2(1) assms(7) by blast
  then have "map_ranges ?c [(0x3FB000, b, b + 0x4000, 7)] m1 = (ALL_OK, m2)"
    using map_ranges_append [OF m1] m2(1) assms(7) by simp
  then have stack: "paging_map_to m1 ?c 0x3FB000 b (b + 0x4000) 7 = (ALL_OK, m2)"
    by (auto split: prod.splits sum.splits)
  have "quiet ?c d (table_of m d) (header_bytes f (elf_pheader m h) (unat (e_phnum m h))) m m"
    using assms(1,3,11) by (simp add: quiet_def)
  then have "map_elf_loop ?c f (elf_pheader m h) 0 m = (ALL_OK, m1)"
    using map_elf_loop_ranges [of _ m f] m1 assms(5) by (simp add: elf_ranges_def elf_program_header_def)
  moreover have "paging_align_address (b + 0x4000) = b + 0x4000"
    using page_aligned_step [OF assms(10), of 4] by (simp add: paging_align_address_def page_aligned_def)
  ultimately have "process_map_memory p s = Some (ALL_OK, with_mem m2 (with_mem m1 s))"
    using assms(2-6) stack
    by (simp add: process_map_memory_def process_map_elf_def process_directory_def with_mem_def Let_def)
  moreover have "shows_range m2 d (segment_range m f (elf_program_header m h k))" if "k < unat (e_phnum m h)" for k
    using m2(2) that assms(5,7) by (auto simp: list_all_iff elf_ranges_def)
  then have "\<forall>k<unat (e_phnum m h). let ph = elf_program_header m h k; a = elf_phdr_phys_address m f ph; n = p_memsz m ph in
         p_vaddr m ph mod 4096 = a mod 4096 \<and> a \<le> a + n \<and> a + n \<le> 0xFFFFF000
         \<longrightarrow> (\<forall>y<n. paging_get_physical_address m2 d (p_vaddr m ph + y) = a + y)"
    using shows_segment [OF _ refl refl] by (simp add: Let_def)
  moreover have "\<forall>y<0x4000. paging_get_physical_address m2 d (0x3FB000 + y) = b + y"
    using m2(2) assms(7) by simp
  ultimately show ?thesis by simp
qed

text \<open>
  A file at \<open>0x9000\<close> with one segment of \<open>0x1800\<close> bytes for \<open>0x400000\<close>, at offset \<open>0x1000\<close> of the file; its
  description is at \<open>0x8000\<close> and the stack at \<open>0x90000\<close>.
\<close>

definition elf_words :: "u32 \<Rightarrow> u32" where
  "elf_words x = (if x = 0x201C then 0x9000 else if x = 0x2407 then 52 else if x = 0x240B then 1
     else if x = 0x240E then 0x1000 else if x = 0x240F then 0x400000 else if x = 0x2412 then 0x1800
     else if x = 0x2413 then 2 else sample_words x)"

definition elf_space :: "unit procs" where
  "elf_space = (sample_procs (mem_of_words elf_words) kernel_heap)\<lparr>
     ts := sample_tasks\<lparr>task_at := \<lambda>_. (sample_task 0 0)\<lparr>page_directory := 0x3000\<rparr>, task_mem := mem_of_words elf_words\<rparr>,
     process_at := \<lambda>_. sample_process\<lparr>program := 0x8000, stack := 0x90000\<rparr>\<rparr>"

lemma elf_space_fields [simp]:
  "pmem elf_space = mem_of_words elf_words" "process_directory p elf_space = 0x3000"
  "filetype (process_at elf_space p) = 0" "program (process_at elf_space p) = 0x8000"
  "stack (process_at elf_space p) = 0x90000"
  by (simp_all add: elf_space_def process_directory_def)

lemma elf_words_tables: "table_words elf_words"
proof -
  have "0x40000 + i \<noteq> x" if "i < 1024" "x < 0x40000" for i x :: u32
    using that by (auto simp: word_unat_eq_iff word_less_nat_alt unat_word_ariths)
  then show ?thesis using sample_table_words by (simp add: table_words_def elf_words_def)
qed

lemma elf_words_read: "read32 (mem_of_words elf_words) (4 * x) = elf_words x" if "x < 0x4000" for x
proof -
  have "unat (4 * x) = 4 * unat x" using that by (simp add: word_less_nat_alt unat_word_ariths)
  then have "(4 * x) div 4 = x" by (simp add: word_unat_eq_iff unat_div)
  moreover have "word_aligned (0 + 4 * x)" by (rule word_aligned_add) (simp add: word_aligned_def)
  ultimately show ?thesis by (simp add: read32_mem_of_words)
qed

lemma elf_space_file:
  "elf_memory (elf_file_at (mem_of_words elf_words) 0x8000) = 0x9000"
  "e_phoff (mem_of_words elf_words) 0x9000 = 52" "e_phnum (mem_of_words elf_words) 0x9000 = 1"
  "p_vaddr (mem_of_words elf_words) 0x9034 = 0x400000" "p_offset (mem_of_words elf_words) 0x9034 = 0x1000"
  "p_memsz (mem_of_words elf_words) 0x9034 = 0x1800" "p_flags (mem_of_words elf_words) 0x9034 = 2"
  using elf_words_read [of "0x201C"] elf_words_read [of "0x2407"] elf_words_read [of "0x240E"] elf_words_read [of "0x240F"]
    elf_words_read [of "0x2412"] elf_words_read [of "0x2413"]
  by (simp_all add: elf_file_at_def e_phoff_def e_phnum_def p_vaddr_def p_offset_def p_memsz_def p_flags_def elf_words_def
      read16_def mem_of_words_def)

theorem process_map_memory_segments_witness:
  "\<exists>s'. process_map_memory 0x9000 elf_space = Some (ALL_OK, s')
    \<and> paging_get_physical_address (pmem s') 0x100000 0x4017FF = 0xB7FF
    \<and> paging_get_physical_address (pmem s') 0x100000 0x3FEFFF = 0x93FFF"
proof -
  let ?m = "mem_of_words elf_words"
  let ?f = "elf_file_at ?m 0x8000"
  let ?stack = "(0x3FB000, 0x90000, 0x94000, 7) :: range"
  have h: "elf_header ?f = 0x9000" by (simp add: elf_header_def elf_space_file)
  have ph: "elf_pheader ?m 0x9000 = 0x9034" by (simp add: elf_pheader_def elf_space_file)
  have seg: "elf_ranges ?m ?f = [(0x400000, 0xA000, 0xC000, 7)]"
    by (simp add: elf_ranges_def h ph elf_program_header_def segment_range_def elf_phdr_phys_address_def elf_space_file
        paging_align_to_lower_page_def paging_align_address_def)
  have "\<not> w - 0x3FB000 < 0x4000" if "w - 0x400000 < 0x2000" for w :: addr
  proof -
    have "unat (w - 0x400000 + 0x5000) = unat (w - 0x400000) + 0x5000"
      using that by (subst unat_add_no_wrap) (simp_all add: word_less_nat_alt)
    then show ?thesis by (simp add: word_less_nat_alt)
  qed
  then have ap: "apart_ranges_of (0x400000, 0xA000, 0xC000, 7) ?stack" by (simp add: apart_ranges_of_def)
  have far: "4096 \<le> x - table_of ?m 0x100000 i" if "x - 0x9000 < 84" "i < 1024" for x i
  proof -
    have x: "unat x < 0x10000"
    proof -
      have "unat (0x9000 + (x - 0x9000)) = 0x9000 + unat (x - 0x9000)"
        using that(1) by (subst unat_add_no_wrap) (simp_all add: word_less_nat_alt)
      then show ?thesis using that(1) by (simp add: word_less_nat_alt)
    qed
    have "unat i < 1024" using that(2) by (simp add: word_less_nat_alt)
    then show ?thesis
      using x sample_table_unat [OF that(2)]
      by (simp add: words_table [OF elf_words_tables that(2)] word_le_nat_alt unat_sub_if_size word_size)
  qed
  have bytes: "x - 0x9000 < 84" if "x \<in> header_bytes ?f 0x9034 1" for x
  proof -
    have "unat (x - 0x9034 + 52) = unat (x - 0x9034) + 52" if "x - 0x9034 < 32"
      using that by (subst unat_add_no_wrap) (simp_all add: word_less_nat_alt)
    then show ?thesis using that by (auto simp: header_bytes_def h word_less_nat_alt lessThan_Suc)
  qed
  have wf: "wf_chunk (pmem elf_space) (process_directory 0x9000 elf_space) 0x100000"
    using words_wf [OF elf_words_tables] by simp
  have "list_all (\<lambda>(v, q, e, fl). q \<le> e) (elf_ranges ?m ?f @ [?stack])" by (simp add: seg)
  moreover have "sorted_wrt apart_ranges_of (elf_ranges ?m ?f @ [?stack])" using ap by (simp add: seg)
  moreover have "\<forall>x\<in>header_bytes ?f (elf_pheader ?m 0x9000) (unat (e_phnum ?m 0x9000)). \<forall>i<1024. 4096 \<le> x - table_of ?m 0x100000 i"
    using far bytes by (simp add: ph elf_space_file)
  moreover have "page_aligned 0x90000" by (simp add: page_aligned_def)
  moreover note process_map_memory_segments [OF wf _ refl refl refl refl, of "elf_ranges ?m ?f @ [?stack]"]
  ultimately obtain s' where s': "process_map_memory 0x9000 elf_space = Some (ALL_OK, s')"
      "\<forall>k<unat (e_phnum ?m 0x9000). let ph = elf_program_header ?m 0x9000 k; a = elf_phdr_phys_address ?m ?f ph; n = p_memsz ?m ph in
         p_vaddr ?m ph mod 4096 = a mod 4096 \<and> a \<le> a + n \<and> a + n \<le> 0xFFFFF000
         \<longrightarrow> (\<forall>y<n. paging_get_physical_address (pmem s') 0x100000 (p_vaddr ?m ph + y) = a + y)"
      "\<forall>y<0x4000. paging_get_physical_address (pmem s') 0x100000 (0x3FB000 + y) = 0x90000 + y"
    unfolding elf_space_fields h by fastforce
  have "elf_program_header ?m 0x9000 0 = 0x9034" by (simp add: elf_program_header_def ph)
  moreover have "elf_phdr_phys_address ?m ?f 0x9034 = 0xA000" by (simp add: elf_phdr_phys_address_def elf_space_file)
  ultimately have "\<forall>y<0x1800. paging_get_physical_address (pmem s') 0x100000 (0x400000 + y) = 0xA000 + y"
    using s'(2) [rule_format, of 0] by (simp add: elf_space_file Let_def)
  from this [rule_format, of "0x17FF"] s'(3) [rule_format, of "0x3FFF"] s'(1) show ?thesis by simp
qed

end
