(* ===== verification/User_Strings.thy ===== *)
theory User_Strings
  imports Isolation Syscalls
begin

unbundle bit_operations_syntax

text \<open>
  Strings on their way from a program to the kernel: \<open>copy_string_from_task\<close> maps its block into the
  address space of the task, copies the string there and then into the kernel's buffer; the system call
  that prints is the client.
\<close>

section \<open>A page apart from the tables\<close>

text \<open>The translations do not depend on the page \<open>p\<close>.\<close>

definition page_free :: "mem \<Rightarrow> addr \<Rightarrow> addr \<Rightarrow> bool" where
  "page_free m d p \<longleftrightarrow> page_aligned d \<and> page_aligned p \<and> p \<noteq> d \<and> (\<forall>i<1024. table_of m d i \<noteq> p)"

definition same_outside :: "addr \<Rightarrow> mem \<Rightarrow> mem \<Rightarrow> bool" where
  "same_outside p m m' \<longleftrightarrow> (\<forall>a. 4096 \<le> a - p \<longrightarrow> m a = m' a)"

lemma pages_apart:
  assumes "page_aligned p" "page_aligned q" "p \<noteq> q" "r < 4096" shows "4096 \<le> (q + r) - p"
proof (rule ccontr)
  assume "\<not> 4096 \<le> q + r - p"
  then have "(p + (q + r - p)) AND 0xfffff000 = p" using assms(1) by (intro page_mask_add) simp_all
  then show False using page_mask_add [OF assms(2,4)] assms(3) by simp
qed

lemma slot_apart:
  assumes "page_aligned p" "page_aligned q" "p \<noteq> q" "r < 4096" "i < 1024" shows "4 \<le> p + r - (q + 4 * i)"
proof (rule ccontr)
  define j where "j = p + r - (q + 4 * i)"
  assume "\<not> 4 \<le> p + r - (q + 4 * i)"
  then have "unat j < 4" "unat i < 1024" using assms(5) by (simp_all add: j_def word_le_nat_alt word_less_nat_alt)
  moreover from this have "unat (4 * i + j) = 4 * unat i + unat j" by (simp add: unat_word_ariths)
  ultimately have "4 * i + j < 4096" by (simp add: word_less_nat_alt)
  moreover have "p + r = q + (4 * i + j)" by (simp add: j_def)
  ultimately show False using page_mask_add [OF assms(1,4)] page_mask_add [OF assms(2)] assms(3) by metis
qed

lemma read32_same_outside:
  assumes "same_outside p m m'" "page_aligned p" "page_aligned q" "p \<noteq> q" "i < 1024"
  shows "read32 m (q + 4 * i) = read32 m' (q + 4 * i)"
proof -
  have "m (q + 4 * i + k) = m' (q + 4 * i + k)" if "k < 4" for k
  proof -
    have "unat i < 1024" "unat k < 4" using assms(5) that by (simp_all add: word_less_nat_alt)
    moreover from this have "unat (4 * i + k) = 4 * unat i + unat k" by (simp add: unat_word_ariths)
    ultimately have "4 * i + k < 4096" by (simp add: word_less_nat_alt)
    from pages_apart [OF assms(2-4) this] show ?thesis using assms(1) by (simp add: same_outside_def add.assoc)
  qed
  from this [of 0] this [of 1] this [of 2] this [of 3] show ?thesis by (simp add: read32_def)
qed

lemma translation_same_outside:
  assumes "page_free m' d p" "same_outside p m m'"
  shows "i < 1024 \<Longrightarrow> table_of m d i = table_of m' d i"
    and "page_aligned w \<Longrightarrow> paging_get m d w = paging_get m' d w"
    and "paging_get_physical_address m d v = paging_get_physical_address m' d v"
proof -
  show table: "table_of m d i = table_of m' d i" if "i < 1024" for i
    using read32_same_outside [OF assms(2) _ _ _ that] assms(1) by (simp add: page_free_def table_of_def)
  show get: "paging_get m d w = paging_get m' d w" if "page_aligned w" for w
  proof -
    have "p \<noteq> table_of m' d (dir_index w)" "page_aligned p"
      using assms(1) dir_index_less [of w] unfolding page_free_def by metis+
    with read32_same_outside [OF assms(2), of "table_of m' d (dir_index w)" "tab_index w"] that show ?thesis
      by (simp add: paging_get_slot pte_slot_def table)
  qed
  show "paging_get_physical_address m d v = paging_get_physical_address m' d v"
    by (rule physical_address_cong) (simp add: get)
qed

lemma same_outside_upd:
  "same_outside p m m' \<Longrightarrow> a - p < 4096 \<Longrightarrow> same_outside p (m(a := b)) m'"
  by (auto simp: same_outside_def)

section \<open>The copy into the shared page\<close>

text \<open>
  The block at \<open>tmp\<close> is mapped to itself, and the string lies outside of it, by its addresses and by its
  place in memory.
\<close>

lemma strncpy_through_loop_copies:
  assumes "page_free m0 d tmp" "\<And>r. r < 4096 \<Longrightarrow> paging_get_physical_address m0 d (tmp + r) = tmp + r"
    and "count \<le> 4096"
  shows "same_outside tmp m m0 \<Longrightarrow> c_string (mem_through m0 d) (src + of_nat i) xs \<Longrightarrow>
    (\<And>k. k \<le> length xs \<Longrightarrow> 4096 \<le> paging_get_physical_address m0 d (src + of_nat i + of_nat k) - tmp) \<Longrightarrow>
    n = nat (count - 1 - int i) \<Longrightarrow> int i < count \<Longrightarrow>
    strncpy_through_loop m d tmp src count (int i) = write_bytes m (tmp + of_nat i) (take n xs @ [0])"
proof (induction xs arbitrary: m i n)
  case Nil
  have "(of_nat i :: addr) < 4096" using Nil.prems(5) assms(3) by (simp add: word_less_nat_alt unat_of_nat)
  then have "paging_get_physical_address m d (tmp + of_nat i) = tmp + of_nat i"
    using translation_same_outside(3) [OF assms(1) Nil.prems(1)] assms(2) by simp
  moreover have "mem_through m d (src + of_nat i) = 0"
    using Nil.prems(1-3) translation_same_outside(3) [OF assms(1) Nil.prems(1)]
    by (force simp: mem_through_def same_outside_def)
  ultimately show ?case by (simp add: strncpy_through_loop.simps [of m d tmp src count "int i"] Let_def)
next
  case (Cons x xs)
  have i: "(of_nat i :: addr) < 4096" using Cons.prems(5) assms(3) by (simp add: word_less_nat_alt unat_of_nat)
  have at: "paging_get_physical_address m d (tmp + of_nat i) = tmp + of_nat i"
    using translation_same_outside(3) [OF assms(1) Cons.prems(1)] assms(2) i by simp
  have x: "mem_through m d (src + of_nat i) = x" "x \<noteq> 0"
    using Cons.prems(1,2) Cons.prems(3) [of 0] translation_same_outside(3) [OF assms(1) Cons.prems(1)]
    by (auto simp: mem_through_def same_outside_def)
  show ?case
  proof (cases "int i < count - 1")
    case False
    then show ?thesis using Cons.prems(4) at
      by (simp add: strncpy_through_loop.simps [of m d tmp src count "int i"] Let_def)
  next
    case True
    then obtain n' where n: "n = Suc n'" and n': "n' = nat (count - 1 - int (Suc i))"
      using Cons.prems(4) by (cases n) auto
    let ?m = "m(tmp + of_nat i := x)"
    have "same_outside tmp ?m m0" using Cons.prems(1) i by (intro same_outside_upd) simp_all
    moreover have "int (Suc i) < count" using True by simp
    moreover have "c_string (mem_through m0 d) (src + of_nat (Suc i)) xs" using Cons.prems(2) by (simp add: ac_simps)
    moreover have "4096 \<le> paging_get_physical_address m0 d (src + of_nat (Suc i) + of_nat k) - tmp" if "k \<le> length xs" for k
      using Cons.prems(3) [of "Suc k"] that by (simp add: ac_simps)
    ultimately have "strncpy_through_loop ?m d tmp src count (int (Suc i))
        = write_bytes ?m (tmp + of_nat (Suc i)) (take n' xs @ [0])"
      using Cons.IH n' by blast
    then show ?thesis
      using True x at by (simp add: n strncpy_through_loop.simps [of m d tmp src count "int i"] Let_def ac_simps fun_upd_def)
  qed
qed

section \<open>A string for the kernel\<close>

text \<open>
  The block \<open>tmp\<close> has no page table in it, and neither the addresses of the string nor its place in memory
  lie in the block or in the entry of its page.
\<close>

definition copy_layout :: "mem \<Rightarrow> addr \<Rightarrow> addr \<Rightarrow> addr \<Rightarrow> addr \<Rightarrow> nat \<Rightarrow> bool" where
  "copy_layout m c d tmp virt n \<longleftrightarrow> wf_chunk m c d \<and> page_free m d tmp \<and>
     (\<forall>k\<le>n. let v = virt + of_nat k; a = paging_get_physical_address m d v in
        4096 \<le> v - tmp \<and> 4096 \<le> a - tmp \<and> 4 \<le> a - pte_slot m d tmp)"

text \<open>The tables once the block is mapped to itself.\<close>

lemma translation_after_map:
  assumes "wf_chunk m c d" "page_free m d tmp" "f < 4096"
  defines "m' \<equiv> write32 m (pte_slot m d tmp) (tmp OR f)"
  shows "r < 4096 \<Longrightarrow> paging_get_physical_address m' d (tmp + r) = tmp + r"
    and "4096 \<le> v - tmp \<Longrightarrow> paging_get_physical_address m' d v = paging_get_physical_address m d v"
    and "page_free m' d tmp" "pte_slot m' d tmp = pte_slot m d tmp" "directory_entry m' c = d"
proof -
  have wf: "wf_directory m d" and al: "page_aligned tmp" using assms(1,2) by (simp_all add: wf_chunk_def page_free_def)
  show "paging_get_physical_address m' d (tmp + r) = tmp + r" if "r < 4096"
    using paging_get_physical_address_split [OF al that, of m' d] paging_get_set [OF wf al al]
      page_mask_flags [OF al assms(3)] by (simp add: m'_def)
  show "paging_get_physical_address m' d v = paging_get_physical_address m d v" if "4096 \<le> v - tmp"
  proof (rule physical_address_cong)
    have "paging_align_to_lower_page v \<noteq> tmp"
    proof
      assume "paging_align_to_lower_page v = tmp"
      then have "v - tmp = v mod 4096" by (auto simp: paging_align_to_lower_page_def)
      then show False using that word_mod_less_divisor [of "4096 :: u32" v] by (simp add: not_less [symmetric])
    qed
    then show "paging_get m' d (paging_align_to_lower_page v) = paging_get m d (paging_align_to_lower_page v)"
      using paging_get_set [OF wf al page_aligned_lower] by (simp add: m'_def)
  qed
  have t: "table_of m' d i = table_of m d i" if "i < 1024" for i
    using table_of_set [OF wf that] by (simp add: m'_def)
  then show "page_free m' d tmp" "pte_slot m' d tmp = pte_slot m d tmp"
    using assms(2) by (simp_all add: page_free_def pte_slot_def)
  show "directory_entry m' c = d"
    using directory_entry_set [OF assms(1)] assms(1) by (simp add: m'_def wf_chunk_def)
qed

lemma copied_to_block:
  assumes "copy_layout m c d tmp virt (length xs)" "c_string (mem_through m d) virt xs" "1 \<le> mx" "mx < 4096" "f < 4096"
  defines "m' \<equiv> write32 m (pte_slot m d tmp) (tmp OR f)"
  shows "strncpy_through m' d tmp virt mx = write_bytes m' tmp (take (nat mx - 1) xs @ [0])"
    and "pte_slot (write_bytes m' tmp (take (nat mx - 1) xs @ [0])) d tmp = pte_slot m d tmp"
proof -
  have wf: "wf_chunk m c d" and free: "page_free m d tmp" using assms(1) by (simp_all add: copy_layout_def)
  note t = translation_after_map [OF wf free assms(5), folded m'_def]
  have string: "4096 \<le> virt + of_nat k - tmp" "4096 \<le> paging_get_physical_address m d (virt + of_nat k) - tmp"
    "4 \<le> paging_get_physical_address m d (virt + of_nat k) - pte_slot m d tmp" if "k \<le> length xs" for k
    using assms(1) that by (simp_all add: copy_layout_def Let_def)
  have "mem_through m' d (virt + of_nat k) = mem_through m d (virt + of_nat k)" if "k \<le> length xs" for k
    using string [OF that] t(2) by (simp add: mem_through_def) (simp add: m'_def write32_other)
  then have c: "c_string (mem_through m' d) (virt + of_nat 0) xs" using assms(2) by (simp add: c_string_iff_nth)
  have "strncpy_through_loop m' d tmp virt mx (int 0)
      = write_bytes m' (tmp + of_nat 0) (take (nat mx - 1) xs @ [0])"
    by (rule strncpy_through_loop_copies [OF t(3) t(1) _ _ c])
      (use assms(3,4) string t(2) in \<open>simp_all add: same_outside_def nat_diff_distrib'\<close>)
  then show "strncpy_through m' d tmp virt mx = write_bytes m' tmp (take (nat mx - 1) xs @ [0])"
    by (simp add: strncpy_through_def)
  have "same_outside tmp (write_bytes m' tmp (take (nat mx - 1) xs @ [0])) m'"
    unfolding same_outside_def
  proof (intro allI impI)
    fix a assume "4096 \<le> a - tmp"
    then have "4096 \<le> unat (a - tmp)" by (simp add: word_le_nat_alt)
    then show "write_bytes m' tmp (take (nat mx - 1) xs @ [0]) a = m' a"
      using assms(3,4) by (intro write_bytes_outside) auto
  qed
  from translation_same_outside(1) [OF t(3) this]
  show "pte_slot (write_bytes m' tmp (take (nat mx - 1) xs @ [0])) d tmp = pte_slot m d tmp"
    using t(4) by (simp add: pte_slot_def)
qed

lemma c_string_write32:
  assumes "c_string m p xs" "\<And>k. k \<le> length xs \<Longrightarrow> 4 \<le> p + of_nat k - a"
  shows "c_string (write32 m a v) p xs"
  using assms by (simp add: c_string_iff_nth write32_other)

lemma wf_chunk_directory: "wf_chunk m c d \<Longrightarrow> directory_entry m c = d"
  by (simp add: wf_chunk_def)

lemma copy_string_copies:
  assumes kz: "kzalloc (task_mem s) (task_heap s) (word_of_int mx) = (tmp, m)" "tmp \<noteq> 0" and mx: "1 \<le> mx" "mx < 4096"
    and layout: "copy_layout m (page_directory (task_at s t)) d tmp virt (length xs)" and str: "c_string (mem_through m d) virt xs"
    and buf: "apart tmp (nat mx) buf (nat mx)"
    and pool: "saddr (task_heap s) \<le> tmp" "tmp < 0x80000000"
    and table: "apart (entries (heap_table_of (task_heap s))) (unat (total (heap_table_of (task_heap s)))) buf (nat mx)"
  shows "\<exists>s'. copy_string_from_task t virt buf mx s = (ALL_OK, s') \<and> c_string (task_mem s') buf (take (nat mx - 1) xs)"
proof -
  let ?c = "page_directory (task_at s t)" and ?ys = "take (nat mx - 1) xs" and ?h = "task_heap s"
  let ?old = "paging_get m d tmp" and ?m2 = "write32 m (pte_slot m d tmp) (tmp OR 7)"
  let ?m3 = "write_bytes ?m2 tmp (?ys @ [0])"
  let ?m4 = "write32 ?m3 (pte_slot m d tmp) ?old"
  have wf: "wf_chunk m ?c d" and free: "page_free m d tmp" and al: "page_aligned tmp"
    using layout by (simp_all add: copy_layout_def page_free_def)
  note t = translation_after_map [OF wf free, of 7, simplified]
  note copied = copied_to_block [OF layout str mx, of 7, simplified]
  have nat_less: "nat (mx - 1) = nat mx - 1" using mx by simp
  have ys: "0 \<notin> set ?ys" using str by (auto simp: c_string_iff_nth dest: in_set_takeD)
  have len: "length ?ys < nat mx" "length ?ys < 4096" using mx by auto
  then have "c_string ?m3 tmp ?ys" using ys by (intro c_string_write_bytes) simp_all
  moreover have "4 \<le> tmp + of_nat k - pte_slot m d tmp" if "k \<le> length ?ys" for k
  proof -
    have "table_of m d (dir_index tmp) \<noteq> tmp" using free by (simp add: page_free_def)
    moreover have "k < 4096" using that len(2) by linarith
    then have "(of_nat k :: addr) < 4096" by (simp add: word_less_nat_alt unat_of_nat)
    ultimately show ?thesis using al unfolding pte_slot_def by (intro slot_apart) auto
  qed
  ultimately have m4: "c_string ?m4 tmp ?ys" by (rule c_string_write32)
  have "length (take (nat (mx - 1)) ?ys) \<le> length ?ys" by simp
  then have "length (take (nat (mx - 1)) ?ys) < nat mx" using len(1) by (rule le_less_trans)
  then have "apart tmp (Suc (length ?ys)) buf (Suc (length (take (nat (mx - 1)) ?ys)))"
    using len(1) by (intro apart_mono [OF buf]) (simp_all only: Suc_le_eq)
  from strncpy_c_string [OF m4 this]
  have cp: "strncpy ?m4 buf tmp mx = write_bytes ?m4 buf (?ys @ [0])" by (simp add: nat_less)
  have "copy_string_from_task t virt buf mx s
      = (ALL_OK, (kernel_page (s\<lparr>task_mem := ?m3, cr3 := d\<rparr>))\<lparr>task_mem := kfree (write_bytes ?m4 buf (?ys @ [0])) ?h tmp\<rparr>)"
    using kz mx al cp t(5) copied paging_map_aligned [OF al al wf, of 7] wf_chunk_directory [OF wf]
    by (simp add: copy_string_from_task_def Let_def paging_switch_def kernel_page_def paging_set_slot)
  moreover have "c_string (kfree (write_bytes ?m4 buf (?ys @ [0])) ?h tmp) buf ?ys"
  proof -
    have "kfree w ?h tmp (buf + of_nat k) = w (buf + of_nat k)" if "k \<le> length ?ys" for w k
      unfolding heap_defs
      by (rule mark_free_loop_other [OF heap_address_to_block_nonneg [OF pool]])
        (use apartD [OF table] that len in \<open>metis le_less_trans\<close>)
    then show ?thesis
      using c_string_write_bytes [OF ys, of ?m4 buf] len by (simp add: c_string_iff_nth)
  qed
  ultimately show ?thesis by auto
qed

section \<open>Printing a string of the program\<close>

text \<open>The address of the string is the first word of the program's stack, seen through the program's tables.\<close>

definition first_argument :: "'w os \<Rightarrow> u32" where
  "first_argument k =
     (let t = task_at (tasks k) (current_task (tasks k))
      in read32 (mem_through (task_mem (tasks k)) (directory_entry (task_mem (tasks k)) (page_directory t))) (esp (regs t)))"

lemma stack_item_first: "fst (stack_item 0 k) = first_argument k"
  by (simp add: stack_item_def task_get_stack_item_def task_page_task_def paging_switch_def first_argument_def Let_def)


section \<open>A program with a string\<close>

text \<open>
  The tables of \<open>Paging\<close>, whose pages all lie at 0: the string \<open>Hi\<close> at \<open>0x400800\<close>, its address on the stack
  at \<open>0x400900\<close>, and a heap of four blocks at \<open>0x2000\<close> with its table at 0.
\<close>

definition talk_mem :: mem where
  "talk_mem = (write32 sample_tables 0x900 0x400800)(0 := 1, 0x800 := 0x48, 0x801 := 0x69)"

definition talk_heap :: heap where
  "talk_heap = \<lparr>heap_table_of = \<lparr>entries = 0, total = 4\<rparr>, saddr = 0x2000\<rparr>"

definition talk_os :: "unit os" where
  "talk_os = (sample_os talk_mem talk_heap)\<lparr>tasks := (tasks (sample_os talk_mem talk_heap))\<lparr>
     task_at := \<lambda>_. (sample_task 0 0)\<lparr>page_directory := 0x3000, regs := no_registers\<lparr>esp := 0x400900\<rparr>\<rparr>\<rparr>\<rparr>"

text \<open>The memory after a block for \<open>n\<close> bytes was allocated.\<close>

definition talk_copy :: "u32 \<Rightarrow> mem" where
  "talk_copy n = memset (talk_mem(0 := 0x41)) 0x2000 0 n"

lemma talk_os_fields [simp]:
  "task_mem (tasks talk_os) = talk_mem" "task_heap (tasks talk_os) = talk_heap"
  "page_directory (task_at (tasks talk_os) t) = 0x3000" "esp (regs (task_at (tasks talk_os) t)) = 0x400900"
  "screen (rest talk_os) = \<lparr>cells = \<lambda>_. 0, terminal_row = 0, terminal_col = 0\<rparr>"
  by (simp_all add: talk_os_def sample_os_def)

lemma talk_kzalloc:
  "kzalloc talk_mem talk_heap 1024 = (0x2000, talk_copy 1024)" "kzalloc talk_mem talk_heap 108 = (0x2000, talk_copy 108)"
proof -
  have "talk_mem 0 = 1" by (simp add: talk_mem_def)
  then have "kmalloc talk_mem talk_heap 1024 = (0x2000, talk_mem(0 := 0x41))"
    "kmalloc talk_mem talk_heap 108 = (0x2000, talk_mem(0 := 0x41))"
    by (simp_all add: talk_heap_def kmalloc_def heap_malloc_def heap_align_value_to_upper_def heap_malloc_blocks_def
        heap_get_start_block_def start_block_loop.simps heap_get_entry_type_def heap_block_to_address_def
        heap_mark_blocks_taken_def mark_taken_loop.simps Let_def)
  then show "kzalloc talk_mem talk_heap 1024 = (0x2000, talk_copy 1024)" "kzalloc talk_mem talk_heap 108 = (0x2000, talk_copy 108)"
    by (simp_all add: kzalloc_def talk_copy_def)
qed

text \<open>The tables are those of \<open>Paging\<close>; all their entries are 0.\<close>

lemma sample_tables_empty:
  assumes "page_aligned v" shows "paging_get sample_tables 0x100000 v = 0"
proof -
  let ?i = "dir_index v" and ?j = "tab_index v"
  have ij: "unat ?i < 1024" "unat ?j < 1024" using dir_index_less [of v] tab_index_less [of v] by (simp_all add: word_less_nat_alt)
  have slot: "pte_slot sample_tables 0x100000 v = 0x200000 + ?i * 4096 + 4 * ?j" by (simp add: pte_slot_def sample_table)
  have u: "unat (0x200000 + ?i * 4096 + 4 * ?j) = 0x200000 + unat ?i * 4096 + 4 * unat ?j"
    using ij by (simp add: unat_word_ariths)
  have "page_aligned (0x200000 + of_nat (unat ?i) * 4096)" by (rule page_aligned_step) (simp add: page_aligned_def)
  then have al: "word_aligned (0x200000 + ?i * 4096 + 4 * ?j)" by (simp add: word_aligned_add page_aligned_word_aligned)
  let ?q = "(0x200000 + ?i * 4096 + 4 * ?j) div 4"
  have q: "unat ?q = 0x80000 + unat ?i * 1024 + unat ?j" by (simp add: unat_div u)
  then have "?q \<noteq> 0xC00" "\<not> ?q - 0x40000 < 1024"
    using ij by (auto simp: word_less_nat_alt unat_sub_if_size)
  then have "read32 sample_tables (0x200000 + ?i * 4096 + 4 * ?j) = 0"
    by (simp add: sample_tables_def read32_mem_of_words al sample_words_def)
  then show ?thesis using assms by (simp add: paging_get_slot slot)
qed

lemma sample_tables_page_free:
  assumes "page_aligned p" "p < 0x100000" shows "page_free sample_tables 0x100000 p"
  using assms sample_table_unat by (auto simp: page_free_def page_aligned_def sample_table word_less_nat_alt)

lemma talk_mem_tables: "same_outside 0 (talk_mem(0 := b)) sample_tables"
  unfolding same_outside_def talk_mem_def
proof (intro allI impI)
  fix a :: addr assume a: "4096 \<le> a - 0"
  then have "write32 sample_tables 0x900 0x400800 a = sample_tables a"
    using far_from_slot [of "0x240" a] by (simp add: write32_other)
  moreover have "a \<noteq> 0" "a \<noteq> 0x800" "a \<noteq> 0x801" using a by auto
  ultimately show "((write32 sample_tables 0x900 0x400800)(0 := 1, 0x800 := 0x48, 0x801 := 0x69, 0 := b)) a = sample_tables a"
    by simp
qed

text \<open>The tables of a memory that differs from another one in a page apart from them.\<close>

lemma wf_chunk_same_outside:
  assumes "wf_chunk m' c d" "page_free m' d p" "same_outside p m m'" "page_aligned c" "c \<noteq> p"
  shows "wf_chunk m c d"
proof -
  have "directory_entry m c = directory_entry m' c"
    using read32_same_outside [OF assms(3) _ assms(4), of 0] assms(2,5) by (simp add: page_free_def directory_entry_def)
  moreover have "table_of m d i = table_of m' d i" if "i < 1024" for i
    using translation_same_outside(1) [OF assms(2,3) that] .
  ultimately show ?thesis using assms(1) by (simp add: wf_chunk_def wf_directory_def)
qed

lemma page_free_same_outside:
  assumes "page_free m' d p" "same_outside p m m'" "page_free m' d q" shows "page_free m d q"
  using translation_same_outside(1) [OF assms(1,2)] assms(3) by (simp add: page_free_def)

lemma talk_copy_tables:
  assumes "n \<le> 1024"
  shows "wf_chunk (talk_copy n) 0x3000 0x100000" "page_free (talk_copy n) 0x100000 0x2000"
  "page_aligned v \<Longrightarrow> paging_get (talk_copy n) 0x100000 v = 0" "page_aligned v \<Longrightarrow> paging_get talk_mem 0x100000 v = 0"
  "directory_entry talk_mem 0x3000 = 0x100000"
  "table_of (talk_copy n) 0x100000 0 = 0x200000"
proof -
  let ?m = "talk_mem(0 := 0x41)"
  have al: "page_aligned 0" "page_aligned 0x2000" "page_aligned 0x3000" by (simp_all add: page_aligned_def)
  note free0 = sample_tables_page_free [OF al(1)] and same0 = talk_mem_tables [of "0x41"]
  have wf: "wf_chunk ?m 0x3000 0x100000"
    using wf_chunk_same_outside [OF sample_tables_wf free0 same0 al(3)] by simp
  have free: "page_free ?m 0x100000 0x2000"
    using page_free_same_outside [OF free0 same0 sample_tables_page_free [OF al(2)]] by simp
  have same: "same_outside 0x2000 (talk_copy n) ?m"
  proof -
    have "\<not> a - 0x2000 < n" if "4096 \<le> a - 0x2000" for a :: addr
      using that assms by (simp add: word_less_nat_alt word_le_nat_alt)
    then show ?thesis by (simp add: same_outside_def talk_copy_def memset_apply)
  qed
  show "wf_chunk (talk_copy n) 0x3000 0x100000" using wf_chunk_same_outside [OF wf free same al(3)] by simp
  show "page_free (talk_copy n) 0x100000 0x2000" using page_free_same_outside [OF free same free] .
  show "table_of (talk_copy n) 0x100000 0 = 0x200000"
    using translation_same_outside(1) [OF free same, of 0] translation_same_outside(1) [OF free0 same0, of 0] sample_table [of 0]
    by simp
  show "paging_get (talk_copy n) 0x100000 v = 0" if "page_aligned v"
    using translation_same_outside(2) [OF free same that] translation_same_outside(2) [OF free0 same0 that]
      sample_tables_empty [OF that] by simp
  have "talk_mem(0 := 1) = talk_mem" by (simp add: talk_mem_def fun_eq_iff)
  then have same1: "same_outside 0 talk_mem sample_tables" using talk_mem_tables [of 1] by simp
  show "paging_get talk_mem 0x100000 v = 0" if "page_aligned v"
    using translation_same_outside(2) [OF free0 same1 that] sample_tables_empty [OF that] by simp
  have "wf_chunk talk_mem 0x3000 0x100000"
    using wf_chunk_same_outside [OF sample_tables_wf free0 same1 al(3)] by simp
  then show "directory_entry talk_mem 0x3000 = 0x100000" by (simp add: wf_chunk_def)
qed

lemma talk_translation:
  assumes "paging_get m 0x100000 0x400000 = 0" "r < 4096" shows "paging_get_physical_address m 0x100000 (0x400000 + r) = r"
  using paging_get_physical_address_split [of "0x400000" r m "0x100000"] assms by (simp add: page_aligned_def)

lemma talk_page_0:
  assumes "n \<le> 1024" "a < 0x1000" "a \<noteq> 0" shows "talk_copy n a = talk_mem a"
proof -
  have "\<not> a - 0x2000 < n" using assms(1,2) by (simp add: word_less_nat_alt word_le_nat_alt unat_sub_if_size word_size)
  then show ?thesis using assms(3) by (simp add: talk_copy_def memset_apply)
qed

lemma talk_strings:
  "talk_mem 0x800 = 0x48" "talk_mem 0x801 = 0x69" "talk_mem 0x802 = 0" "read32 talk_mem 0x900 = 0x400800"
proof -
  have "sample_tables 0x802 = 0" by (simp add: sample_tables_def mem_of_words_def sample_words_def)
  then show "talk_mem 0x802 = 0" by (simp add: talk_mem_def write32_other)
  have "read32 talk_mem 0x900 = read32 (write32 sample_tables 0x900 0x400800) 0x900"
    by (simp add: talk_mem_def read32_def)
  then show "read32 talk_mem 0x900 = 0x400800" by simp
qed (simp_all add: talk_mem_def)

lemma talk_layout:
  assumes "n \<le> 1024"
  shows "copy_layout (talk_copy n) 0x3000 0x100000 0x2000 0x400800 (length [0x48 :: u8, 0x69])"
    "c_string (mem_through (talk_copy n) 0x100000) 0x400800 [0x48, 0x69]"
proof -
  note tables = talk_copy_tables [OF assms]
  have "dir_index 0x2000 = 0" by (simp add: dir_index_def)
  then have slot: "pte_slot (talk_copy n) 0x100000 0x2000 = 0x200008"
    by (simp add: pte_slot_def tab_index_def tables)
  have "paging_get_physical_address (talk_copy n) 0x100000 (0x400000 + r) = r" if "r < 4096" for r
    using tables(3) [of "0x400000"] that by (intro talk_translation) (simp_all add: page_aligned_def)
  from this [of "0x800"] this [of "0x801"] this [of "0x802"]
  have phys: "paging_get_physical_address (talk_copy n) 0x100000 0x400800 = 0x800"
    "paging_get_physical_address (talk_copy n) 0x100000 0x400801 = 0x801"
    "paging_get_physical_address (talk_copy n) 0x100000 0x400802 = 0x802" by simp_all
  have "k = 0 \<or> k = 1 \<or> k = 2" if "k \<le> length [0x48 :: u8, 0x69]" for k using that by auto
  then show "copy_layout (talk_copy n) 0x3000 0x100000 0x2000 0x400800 (length [0x48 :: u8, 0x69])"
    using phys tables(1,2) slot by (fastforce simp: copy_layout_def Let_def)
  show "c_string (mem_through (talk_copy n) 0x100000) 0x400800 [0x48, 0x69]"
    using phys talk_strings by (simp add: mem_through_def talk_page_0 [OF assms])
qed

lemma talk_first_argument: "first_argument talk_os = 0x400800"
proof -
  have "paging_get_physical_address talk_mem 0x100000 (0x400000 + r) = r" if "r < 4096" for r
    using talk_copy_tables(4) [of 108 "0x400000"] that by (intro talk_translation) (simp_all add: page_aligned_def)
  from this [of "0x900"] this [of "0x901"] this [of "0x902"] this [of "0x903"] talk_strings(4) show ?thesis
    by (simp add: first_argument_def talk_copy_tables(5) [of 108] mem_through_def read32_def)
qed


end
