(* ===== verification/Machine.thy ===== *)
theory Machine
  imports Wellformed Kernel
begin

text \<open>
  The machine as it runs: programs, their kernel commands, interrupts and exceptions, in any order. A
  step of a program may leave any memory behind. The tables are those \<open>kernel_main\<close> has set up;
  whatever happens, the structures of the processes stay well-formed.
\<close>

section \<open>The contract of the handlers\<close>

text \<open>The tables hold nothing but the given handlers and commands.\<close>

definition tables_ok :: "'w interrupt_callback set \<Rightarrow> 'w isr80h_command set \<Rightarrow> 'w idt \<Rightarrow> bool" where
  "tables_ok handlers services i \<longleftrightarrow> length (interrupt_callbacks i) = TOTAL_INTERRUPTS
     \<and> length (isr80h_commands i) = 1024
     \<and> (\<forall>f. Some f \<in> set (interrupt_callbacks i) \<longrightarrow> f \<in> handlers)
     \<and> (\<forall>g. Some g \<in> set (isr80h_commands i) \<longrightarrow> g \<in> services)"

text \<open>
  What the two entries of the kernel rely on: a property that handlers and commands keep, and that does
  not look at the tasks and the ports.
\<close>

locale machine_invariant =
  fixes ok :: "'w machine \<Rightarrow> bool"
    and handlers :: "'w interrupt_callback set"
    and services :: "'w isr80h_command set"
  assumes ok_tasks: "ok (k\<lparr>tasks := t\<rparr>) = ok k"
    and ok_ports: "ok (k\<lparr>ports := ps\<rparr>) = ok k"
    and handler_keeps: "f \<in> handlers \<Longrightarrow> ok k \<Longrightarrow> f frame k = Some k' \<Longrightarrow> ok k'"
    and service_keeps: "g \<in> services \<Longrightarrow> ok k \<Longrightarrow> g frame k = Some (v, k') \<Longrightarrow> ok k'"
begin

lemma handle_command_keeps:
  assumes "tables_ok handlers services i" "ok k" "isr80h_handle_command i n frame k = Some (v, k')" shows "ok k'"
proof (cases "n < 0 \<or> 1024 \<le> n \<or> isr80h_commands i ! nat n = None")
  case True
  then show ?thesis using assms by (auto simp: isr80h_handle_command_def split: if_splits)
next
  case False
  then obtain g where g: "isr80h_commands i ! nat n = Some g" by auto
  then have "Some g \<in> set (isr80h_commands i)" using assms(1) False nth_mem [of "nat n" "isr80h_commands i"]
    by (auto simp: tables_ok_def)
  then have "g \<in> services" using assms(1) by (simp add: tables_ok_def)
  then show ?thesis using service_keeps assms(2,3) g False by (auto simp: isr80h_handle_command_def)
qed

lemma isr80h_handler_keeps:
  assumes "tables_ok handlers services i" "ok k" "isr80h_handler i n frame k = Some (v, k')" shows "ok k'"
proof -
  obtain t where t: "task_current_save_state frame (kernel_page (tasks k)) = Some t"
    using assms(3) by (auto simp: isr80h_handler_def Let_def split: option.splits)
  with assms(3) obtain u where u: "isr80h_handle_command i n frame (k\<lparr>tasks := t\<rparr>) = Some (v, u)"
    and k': "k' = u\<lparr>tasks := task_page (tasks u)\<rparr>"
    by (auto simp: isr80h_handler_def Let_def split: option.splits)
  from handle_command_keeps [OF assms(1) _ u] assms(2) have "ok u" by (simp add: ok_tasks)
  then show ?thesis by (simp add: k' ok_tasks)
qed

lemma interrupt_handler_keeps:
  assumes "tables_ok handlers services i" "ok k" "n < TOTAL_INTERRUPTS" "interrupt_handler i n frame k = Some k'" shows "ok k'"
proof (cases "interrupt_callbacks i ! n")
  case None
  then show ?thesis using assms(2,4) by (auto simp: interrupt_handler_def Let_def ok_tasks ok_ports)
next
  case (Some f)
  then have "Some f \<in> set (interrupt_callbacks i)"
    using assms(1,3) nth_mem [of n "interrupt_callbacks i"] by (simp add: tables_ok_def)
  then have f: "f \<in> handlers" using assms(1) by (simp add: tables_ok_def)
  obtain t where t: "task_current_save_state frame (kernel_page (tasks k)) = Some t"
    using assms(4) Some by (auto simp: interrupt_handler_def Let_def split: option.splits)
  with assms(4) Some obtain u where u: "f frame (k\<lparr>tasks := t\<rparr>) = Some u"
    and k': "k' = u\<lparr>tasks := task_page (tasks u), ports := ports u @ [(0x20, 0x20)]\<rparr>"
    by (auto simp: interrupt_handler_def Let_def split: option.splits)
  from handler_keeps [OF f _ u] assms(2) have "ok u" by (simp add: ok_tasks)
  then show ?thesis by (simp add: k' ok_tasks ok_ports)
qed

end

section \<open>The kernel's handlers keep the processes well-formed\<close>

definition os_ok :: "'w os \<Rightarrow> bool" where
  "os_ok k \<longleftrightarrow> procs_ok (k_procs (rest k))"

text \<open>\<open>task_next\<close> goes to another task; it does not touch the processes.\<close>

definition next_keeps :: "'w command_context \<Rightarrow> bool" where
  "next_keeps c \<longleftrightarrow> (\<forall>k k'. c_next c k = Some k' \<longrightarrow>
     processes (k_procs (rest k')) = processes (k_procs (rest k))
     \<and> process_at (k_procs (rest k')) = process_at (k_procs (rest k)))"

lemma os_ok_fields [simp]:
  "os_ok (put_procs s k) = procs_ok s" "procs_ok (procs_of k) = os_ok k" "os_ok (put_screen scr k) = os_ok k"
  "os_ok (put_mem m k) = os_ok k" "os_ok (k\<lparr>tasks := t\<rparr>) = os_ok k" "os_ok (k\<lparr>ports := ps\<rparr>) = os_ok k"
  by (simp_all add: os_ok_def procs_of_def put_screen_def put_mem_def)

lemma next_keepsD: "next_keeps c \<Longrightarrow> c_next c k = Some k' \<Longrightarrow> os_ok k \<Longrightarrow> os_ok k'"
  by (simp add: next_keeps_def os_ok_def procs_ok_def)

lemma stack_item_ok: "stack_item i k = (v, k') \<Longrightarrow> os_ok k' = os_ok k"
  by (auto simp: stack_item_def split: prod.splits)

lemma copy_string_ok: "copy_string u b n k = (r, k') \<Longrightarrow> os_ok k' = os_ok k"
  by (auto simp: copy_string_def split: prod.splits)

lemma keyboard_pop_length: "keyboard_pop (Some kb) = (c, Some kb') \<Longrightarrow> length (buffer kb') = length (buffer kb)"
  by (auto simp: keyboard_pop_def Let_def split: if_splits)

lemma keyboard_pop_None: "keyboard_pop None = (c, kb) \<Longrightarrow> kb = None"
  by (simp add: keyboard_pop_def)

lemma keyboard_push_length: "keyboard_push c (Some kb) = Some kb' \<Longrightarrow> length (buffer kb') = length (buffer kb)"
  by (auto simp: keyboard_push_def Let_def split: if_splits)

lemma owner_buffer: "os_ok k \<Longrightarrow> length (buffer (keyboard_of (process_at (k_procs (rest k)) p))) = KEYBOARD_BUFFER_SIZE"
  by (simp add: os_ok_def procs_ok_def process_ok_def)

lemma pop_key_ok: "os_ok k \<Longrightarrow> pop_key k = (c, k') \<Longrightarrow> os_ok k'"
  by (cases "current_task (tasks k) = 0")
    (auto simp: pop_key_def Let_def keyboard_pop_length owner_buffer split: prod.splits option.splits
      dest: keyboard_pop_None intro!: procs_ok_keyboard)

lemma keyboard_callback_ok:
  assumes "os_ok k" "keyboard_callback after scancode frame k = Some k'" shows "os_ok k'"
proof -
  let ?p = "current_process (procs_of k)"
  let ?b = "if ?p = 0 then None else Some (keyboard_of (process_at (procs_of k) ?p))"
  define d where "d = clasic_keyboard_handle_interrupt after scancode
      \<lparr>capslock = lock (rest k), current_buffer = ?b, kernel_pages = False\<rparr>"
  have d: "current_buffer d = ?b \<or> (\<exists>c. current_buffer d = keyboard_push c ?b)"
    by (auto simp: d_def clasic_keyboard_handle_interrupt_def Let_def)
  have "procs_ok (case current_buffer d of None \<Rightarrow> procs_of k
      | Some b \<Rightarrow> upd_process ?p (\<lambda>P. P\<lparr>keyboard_of := b\<rparr>) (procs_of k))"
  proof (cases "current_buffer d")
    case (Some b)
    have ok: "process_ok (process_at (procs_of k) ?p)" using assms(1) by (simp add: os_ok_def procs_ok_def)
    have "length (buffer b) = KEYBOARD_BUFFER_SIZE"
    proof (cases "?p = 0")
      case True
      then show ?thesis using d Some by (auto simp: keyboard_push_def)
    next
      case False
      then show ?thesis using d Some ok by (auto simp: process_ok_def dest: keyboard_push_length [OF sym])
    qed
    then show ?thesis using Some assms(1) by (simp add: procs_ok_keyboard)
  qed (use assms(1) in simp)
  then show ?thesis using assms(2)
    by (auto simp: keyboard_callback_def Let_def os_ok_def put_procs_def d_def split: option.splits)
qed

lemma process_terminate_next_ok:
  assumes "next_keeps c" "os_ok k" "process_terminate p (procs_of k) = Some (r, s)" "c_next c (put_procs s k) = Some k'"
  shows "os_ok k'"
  using assms process_terminate_keeps [of "procs_of k" p r s] by (auto intro: next_keepsD)

lemma load_switch_ok: "process_load_switch l j q f (procs_of k) = Some (r, p, s) \<Longrightarrow> os_ok k \<Longrightarrow> procs_ok s"
  using process_load_switch_keeps [of "procs_of k"] by simp

lemma inject_ok: "process_inject_arguments p a s = Some (r, s') \<Longrightarrow> procs_ok s \<Longrightarrow> procs_ok s'"
  using process_inject_arguments_keeps [of s] by simp

lemma command6_ok:
  assumes "os_ok k" "isr80h_command6_process_load_start l junk fb path frame k = Some out"
  shows "out = Returns v k' \<or> out = Enters r k' \<Longrightarrow> os_ok k'"
  using assms by (auto simp: isr80h_command6_process_load_start_def enter_process_def Let_def bind_eq_Some_conv
      split: prod.splits sum.splits if_splits outcome.splits dest!: stack_item_ok copy_string_ok load_switch_ok)

lemma command7_ok:
  assumes "os_ok k" "isr80h_command7_invoke_system_command l junk tr path frame k = Some out"
  shows "out = Returns v k' \<or> out = Enters r k' \<Longrightarrow> os_ok k'"
  using assms by (auto simp: isr80h_command7_invoke_system_command_def enter_process_def Let_def bind_eq_Some_conv status_iff
      split: prod.splits sum.split_asm if_splits outcome.splits dest!: stack_item_ok load_switch_ok inject_ok)

lemma service_ok:
  assumes "next_keeps c" "g \<in> set (commands c)" "os_ok k" "g frame k = Some (v, k')" shows "os_ok k'"
proof -
  note facts = assms(3,4)
  consider "g = isr80h_command0_sum" | "g = isr80h_command1_print (c_buf c)" | "g = isr80h_command2_getkey"
    | "g = isr80h_command3_putchar" | "g = isr80h_command4_malloc" | "g = isr80h_command5_free"
    | "g = as_command (isr80h_command6_process_load_start (c_loader c) (c_junk c) (c_filename c) (c_path c))"
    | "g = as_command (isr80h_command7_invoke_system_command (c_loader c) (c_junk c) (c_physical c) (c_path c))"
    | "g = isr80h_command8_get_program_arguments (c_physical c)" | "g = isr80h_command9_exit (c_next c)"
    using assms(2) by (auto simp: commands_def)
  then show ?thesis
  proof cases
    case 1
    then show ?thesis using facts by (auto simp: isr80h_command0_sum_def Let_def split: prod.splits)
  next
    case 2
    then show ?thesis using facts
      by (auto simp: isr80h_command1_print_def split: prod.splits dest!: stack_item_ok copy_string_ok)
  next
    case 3
    then show ?thesis using facts by (auto simp: isr80h_command2_getkey_def split: prod.splits intro: pop_key_ok)
  next
    case 4
    then show ?thesis using facts
      by (auto simp: isr80h_command3_putchar_def Let_def split: prod.splits dest!: stack_item_ok)
  next
    case 5
    obtain n k1 where st: "stack_item 0 k = (n, k1)" by fastforce
    have "procs_ok (snd (process_malloc (current_owner k1) n (procs_of k1)))"
      using facts stack_item_ok [OF st] by (intro process_malloc_keeps) simp
    then show ?thesis using 5 facts(2) st by (auto simp: isr80h_command4_malloc_def split: prod.splits)
  next
    case 6
    obtain n k1 where st: "stack_item 0 k = (n, k1)" by fastforce
    have "procs_ok (process_free (current_owner k1) n (procs_of k1))"
      using facts stack_item_ok [OF st] by (intro process_free_keeps) simp
    then show ?thesis using 6 facts(2) st by (auto simp: isr80h_command5_free_def)
  next
    case 7
    then show ?thesis using facts
      by (auto simp: as_command_def split: option.splits outcome.splits dest: command6_ok)
  next
    case 8
    then show ?thesis using facts
      by (auto simp: as_command_def split: option.splits outcome.splits dest: command7_ok)
  next
    case 9
    then show ?thesis using facts
      by (auto simp: isr80h_command8_get_program_arguments_def Let_def split: prod.splits dest!: stack_item_ok)
  next
    case 10
    then show ?thesis using facts assms(1)
      by (auto simp: isr80h_command9_exit_def bind_eq_Some_conv intro: process_terminate_next_ok)
  qed
qed

text \<open>The handlers that \<open>kernel_main\<close> registers.\<close>

definition kernel_handlers :: "'w image \<Rightarrow> 'w kernel interrupt_callback set" where
  "kernel_handlers im =
     {idt_handle_exception (c_next (context_of im)), idt_clock (c_next (context_of im)),
      \<lambda>frame k. keyboard_callback (after_scancodes im) (port_byte im k) frame k}"

lemma handler_ok:
  assumes "next_keeps (context_of im)" "f \<in> kernel_handlers im" "os_ok k" "f frame k = Some k'" shows "os_ok k'"
  using assms by (auto simp: kernel_handlers_def idt_clock_def idt_handle_exception_def bind_eq_Some_conv
      dest: keyboard_callback_ok intro: process_terminate_next_ok next_keepsD)

interpretation os: machine_invariant os_ok
  "\<Union>im \<in> {im. next_keeps (context_of im)}. kernel_handlers im"
  "\<Union>c \<in> {c. next_keeps c}. set (commands c)"
proof
  show "os_ok (k\<lparr>tasks := t\<rparr>) = os_ok k" "os_ok (k\<lparr>ports := ps\<rparr>) = os_ok k" for k :: "'a os" and t ps by simp_all
qed (auto intro: handler_ok service_ok)

section \<open>The tables after the start\<close>

definition callbacks_in :: "'w interrupt_callback set \<Rightarrow> 'w idt \<Rightarrow> bool" where
  "callbacks_in H i \<longleftrightarrow> length (interrupt_callbacks i) = TOTAL_INTERRUPTS
     \<and> (\<forall>f. Some f \<in> set (interrupt_callbacks i) \<longrightarrow> f \<in> H)"

lemma callbacks_in_register:
  "callbacks_in H i \<Longrightarrow> f \<in> H \<Longrightarrow> callbacks_in H (snd (idt_register_interrupt_callback n f i))"
  using set_update_subset_insert [of "interrupt_callbacks i" "nat n" "Some f"]
  by (auto simp: callbacks_in_def idt_register_interrupt_callback_def)

lemma callbacks_in_set [simp]: "callbacks_in H (idt_set n a i) = callbacks_in H i"
  by (simp add: callbacks_in_def idt_set_def)

lemma setup_interrupts_callbacks:
  assumes "callbacks_in (kernel_handlers im) i" shows "callbacks_in (kernel_handlers im) (setup_interrupts im i)"
proof -
  have sets: "callbacks_in H (fold (\<lambda>i. idt_set i (e i)) xs s) = callbacks_in H s" for H e xs and s :: "'a kernel idt"
    by (induction xs arbitrary: s) simp_all
  have regs: "callbacks_in H (fold (\<lambda>i s. snd (idt_register_interrupt_callback (int i) f s)) xs s)"
    if "callbacks_in H s" "f \<in> H" for H f xs and s :: "'a kernel idt"
    using that by (induction xs arbitrary: s) (simp_all add: callbacks_in_register)
  show ?thesis
    unfolding setup_interrupts_def idt_init_def Let_def
    by (intro callbacks_in_register regs) (use assms in \<open>simp_all add: sets kernel_handlers_def, simp_all add: callbacks_in_def\<close>)
qed

lemma kernel_main_tables:
  assumes "kernel_main im m h t s i kl = Some (r, i', kl')"
    and "isr80h_commands i = replicate 1024 None" "interrupt_callbacks i = replicate 512 None"
  shows "tables_ok (kernel_handlers im) (set (commands (context_of im))) i'"
proof -
  let ?i = "setup_interrupts im i"
  have "isr80h_commands ?i = replicate 1024 None" using assms(2) by (simp add: setup_interrupts_commands)
  from isr80h_register_commands_table [OF this]
  have i1: "isr80h_register_commands (context_of im) ?i
      = Some (?i\<lparr>isr80h_commands := map Some (commands (context_of im)) @ replicate 1014 None\<rparr>)" .
  let ?i1 = "?i\<lparr>isr80h_commands := map Some (commands (context_of im)) @ replicate 1014 None\<rparr>"
  let ?key = "\<lambda>frame k. keyboard_callback (after_scancodes im) (port_byte im k) frame k"
  have "callbacks_in (kernel_handlers im) ?i"
    by (rule setup_interrupts_callbacks) (simp add: callbacks_in_def assms(3))
  then have "callbacks_in (kernel_handlers im) ?i1" by (simp add: callbacks_in_def)
  then have "callbacks_in (kernel_handlers im) (snd (idt_register_interrupt_callback 0x21 ?key ?i1))"
    by (rule callbacks_in_register) (simp add: kernel_handlers_def)
  moreover have "i' = snd (idt_register_interrupt_callback 0x21 ?key ?i1)"
  proof -
    obtain h1 m1 where mem: "setup_memory im m h = Some (h1, m1)" using setup_memory_heap [of im m h] by blast
    obtain disk s1 where f: "setup_files im s = (disk, s1)" by fastforce
    obtain chunk m2 where p: "paging_new_4gb (setup_tss (tss_addr im) m1) h1 7 = (chunk, m2)" by fastforce
    show ?thesis
      using assms(1) i1 mem f p
      by (auto simp: kernel_main_def keyboard_init_def classic_keyboard_init_def Let_def)
  qed
  ultimately show ?thesis
    by (auto simp: tables_ok_def callbacks_in_def idt_register_interrupt_callback_def commands_def)
qed

section \<open>The runs of the machine\<close>

text \<open>
  A step is a kernel command that comes back, one that enters a program, an interrupt, or a program at
  work, which may leave any memory (no page of the kernel is assumed to be protected).
\<close>

inductive os_step :: "'w command_context \<Rightarrow> 'w kernel idt \<Rightarrow> 'w os \<Rightarrow> 'w os \<Rightarrow> bool" for c i where
  command: "isr80h_handler i n frame k = Some (v, k') \<Longrightarrow> os_step c i k k'"
| load: "task_current_save_state frame (kernel_page (tasks k)) = Some t \<Longrightarrow>
    isr80h_command6_process_load_start (c_loader c) (c_junk c) (c_filename c) (c_path c) frame (k\<lparr>tasks := t\<rparr>)
      = Some (Enters r k') \<Longrightarrow> os_step c i k k'"
| system: "task_current_save_state frame (kernel_page (tasks k)) = Some t \<Longrightarrow>
    isr80h_command7_invoke_system_command (c_loader c) (c_junk c) (c_physical c) (c_path c) frame (k\<lparr>tasks := t\<rparr>)
      = Some (Enters r k') \<Longrightarrow> os_step c i k k'"
| interrupt: "n < TOTAL_INTERRUPTS \<Longrightarrow> interrupt_handler i n frame k = Some k' \<Longrightarrow> os_step c i k k'"
| program: "os_step c i k (put_mem m k)"

inductive os_reaches :: "'w command_context \<Rightarrow> 'w kernel idt \<Rightarrow> 'w os \<Rightarrow> 'w os \<Rightarrow> bool" for c i k where
  start: "os_reaches c i k k"
| step: "os_reaches c i k k1 \<Longrightarrow> os_step c i k1 k2 \<Longrightarrow> os_reaches c i k k2"

lemma os_step_keeps:
  assumes tab: "tables_ok (kernel_handlers im) (set (commands (context_of im))) i"
    and nx: "next_keeps (context_of im)" and st: "os_step (context_of im) i k k'" and ok: "os_ok k"
  shows "os_ok k'"
proof -
  have "tables_ok (\<Union>im \<in> {im. next_keeps (context_of im)}. kernel_handlers im)
      (\<Union>c \<in> {c. next_keeps c}. set (commands c)) i"
    using tab nx by (auto simp: tables_ok_def)
  note keep = os.isr80h_handler_keeps [OF this] os.interrupt_handler_keeps [OF this]
  from st show ?thesis
  proof cases
    case (command n frame v)
    then show ?thesis by (rule keep(1) [OF ok])
  next
    case (load frame t r)
    then show ?thesis using ok command6_ok [OF _ load(2)] by simp
  next
    case (system frame t r)
    then show ?thesis using ok command7_ok [OF _ system(2)] by simp
  next
    case (interrupt n frame)
    then show ?thesis by (rule keep(2) [OF ok])
  next
    case (program m)
    then show ?thesis using ok by simp
  qed
qed

section \<open>Properties\<close>


end
