(* ===== verification/Stdlib.thy ===== *)
theory Stdlib
  imports Strings
begin

unbundle bit_operations_syntax

text \<open>
  The C library of the user programs (\<^verbatim>\<open>programs/stdlib/src\<close>): numbers as text, formatted output and
  line input, with the loop of the shell (\<^verbatim>\<open>programs/shell/src/shell.c\<close>) on them. The routines of its \<^verbatim>\<open>memory.c\<close> and the
  first ones of its \<^verbatim>\<open>string.c\<close> are copies of the kernel's and have their models there. A system
  call is a recorded output (\<open>Print\<close>, \<open>Putchar\<close>), or an input that is a parameter: the keys that
  \<open>multitaskos_getkey\<close> gives one after the other. A buffer on the stack or a static one is a list.
\<close>

section \<open>Numbers as text\<close>

text \<open>
  \<open>text\<close> is the static array of 12 characters with what it held before, \<open>loc\<close> the place of the
  first character; the loop works on a number that is not positive.
\<close>

lemma sdiv_smaller: "i \<noteq> 0 \<Longrightarrow> \<bar>i sdiv (10 :: int)\<bar> < \<bar>i\<bar>"
  by (auto simp: signed_divide_int_def sgn_if abs_mult)

function itoa_loop :: "int \<Rightarrow> int \<Rightarrow> u8 list \<Rightarrow> int \<times> u8 list" where
  "itoa_loop i loc str =
     (if i \<noteq> 0
      then itoa_loop (i sdiv 10) (loc - 1) (str[nat (loc - 1) := word_of_int (0x30 - i smod 10)])
      else (loc, str))"
  by pat_completeness auto
termination
  by (relation "measure (\<lambda>(i, loc, str). nat \<bar>i\<bar>)") (auto dest: sdiv_smaller)

declare itoa_loop.simps [simp del]

definition itoa :: "u8 list \<Rightarrow> int \<Rightarrow> int \<times> u8 list" where
  "itoa str i =
     (let loc = 11;
          str = str[11 := 0];
          neg = (i < 0);
          i = (if i \<ge> 0 then - i else i);
          (loc, str) = itoa_loop i loc str;
          (loc, str) = (if loc = 11 then (loc - 1, str[nat (loc - 1) := 0x30]) else (loc, str))
      in if neg then (loc - 1, str[nat (loc - 1) := 0x2D]) else (loc, str))"

section \<open>Formatted output\<close>

datatype call = Putchar u8 | Print "u8 list"
datatype arg = IntArg int | StrArg "u8 list"

text \<open>
  The format without its terminator. A \<open>%\<close> at the end makes the loop walk past the terminator, and
  an argument that is missing or of another type is read all the same: \<open>None\<close>.
\<close>

fun printf_loop :: "u8 list \<Rightarrow> arg list \<Rightarrow> u8 list \<Rightarrow> call list option" where
  "printf_loop [] args str = Some []"
| "printf_loop [p] args str = (if p \<noteq> 0x25 then Some [Putchar p] else None)"
| "printf_loop (p # q # qs) args str =
     (if p \<noteq> 0x25 then map_option ((#) (Putchar p)) (printf_loop (q # qs) args str)
      else if q = 0x69 then
        (case args of
           IntArg ival # args \<Rightarrow>
             let (loc, str) = itoa str ival
             in map_option ((#) (Print (takeWhile (\<lambda>c. c \<noteq> 0) (drop (nat loc) str)))) (printf_loop qs args str)
         | _ \<Rightarrow> None)
      else if q = 0x73 then
        (case args of
           StrArg sval # args \<Rightarrow> map_option ((#) (Print sval)) (printf_loop qs args str)
         | _ \<Rightarrow> None)
      else map_option ((#) (Putchar q)) (printf_loop qs args str))"

definition printf :: "u8 list \<Rightarrow> arg list \<Rightarrow> u8 list \<Rightarrow> call list option" where
  "printf fmt args str = printf_loop fmt args str"

section \<open>Line input\<close>

text \<open>The next key that is not 0; without one the program waits for ever.\<close>

fun getkeyblock :: "u8 list \<Rightarrow> (u8 \<times> u8 list) option" where
  "getkeyblock [] = None"
| "getkeyblock (val # keys) = (if val = 0 then getkeyblock keys else Some (val, keys))"

lemma getkeyblock_shorter: "getkeyblock keys = Some (k, keys') \<Longrightarrow> length keys' < length keys"
  by (induction keys) (auto split: if_splits)

function readline_loop ::
    "int \<Rightarrow> bool \<Rightarrow> u8 list \<Rightarrow> int \<Rightarrow> u8 list \<Rightarrow> (u8 list \<times> call list \<times> u8 list) option" where
  "readline_loop mx output_while_typing keys i out =
     (if i < mx - 1 then
        (case getkeyblock keys of
           None \<Rightarrow> None
         | Some (key, keys) \<Rightarrow>
             if key = 13 then Some (out[nat i := 0], [], keys)
             else
               map_option (\<lambda>(out, calls, keys). (out, (if output_while_typing then Putchar key # calls else calls), keys))
                 (if key = 0x08 \<and> i \<ge> 1
                  then readline_loop mx output_while_typing keys (i - 2 + 1) (out[nat (i - 1) := 0])
                  else readline_loop mx output_while_typing keys (i + 1) (out[nat i := key])))
      else Some (out[nat i := 0], [], keys))"
  by pat_completeness auto
termination
  by (relation "measure (\<lambda>(mx, b, keys, i, out). length keys)") (auto dest: getkeyblock_shorter)

declare readline_loop.simps [simp del]

text \<open>The line with the contents of the buffer, the calls, and the keys that are left.\<close>

definition terminal_readline :: "u8 list \<Rightarrow> int \<Rightarrow> bool \<Rightarrow> u8 list \<Rightarrow> (u8 list \<times> call list \<times> u8 list) option" where
  "terminal_readline out mx output_while_typing keys = readline_loop mx output_while_typing keys 0 out"

section \<open>The shell\<close>

text \<open>
  One round of the loop: the prompt, a line that is echoed, a new line. The buffer keeps what it held.
  The rounds end when the keys do: the shell then waits in the next line for ever.
\<close>

definition shell_round :: "u8 list \<Rightarrow> u8 list \<Rightarrow> (u8 list \<times> call list \<times> u8 list) option" where
  "shell_round buf keys =
     map_option (\<lambda>(buf, calls, keys). (buf, Print [0x3E, 0x20] # calls @ [Print [0x0A]], keys))
       (terminal_readline buf 1024 True keys)"

lemma readline_loop_shorter:
  "readline_loop mx b keys i out = Some (out', calls, keys') \<Longrightarrow>
   length keys' \<le> length keys \<and> (i < mx - 1 \<longrightarrow> length keys' < length keys)"
proof (induction mx b keys i out arbitrary: out' calls keys' rule: readline_loop.induct)
  case (1 mx b keys i out)
  show ?case
  proof (cases "i < mx - 1")
    case False
    then show ?thesis using 1(3) by (simp add: readline_loop.simps [of mx b keys])
  next
    case room: True
    with 1(3) obtain key ks where k: "getkeyblock keys = Some (key, ks)"
      by (cases "getkeyblock keys") (auto simp: readline_loop.simps [of mx b keys])
    have "length keys' \<le> length ks"
    proof (cases "key = 13")
      case True
      then show ?thesis using 1(3) room k by (simp add: readline_loop.simps [of mx b keys])
    next
      case other: False
      show ?thesis
      proof (cases "key = 8 \<and> i \<ge> 1")
        case True
        then show ?thesis using 1(3) room k 1(1) [OF room k refl other True]
          by (auto simp: readline_loop.simps [of mx b keys])
      next
        case False
        then show ?thesis using 1(3) room k other 1(2) [OF room k refl other False]
          by (auto simp: readline_loop.simps [of mx b keys])
      qed
    qed
    then show ?thesis using getkeyblock_shorter [OF k] room by simp
  qed
qed

function shell_loop :: "u8 list \<Rightarrow> u8 list \<Rightarrow> call list" where
  "shell_loop buf keys =
     (case shell_round buf keys of
        None \<Rightarrow> []
      | Some (buf, calls, keys) \<Rightarrow> calls @ shell_loop buf keys)"
  by pat_completeness auto
termination
  by (relation "measure (\<lambda>(buf, keys). length keys)")
    (auto simp: shell_round_def terminal_readline_def dest: readline_loop_shorter)

declare shell_loop.simps [simp del]

text \<open>The greeting is \<^verbatim>\<open>MultitaskOS v1.0.0\<close> and a new line.\<close>

definition shell_main :: "u8 list \<Rightarrow> u8 list \<Rightarrow> call list" where
  "shell_main buf keys =
     Print [0x4D, 0x75, 0x6C, 0x74, 0x69, 0x74, 0x61, 0x73, 0x6B, 0x4F, 0x53, 0x20,
            0x76, 0x31, 0x2E, 0x30, 0x2E, 0x30, 0x0A] # shell_loop buf keys"

section \<open>Numbers\<close>

text \<open>The decimal digits of a number.\<close>

fun digits :: "nat \<Rightarrow> u8 list" where
  "digits n = (if n = 0 then [] else digits (n div 10) @ [word_of_nat (48 + n mod 10)])"

declare digits.simps [simp del]

lemma sdiv_neg: "(- int n) sdiv 10 = - int (n div 10)"
  by (auto simp: signed_divide_int_def sgn_if zdiv_int [of n 10])

lemma smod_neg: "(- int n) smod 10 = - int (n mod 10)"
  by (cases "n = 0") (simp_all add: signed_modulo_int_def zmod_int [of n 10])

lemma digit_word: "word_of_int (0x30 - (- int n) smod 10) = (word_of_nat (48 + n mod 10) :: u8)"
proof -
  have "0x30 - (- int n) smod 10 = int (48 + n mod 10)" by (simp only: smod_neg)
  then show ?thesis by (simp only: of_int_of_nat_eq)
qed

lemma itoa_loop_digits:
  "length (digits n) \<le> loc \<Longrightarrow> loc \<le> length str \<Longrightarrow>
   itoa_loop (- int n) (int loc) str
     = (int (loc - length (digits n)), take (loc - length (digits n)) str @ digits n @ drop loc str)"
proof (induction n arbitrary: loc str rule: digits.induct)
  case (1 n)
  show ?case
  proof (cases "n = 0")
    case True
    then show ?thesis by (simp add: itoa_loop.simps digits.simps)
  next
    case False
    let ?c = "word_of_nat (48 + n mod 10) :: u8" and ?d = "digits (n div 10)"
    have d: "digits n = ?d @ [?c]" using False by (simp add: digits.simps [of n])
    have loc: "length ?d < loc" "length ?d \<le> loc - 1" "loc - 1 < length str" using 1(2,3) d by auto
    have loc_pred: "int loc - 1 = int (loc - 1)" using loc(1) by simp
    have "itoa_loop (- int n) (int loc) str = itoa_loop (- int (n div 10)) (int (loc - 1)) (str[loc - 1 := ?c])"
      using False loc(1) 
      by (subst itoa_loop.simps) (simp only: sdiv_neg digit_word nat_int neg_equal_0_iff_equal of_nat_eq_0_iff if_True not_False_eq_True loc_pred)
    also have "\<dots> = (int (loc - 1 - length ?d),
        take (loc - 1 - length ?d) (str[loc - 1 := ?c]) @ ?d @ drop (loc - 1) (str[loc - 1 := ?c]))"
      using False loc by (intro 1(1)) simp_all
    also have "drop (loc - 1) (str[loc - 1 := ?c]) = ?c # drop loc str"
      using loc(1,3) Cons_nth_drop_Suc [of "loc - 1" "str[loc - 1 := ?c]"] by simp
    also have "take (loc - 1 - length ?d) (str[loc - 1 := ?c]) = take (loc - 1 - length ?d) str" by simp
    finally show ?thesis unfolding d by simp
  qed
qed

lemma digits_length: "n < 10 ^ k \<Longrightarrow> length (digits n) \<le> k"
proof (induction k arbitrary: n)
  case (Suc k)
  then have "n div 10 < 10 ^ k" by (simp add: less_mult_imp_div_less mult.commute)
  with Suc.IH [of "n div 10"] show ?case by (simp add: digits.simps [of n])
qed (simp add: digits.simps)

text \<open>The value of a text of decimal digits, and of one with a sign.\<close>

definition digits_value :: "u8 list \<Rightarrow> nat" where
  "digits_value xs = foldl (\<lambda>v c. 10 * v + (unat c - 48)) 0 xs"

definition text_value :: "u8 list \<Rightarrow> int" where
  "text_value xs = (if take 1 xs = [0x2D] then - int (digits_value (tl xs)) else int (digits_value xs))"

lemma digit_unat: "unat (word_of_nat (48 + n mod 10) :: u8) = 48 + n mod 10"
proof -
  have "48 + n mod 10 < (2 :: nat) ^ 8" using mod_less_divisor [of 10 n] by simp
  then show ?thesis by (simp add: unat_of_nat del: of_nat_add)
qed

lemma digits_value_digits: "digits_value (digits n) = n"
proof (induction n rule: digits.induct)
  case (1 n)
  then show ?case by (simp add: digits.simps [of n] digits_value_def digit_unat del: of_nat_add)
qed

lemma digits_range: "c \<in> set (digits n) \<Longrightarrow> 48 \<le> unat c \<and> unat c \<le> 57"
proof (induction n rule: digits.induct)
  case (1 n)
  have "n mod 10 < 10" by simp
  with 1 show ?case by (auto simp: digits.simps [of n] digit_unat split: if_splits simp del: of_nat_add)
qed

lemma digits_no_leading_zero: "digits n \<noteq> [] \<Longrightarrow> hd (digits n) \<noteq> 48"
proof (induction n rule: digits.induct)
  case (1 n)
  show ?case
  proof (cases "n div 10 = 0")
    case True
    then have "n mod 10 = n" by simp
    moreover have "n \<noteq> 0" using 1(2) by (cases "n = 0") (simp_all add: digits.simps)
    ultimately have "unat (word_of_nat (48 + n mod 10) :: u8) \<noteq> unat (48 :: u8)"
      unfolding digit_unat by simp
    then show ?thesis using True \<open>n \<noteq> 0\<close> by (auto simp: digits.simps [of n] digits.simps [of 0])
  next
    case False
    moreover have "n \<noteq> 0" using False by auto
    moreover have "digits (n div 10) \<noteq> []" using False by (simp add: digits.simps [of "n div 10"])
    ultimately show ?thesis using 1(1) by (simp add: digits.simps [of n])
  qed
qed

text \<open>The text of a number; \<open>itoa\<close> puts it before the terminator at 11.\<close>

definition number_text :: "int \<Rightarrow> u8 list" where
  "number_text i = (if i < 0 then [0x2D] else []) @ (if i = 0 then [0x30] else digits (nat \<bar>i\<bar>))"

lemma digits_0 [simp]: "digits 0 = []"
  by (simp add: digits.simps)

lemma digits_eq_Nil [simp]: "digits n = [] \<longleftrightarrow> n = 0"
  by (simp add: digits.simps [of n])

lemma number_text_length:
  assumes "- (2 ^ 31) \<le> i" "i < 2 ^ 31" shows "length (digits (nat \<bar>i\<bar>)) \<le> 10" "length (number_text i) \<le> 11"
proof -
  show "length (digits (nat \<bar>i\<bar>)) \<le> 10" using assms by (intro digits_length) auto
  then show "length (number_text i) \<le> 11" by (auto simp: number_text_def)
qed

lemma number_text_no_zero: "0 \<notin> set (number_text i)"
  using digits_range [of 0 "nat \<bar>i\<bar>"] by (auto simp: number_text_def)

lemma itoa_number_text:
  assumes "- (2 ^ 31) \<le> i" "i < 2 ^ 31" "length str = 12"
  shows "itoa str i = (11 - int (length (number_text i)), take (11 - length (number_text i)) str @ number_text i @ [0])"
proof -
  let ?str = "str[11 := 0]" and ?n = "nat \<bar>i\<bar>" and ?k = "length (digits (nat \<bar>i\<bar>))"
  have k: "?k \<le> 10" using number_text_length [OF assms(1,2)] by simp
  have neg: "(if i \<ge> 0 then - i else i) = - int ?n" by simp
  have "itoa_loop (- int ?n) (int 11) ?str = (int (11 - ?k), take (11 - ?k) ?str @ digits ?n @ drop 11 ?str)"
    using k assms(3) by (intro itoa_loop_digits) simp_all
  moreover have "drop 11 ?str = [0]" using assms(3) by (simp add: drop_update_cancel list_eq_iff_nth_eq)
  moreover have "take (11 - ?k) ?str = take (11 - ?k) str" by simp
  ultimately have loop: "itoa_loop (if i \<ge> 0 then - i else i) 11 ?str
      = (11 - int ?k, take (11 - ?k) str @ digits ?n @ [0])"
    using k unfolding neg by (simp add: of_nat_diff)
  show ?thesis
  proof (cases "i = 0")
    case True
    then have "take 11 str = take 10 str @ [str ! 10]" using assms(3) take_Suc_conv_app_nth [of 10 str] by simp
    then show ?thesis using loop True assms(3) by (simp add: itoa_def number_text_def list_update_append)
  next
    case False
    then have "?k \<noteq> 0" by simp
    moreover have "take (11 - ?k) str = take (10 - ?k) str @ [str ! (10 - ?k)]"
      using assms(3) k take_Suc_conv_app_nth [of "10 - ?k" str] by (simp add: Suc_diff_le [symmetric])
    moreover have "nat (11 - int ?k - 1) = 10 - ?k" using k by simp
    ultimately show ?thesis using loop False k assms(3)
      by (auto simp: itoa_def number_text_def Let_def list_update_append)
  qed
qed

lemma number_text_value: "text_value (number_text i) = i"
proof -
  have "take 1 (digits n) \<noteq> [0x2D]" for n
  proof
    assume "take 1 (digits n) = [0x2D]"
    then have "0x2D \<in> set (digits n)" by (cases "digits n") auto
    with digits_range show False by fastforce
  qed
  then show ?thesis
    by (auto simp: number_text_def text_value_def digits_value_digits) (simp_all add: digits_value_def)
qed

text \<open>
  C27: The text of any 32-bit number, -2147483648 included, fits into the 12 characters, ends at the
  terminator, reads back as the number, and has no leading zero.
\<close>
theorem itoa_roundtrip:
  assumes "- (2 ^ 31) \<le> i" "i < 2 ^ 31" "length str = 12"
  shows "case itoa str i of (loc, str') \<Rightarrow>
    let t = takeWhile (\<lambda>c. c \<noteq> 0) (drop (nat loc) str') in
      0 \<le> loc \<and> length str' = 12 \<and> loc + int (length t) = 11 \<and> text_value t = i
      \<and> (i \<noteq> 0 \<longrightarrow> hd t \<noteq> 0x30)"
proof -
  let ?t = "number_text i"
  have len: "length ?t \<le> 11" using number_text_length [OF assms(1,2)] by simp
  have t: "takeWhile (\<lambda>c. c \<noteq> 0) (?t @ [0]) = ?t"
    using number_text_no_zero [of i] by (subst takeWhile_append2) auto
  have "nat (11 - int (length ?t)) = 11 - length ?t" by simp
  then have d: "drop (nat (11 - int (length ?t))) (take (11 - length ?t) str @ ?t @ [0]) = ?t @ [0]"
    using assms(3) by simp
  have "i \<noteq> 0 \<Longrightarrow> hd ?t \<noteq> 0x30" using digits_no_leading_zero [of "nat \<bar>i\<bar>"] by (auto simp: number_text_def)
  then show ?thesis
    using len assms(3) unfolding itoa_number_text [OF assms] by (simp add: Let_def d t number_text_value)
qed

theorem itoa_roundtrip_witness:
  "case itoa (replicate 12 7) (- 2147483648) of (loc, str) \<Rightarrow>
     text_value (takeWhile (\<lambda>c. c \<noteq> 0) (drop (nat loc) str)) = - 2147483648"
  using itoa_roundtrip [of "- 2147483648" "replicate 12 7"] by (simp add: Let_def split: prod.splits)

section \<open>Printing\<close>

text \<open>A format as the list of its pieces, with the arguments they take.\<close>

datatype piece = Literal u8 | Escaped u8 | Number int | Text "u8 list"

fun piece_format :: "piece \<Rightarrow> u8 list" where
  "piece_format (Literal c) = [c]"
| "piece_format (Escaped c) = [0x25, c]"
| "piece_format (Number i) = [0x25, 0x69]"
| "piece_format (Text s) = [0x25, 0x73]"

fun piece_args :: "piece \<Rightarrow> arg list" where
  "piece_args (Number i) = [IntArg i]"
| "piece_args (Text s) = [StrArg s]"
| "piece_args _ = []"

fun piece_call :: "piece \<Rightarrow> call" where
  "piece_call (Literal c) = Putchar c"
| "piece_call (Escaped c) = Putchar c"
| "piece_call (Number i) = Print (number_text i)"
| "piece_call (Text s) = Print s"

fun piece_ok :: "piece \<Rightarrow> bool" where
  "piece_ok (Literal c) \<longleftrightarrow> c \<noteq> 0 \<and> c \<noteq> 0x25"
| "piece_ok (Escaped c) \<longleftrightarrow> c \<noteq> 0 \<and> c \<noteq> 0x69 \<and> c \<noteq> 0x73"
| "piece_ok (Number i) \<longleftrightarrow> - (2 ^ 31) \<le> i \<and> i < 2 ^ 31"
| "piece_ok (Text s) \<longleftrightarrow> True"

lemma printf_loop_literal: "p \<noteq> 0x25 \<Longrightarrow> printf_loop (p # qs) args str = map_option ((#) (Putchar p)) (printf_loop qs args str)"
  by (cases qs) simp_all

text \<open>
  C30: \<open>printf\<close> makes exactly one call for each piece of its format, in order: a character, an escaped
  character, a number in decimal, a string; the arguments are used up in step.
\<close>
theorem printf_pieces:
  assumes "list_all piece_ok ps" "length str = 12"
  shows "printf (concat (map piece_format ps)) (concat (map piece_args ps)) str = Some (map piece_call ps)"
  unfolding printf_def using assms
proof (induction ps arbitrary: str)
  case (Cons p ps)
  show ?case
  proof (cases p)
    case (Number i)
    let ?str = "take (11 - length (number_text i)) str @ number_text i @ [0]"
    have i: "- (2 ^ 31) \<le> i" "i < 2 ^ 31" using Cons.prems Number by simp_all
    have len: "length (number_text i) \<le> 11" using number_text_length [OF i] by simp
    then have "length ?str = 12" using Cons.prems by simp
    moreover have "takeWhile (\<lambda>c. c \<noteq> 0) (number_text i @ [0]) = number_text i"
      using number_text_no_zero [of i] by (subst takeWhile_append2) auto
    moreover have "nat (11 - int (length (number_text i))) = 11 - length (number_text i)" by simp
    then have "drop (nat (11 - int (length (number_text i)))) ?str = number_text i @ [0]" using Cons.prems by simp
    ultimately show ?thesis
      using Cons Number itoa_number_text [OF i, of str] by simp
  qed (use Cons in \<open>simp_all add: printf_loop_literal\<close>)
qed simp

theorem printf_pieces_witness:
  "printf [0x78, 0x3D, 0x25, 0x69, 0x25, 0x25, 0x25, 0x73] [IntArg (- 8763), StrArg [0x61]] (replicate 12 0)
     = Some [Putchar 0x78, Putchar 0x3D, Print (number_text (- 8763)), Putchar 0x25, Print [0x61]]"
  using printf_pieces [of "[Literal 0x78, Literal 0x3D, Number (- 8763), Escaped 0x25, Text [0x61]]" "replicate 12 0"] by simp

section \<open>Reading a line\<close>

text \<open>
  What the caller sees: keys are appended to the line, a backspace takes one away, return ends it, and
  so does a full line. The result is the line, the characters echoed and the keys that are left.
\<close>

fun edit_line :: "nat \<Rightarrow> u8 list \<Rightarrow> u8 list \<Rightarrow> (u8 list \<times> u8 list \<times> u8 list) option" where
  "edit_line cap line keys =
     (if length line \<ge> cap then Some (line, [], keys)
      else case keys of
        [] \<Rightarrow> None
      | key # keys \<Rightarrow>
          if key = 0 then edit_line cap line keys
          else if key = 13 then Some (line, [], keys)
          else map_option (\<lambda>(l, echo, keys). (l, key # echo, keys))
            (edit_line cap (if key = 8 \<and> line \<noteq> [] then butlast line else line @ [key]) keys))"

declare edit_line.simps [simp del]

definition line_view :: "bool \<Rightarrow> u8 list \<times> u8 list \<times> u8 list \<Rightarrow> u8 list \<times> call list \<times> u8 list" where
  "line_view b = (\<lambda>(line, echo, keys). (line, if b then map Putchar echo else [], keys))"

definition buffer_view :: "u8 list \<times> call list \<times> u8 list \<Rightarrow> u8 list \<times> call list \<times> u8 list" where
  "buffer_view = (\<lambda>(out, calls, keys). (takeWhile (\<lambda>c. c \<noteq> 0) out, calls, keys))"

lemma edit_line_skip: "getkeyblock keys = None \<Longrightarrow> length line < cap \<Longrightarrow> edit_line cap line keys = None"
  by (induction keys) (simp_all add: edit_line.simps split: if_splits)

lemma edit_line_key:
  "getkeyblock keys = Some (key, keys') \<Longrightarrow> length line < cap \<Longrightarrow>
   key \<noteq> 0 \<and> edit_line cap line keys = edit_line cap line (key # keys')"
proof (induction keys)
  case (Cons k ks)
  then show ?case by (cases "k = 0") (simp_all add: edit_line.simps [of cap line "0 # ks"])
qed simp

lemma terminated_line:
  assumes "take i out = line" "0 \<notin> set line" "i < length out"
  shows "takeWhile (\<lambda>c. c \<noteq> 0) (out[i := 0]) = line"
proof -
  have "out[i := 0] = line @ 0 # drop (Suc i) out" using assms by (simp add: upd_conv_take_nth_drop)
  then show ?thesis using assms(2) by (auto intro!: takeWhile_append2 [THEN trans])
qed

lemma readline_loop_edits:
  "take (nat i) out = line \<Longrightarrow> 0 \<notin> set line \<Longrightarrow> length out = nat mx \<Longrightarrow> 0 \<le> i \<Longrightarrow> i < mx \<Longrightarrow>
   map_option buffer_view (readline_loop mx b keys i out)
     = map_option (line_view b) (edit_line (nat mx - 1) line keys)"
proof (induction mx b keys i out arbitrary: line rule: readline_loop.induct)
  case (1 mx b keys i out)
  have len: "length line = nat i" using 1(3,5,6,7) by auto
  have tw: "takeWhile (\<lambda>c. c \<noteq> 0) (out[nat i := 0]) = line" using terminated_line [OF 1(3,4)] 1(5-7) by simp
  show ?case
  proof (cases "i < mx - 1")
    case False
    then have "length line \<ge> nat mx - 1" using len 1(6,7) by simp
    then show ?thesis using False tw
      by (simp add: readline_loop.simps [of mx b keys] edit_line.simps [of _ line] buffer_view_def line_view_def)
  next
    case room: True
    then have cap: "length line < nat mx - 1" using len 1(6) by simp
    show ?thesis
    proof (cases "getkeyblock keys")
      case None
      then show ?thesis using room edit_line_skip [OF None cap] by (simp add: readline_loop.simps [of mx b keys])
    next
      case (Some r)
      obtain key ks where r: "r = (key, ks)" by (cases r)
      note key = edit_line_key [OF Some [unfolded r] cap]
      show ?thesis
      proof (cases "key = 13")
        case True
        then show ?thesis using room cap Some r tw key
          by (simp add: readline_loop.simps [of mx b keys] edit_line.simps [of _ line "13 # ks"] buffer_view_def line_view_def)
      next
        case other: False
        let ?line = "if key = 8 \<and> line \<noteq> [] then butlast line else line @ [key]"
        let ?r = "if key = 8 \<and> i \<ge> 1 then readline_loop mx b ks (i - 2 + 1) (out[nat (i - 1) := 0])
            else readline_loop mx b ks (i + 1) (out[nat i := key])"
        have step: "map_option buffer_view ?r = map_option (line_view b) (edit_line (nat mx - 1) ?line ks)"
        proof (cases "key = 8 \<and> i \<ge> 1")
          case True
          then have "line \<noteq> []" "nat (i - 2 + 1) = nat i - 1" "nat (i - 1) = nat i - 1" using len by auto
          moreover have "take (nat i - 1) (out[nat i - 1 := 0]) = butlast line"
            using 1(3,5,7) by (simp add: butlast_conv_take len 1(3) [symmetric] min_def)
          moreover have "0 \<notin> set (butlast line)" using 1(4) in_set_butlastD by fastforce
          ultimately show ?thesis
            using True 1(1) [OF room Some r [symmetric] other True, of "butlast line"] 1(5-7) by simp
        next
          case False
          then have "line = [] \<or> key \<noteq> 8" using len 1(6) by auto
          moreover have "nat (i + 1) = Suc (nat i)" using 1(6) by simp
          moreover have "take (Suc (nat i)) (out[nat i := key]) = line @ [key]"
            using 1(3,5,6,7) by (simp add: take_Suc_conv_app_nth)
          ultimately show ?thesis
            using False 1(2) [OF room Some r [symmetric] other False, of "line @ [key]"] 1(4-7) key room
            by (auto split del: if_split)
        qed
        have "readline_loop mx b keys i out
            = map_option (\<lambda>(out, calls, keys). (out, if b then Putchar key # calls else calls, keys)) ?r"
          using room Some r other by (simp add: readline_loop.simps [of mx b keys])
        moreover have "edit_line (nat mx - 1) line keys = map_option (\<lambda>(l, echo, keys). (l, key # echo, keys)) (edit_line (nat mx - 1) ?line ks)"
          using key cap other by (simp add: edit_line.simps [of _ line "key # ks"])
        ultimately show ?thesis
          using step by (cases ?r; cases "edit_line (nat mx - 1) ?line ks")
            (auto simp: buffer_view_def line_view_def split: if_splits prod.splits)
      qed
    qed
  qed
qed

text \<open>
  C11: \<open>terminal_readline\<close> refines the line editor: whatever the buffer held, it waits exactly when the editor
  does, and otherwise the zero-terminated contents of the buffer, the characters echoed and the keys left
  are those of the editor with room for one character less than the buffer. The keys 0 are skipped; a
  backspace on an empty line becomes a character of the line.
\<close>
theorem readline_refines_editor:
  assumes "1 \<le> mx" "length out = nat mx"
  shows "map_option buffer_view (terminal_readline out mx b keys) = map_option (line_view b) (edit_line (nat mx - 1) [] keys)"
  unfolding terminal_readline_def using assms by (intro readline_loop_edits) simp_all

theorem readline_refines_editor_witness:
  "map_option buffer_view (terminal_readline (replicate 4 9) 4 True [0, 0x61, 0x62, 8, 0x63, 13, 0x64])
     = Some ([0x61, 0x63], map Putchar [0x61, 0x62, 8, 0x63], [0x64])"
  using readline_refines_editor [of 4 "replicate 4 9" True "[0, 0x61, 0x62, 8, 0x63, 13, 0x64]"]
  by (simp add: edit_line.simps line_view_def)

end
