(* ===== verification/Commands.thy ===== *)
theory Commands
  imports Strings
begin

unbundle bit_operations_syntax

text \<open>
  The C library of the user programs, continued: the words of a string (\<^verbatim>\<open>strtok\<close> of
  \<^verbatim>\<open>programs/stdlib/src/string.c\<close>) and of a command (\<^verbatim>\<open>programs/stdlib/src/multitaskos.c\<close>), in the memory of
  the program. The addresses that \<open>multitaskos_malloc\<close> gives one after the other are a parameter, and so are
  those of the local arrays.
\<close>

section \<open>Words\<close>

text \<open>The inner loop over the delimiters: whether one of them is \<open>c\<close>.\<close>

definition is_delimiter :: "mem \<Rightarrow> addr \<Rightarrow> int \<Rightarrow> u8 \<Rightarrow> bool" where
  "is_delimiter m delimiters len c \<longleftrightarrow> list_ex (\<lambda>i. c = m (delimiters + of_nat i)) [0..<nat len]"

partial_function (option) skip_delimiters :: "mem \<Rightarrow> addr \<Rightarrow> int \<Rightarrow> addr \<Rightarrow> addr option" where
  "skip_delimiters m delimiters len p_start =
     (if is_delimiter m delimiters len (m p_start)
      then skip_delimiters m delimiters len (p_start + 1) else Some p_start)"

partial_function (option) end_of_word :: "mem \<Rightarrow> addr \<Rightarrow> int \<Rightarrow> addr \<Rightarrow> (mem \<times> addr) option" where
  "end_of_word m delimiters len sp =
     (if m sp \<noteq> 0 then
        (if is_delimiter m delimiters len (m sp) then Some (m(sp := 0), sp + 1)
         else end_of_word m delimiters len (sp + 1))
      else Some (m, sp))"

text \<open>
  \<open>sp\<close> is the global of that name: where the last call stopped. The result is the word, the memory
  and the new \<open>sp\<close>. A string that is passed while \<open>sp\<close> is set is ignored.
\<close>

definition strtok :: "mem \<Rightarrow> addr \<Rightarrow> addr \<Rightarrow> addr \<Rightarrow> (addr \<times> mem \<times> addr) option" where
  "strtok m sp str delimiters =
     Option.bind (strlen m delimiters) (\<lambda>len.
       if str = 0 \<and> sp = 0 then Some (0, m, sp)
       else
         let sp = (if str \<noteq> 0 \<and> sp = 0 then str else sp) in
         Option.bind (skip_delimiters m delimiters len sp) (\<lambda>p_start.
           let sp = p_start in
           if m sp = 0 then Some (0, m, 0)
           else map_option (\<lambda>(m, sp). (p_start, m, sp)) (end_of_word m delimiters len sp)))"

section \<open>Commands\<close>

text \<open>The next result of \<open>multitaskos_malloc\<close>: null when there is none.\<close>

definition next_block :: "addr list \<Rightarrow> addr \<times> addr list" where
  "next_block blocks = (case blocks of [] \<Rightarrow> (0, []) | b # bs \<Rightarrow> (b, bs))"

definition fill_argument :: "mem \<Rightarrow> addr \<Rightarrow> addr \<Rightarrow> mem" where
  "fill_argument m a token = write32 (strncpy m a token 512) (a + 512) 0"

partial_function (option) parse_loop ::
    "addr \<Rightarrow> addr \<Rightarrow> addr \<Rightarrow> mem \<Rightarrow> addr \<Rightarrow> addr list \<Rightarrow> (mem \<times> addr \<times> addr list) option" where
  "parse_loop blank current token m sp blocks =
     (if token = 0 then Some (m, sp, blocks)
      else case next_block blocks of (new_command, blocks) \<Rightarrow>
        (if new_command = 0 then Some (m, sp, blocks)
         else let m = fill_argument m new_command token;
                  m = write32 m (current + 512) new_command
              in Option.bind (strtok m sp 0 blank) (\<lambda>(token, m, sp).
                   parse_loop blank new_command token m sp blocks)))"

text \<open>
  \<open>blank\<close> is the address of the string with the blank, \<open>scommand\<close> the local array of 1025 bytes.
\<close>

definition parse_command ::
    "addr \<Rightarrow> addr \<Rightarrow> addr \<Rightarrow> int \<Rightarrow> mem \<Rightarrow> addr \<Rightarrow> addr list \<Rightarrow> (addr \<times> mem \<times> addr \<times> addr list) option" where
  "parse_command blank scommand command mx m sp blocks =
     (if mx \<ge> 1025 then Some (0, m, sp, blocks)
      else
        let m = strncpy m scommand command 1025 in
        Option.bind (strtok m sp scommand blank) (\<lambda>(token, m, sp).
          if token = 0 then Some (0, m, sp, blocks)
          else
            let (root_command, blocks) = next_block blocks in
            if root_command = 0 then Some (0, m, sp, blocks)
            else
              let m = fill_argument m root_command token in
              Option.bind (strtok m sp 0 blank) (\<lambda>(token, m, sp).
                map_option (\<lambda>(m, sp, blocks). (root_command, m, sp, blocks))
                  (parse_loop blank root_command token m sp blocks))))"

text \<open>
  \<open>buf\<close> is the local array of 1024 bytes. The result is -1, or the list that the system call
  \<open>multitaskos_system\<close> gets.
\<close>

definition system_run ::
    "addr \<Rightarrow> addr \<Rightarrow> addr \<Rightarrow> addr \<Rightarrow> mem \<Rightarrow> addr \<Rightarrow> addr list \<Rightarrow> ((int + addr) \<times> mem \<times> addr) option" where
  "system_run blank scommand buf command m sp blocks =
     (let m = strncpy m buf command 1024 in
      map_option (\<lambda>(root, m, sp, blocks). (if root = 0 then Inl (- 1) else Inr root, m, sp))
        (parse_command blank scommand buf 1024 m sp blocks))"

section \<open>The words of a string\<close>

lemma is_delimiter_c_string:
  assumes "c_string m d ds" shows "is_delimiter m d (int (length ds)) c \<longleftrightarrow> c \<in> set ds"
  using assms by (auto simp: is_delimiter_def c_string_iff_nth list_ex_iff in_set_conv_nth)

lemma skip_delimiters_run:
  assumes "c_string m d ds"
  shows "c_string m p (xs @ ys) \<Longrightarrow> set xs \<subseteq> set ds \<Longrightarrow> ys = [] \<or> hd ys \<notin> set ds \<Longrightarrow>
    skip_delimiters m d (int (length ds)) p = Some (p + of_nat (length xs))"
proof (induction xs arbitrary: p)
  case Nil
  have "0 \<notin> set ds" using assms by (simp add: c_string_iff_nth)
  then have "m p \<notin> set ds" using Nil by (cases ys) auto
  then show ?case by (simp add: skip_delimiters.simps [of m d _ p] is_delimiter_c_string [OF assms])
next
  case (Cons x xs)
  then show ?case
    by (simp add: skip_delimiters.simps [of m d _ p] is_delimiter_c_string [OF assms] add.assoc)
qed

lemma end_of_word_run:
  assumes "c_string m d ds"
  shows "c_string m p (xs @ ys) \<Longrightarrow> set xs \<inter> set ds = {} \<Longrightarrow> ys = [] \<or> hd ys \<in> set ds \<Longrightarrow>
    end_of_word m d (int (length ds)) p
      = Some (if ys = [] then (m, p + of_nat (length xs))
          else (m(p + of_nat (length xs) := 0), p + of_nat (length xs) + 1))"
proof (induction xs arbitrary: p)
  case Nil
  then show ?case by (cases ys) (auto simp: end_of_word.simps [of m d _ p] is_delimiter_c_string [OF assms])
next
  case (Cons x xs)
  then have "m p \<noteq> 0" "m p \<notin> set ds" and r: "p + 1 + of_nat (length xs) = p + of_nat (length (x # xs))"
    by (auto simp: ac_simps)
  then have "end_of_word m d (int (length ds)) p = end_of_word m d (int (length ds)) (p + 1)"
    by (simp add: end_of_word.simps [of m d _ p] is_delimiter_c_string [OF assms])
  also have "\<dots> = Some (if ys = [] then (m, p + 1 + of_nat (length xs))
      else (m(p + 1 + of_nat (length xs) := 0), p + 1 + of_nat (length xs) + 1))"
    using Cons.prems by (intro Cons.IH) auto
  finally show ?case unfolding r .
qed

lemma offset_inj:
  assumes "a < 2 ^ 32" "b < 2 ^ 32" "p + of_nat a = p + (of_nat b :: u32)" shows "a = b"
proof -
  have "unat (of_nat a :: u32) = unat (of_nat b :: u32)" using assms(3) by simp
  then show ?thesis using assms(1,2) by (simp only: unat_of_nat len_num1 len_bit0 len_bit1 mult_2 mod_less) simp
qed

lemma c_string_append:
  "c_string m p (xs @ ys) \<longleftrightarrow> 0 \<notin> set xs \<and> (\<forall>i<length xs. m (p + of_nat i) = xs ! i) \<and> c_string m (p + of_nat (length xs)) ys"
proof (induction xs arbitrary: p)
  case (Cons x xs)
  then show ?case by (auto simp: All_less_Suc2 add.assoc add.commute [of 1] nth_Cons')
qed simp

lemma c_string_cut:
  assumes "c_string m p (xs @ y # ys)"
  shows "c_string (m(p + of_nat (length xs) := 0)) p xs"
    and "c_string (m(p + of_nat (length xs) := 0)) (p + of_nat (length xs) + 1) ys"
proof -
  have len: "length (xs @ y # ys) < 2 ^ 32" using assms by (rule c_string_length)
  have "p + of_nat i \<noteq> p + of_nat (length xs)" if "i < length xs" for i
    using that len offset_inj [of i "length xs" p] by auto
  then show "c_string (m(p + of_nat (length xs) := 0)) p xs"
    using assms by (auto simp: c_string_iff_nth nth_append)
  have c: "c_string m (p + of_nat (length xs) + 1) ys" using assms by (simp add: c_string_append)
  have "p + of_nat (length xs) \<noteq> p + of_nat (length xs) + 1 + of_nat i" if "i \<le> length ys" for i
  proof
    assume "p + of_nat (length xs) = p + of_nat (length xs) + 1 + of_nat i"
    then have "p + of_nat (length xs) = p + of_nat (length xs + Suc i)" by (simp add: ac_simps)
    with offset_inj [of "length xs" "length xs + Suc i" p] len that show False by simp
  qed
  with c show "c_string (m(p + of_nat (length xs) := 0)) (p + of_nat (length xs) + 1) ys"
    by (simp add: c_string_upd)
qed

text \<open>One call on a string of blanks, a word and a rest.\<close>

lemma strtok_word:
  assumes d: "c_string m d ds" and s: "c_string m p (skip @ tok @ rest)" and p: "p \<noteq> 0" "p + of_nat (length skip) \<noteq> 0"
    and skip: "set skip \<subseteq> set ds" and tok: "tok \<noteq> []" "set tok \<inter> set ds = {}" and rest: "rest = [] \<or> hd rest \<in> set ds"
    and arg: "str = p \<and> sp = 0 \<or> str = 0 \<and> sp = p"
  shows "strtok m sp str d = Some (let q = p + of_nat (length skip) in
      (q, if rest = [] then (m, q + of_nat (length tok)) else (m(q + of_nat (length tok) := 0), q + of_nat (length tok) + 1)))"
proof -
  let ?q = "p + of_nat (length skip)"
  have q: "c_string m ?q (tok @ rest)" using s by (simp add: c_string_append)
  then have "m ?q \<noteq> 0" using tok(1) by (cases tok) auto
  moreover have "hd (tok @ rest) \<notin> set ds" using tok by (cases tok) auto
  then have "skip_delimiters m d (int (length ds)) p = Some ?q"
    using skip s by (intro skip_delimiters_run [OF d]) auto
  moreover have "end_of_word m d (int (length ds)) ?q
      = Some (if rest = [] then (m, ?q + of_nat (length tok)) else (m(?q + of_nat (length tok) := 0), ?q + of_nat (length tok) + 1))"
    using q tok rest by (intro end_of_word_run [OF d])
  moreover have "(if str \<noteq> 0 \<and> sp = 0 then str else sp) = p" "\<not> (str = 0 \<and> sp = 0)" using arg p by auto
  ultimately show ?thesis using strlen_c_string [OF d] by (auto simp: strtok_def Let_def)
qed

lemma strtok_none:
  assumes d: "c_string m d ds" and s: "c_string m p skip" and skip: "set skip \<subseteq> set ds"
    and arg: "str = p \<and> sp = 0 \<or> str = 0 \<and> sp = p"
  shows "strtok m sp str d = Some (0, m, 0)"
proof (cases "p = 0")
  case True
  then show ?thesis using arg strlen_c_string [OF d] by (auto simp: strtok_def)
next
  case False
  have "skip_delimiters m d (int (length ds)) p = Some (p + of_nat (length skip))"
    using skip s skip_delimiters_run [OF d, of p skip "[]"] by simp
  moreover have "m (p + of_nat (length skip)) = 0" using s by (simp add: c_string_iff_nth)
  moreover have "(if str \<noteq> 0 \<and> sp = 0 then str else sp) = p" "\<not> (str = 0 \<and> sp = 0)" using arg False by auto
  ultimately show ?thesis using strlen_c_string [OF d] by (auto simp: strtok_def Let_def)
qed

section \<open>Areas of memory\<close>

text \<open>The \<open>n\<close> bytes from \<open>p\<close> on.\<close>

definition area :: "addr \<Rightarrow> nat \<Rightarrow> addr set" where
  "area p n = {a. unat (a - p) < n}"

lemma area_mono: "n \<le> k \<Longrightarrow> area p n \<subseteq> area p k"
  by (auto simp: area_def)

lemma unat_add_le: "unat (a + b) \<le> unat a + unat (b :: u32)"
  by (simp add: unat_word_ariths)

lemma unat_offset:
  assumes "unat p + k < 2 ^ 32" shows "unat (p + of_nat k :: u32) = unat p + k"
proof -
  have "unat (of_nat k :: u32) = k" using assms by (simp add: unat_of_nat)
  then show ?thesis using assms by (subst unat_add_no_wrap) simp_all
qed

lemma area_offset: "area (p + of_nat k) n \<subseteq> area p (k + n)"
proof
  fix a assume a: "a \<in> area (p + of_nat k) n"
  have "a - p = of_nat k + (a - (p + of_nat k))" by simp
  then have "unat (a - p) \<le> unat (of_nat k :: addr) + unat (a - (p + of_nat k))"
    by (metis unat_add_le)
  also have "\<dots> < k + n" using a unat_of_nat_le [of k, where 'a = 32] by (intro add_le_less_mono) (simp_all add: area_def)
  finally show "a \<in> area p (k + n)" by (simp add: area_def)
qed

lemma area_member: "i < n \<Longrightarrow> p + of_nat i \<in> area p n"
  using unat_of_nat_le [of i, where 'a = 32] by (simp add: area_def)

lemma apart_areas: "area p n \<inter> area q k = {} \<Longrightarrow> apart p n q k"
  unfolding apart_def using area_member [of _ n p] area_member [of _ k q] by (metis IntI empty_iff)

lemma c_string_cong:
  assumes "c_string m p xs" "\<And>a. a \<in> area p (Suc (length xs)) \<Longrightarrow> m' a = m a" shows "c_string m' p xs"
  using assms area_member [of _ "Suc (length xs)" p] by (simp add: c_string_iff_nth)

lemma read32_cong: "(\<And>a. a \<in> area p 4 \<Longrightarrow> m' a = m a) \<Longrightarrow> read32 m' p = read32 m p"
  using area_member [of 0 4 p] area_member [of 1 4 p] area_member [of 2 4 p] area_member [of 3 4 p]
  by (simp add: read32_def)

lemma write32_area: "a \<notin> area p 4 \<Longrightarrow> write32 m p v a = m a"
  by (intro write32_other) (simp add: area_def word_le_nat_alt)

lemma fill_argument_area:
  assumes "a \<notin> area p 516" shows "fill_argument m p t a = m a"
proof -
  have "a \<notin> area (p + 512) 4" using assms area_offset [of p 512 4] by auto
  moreover have "512 \<le> unat (a - p)" using assms by (simp add: area_def)
  then have "(512 :: int) \<le> int (unat (a - p))" by linarith
  then have "strncpy m p t 512 a = m a" unfolding strncpy_def by (intro strncpy_loop_frame) simp_all
  ultimately show ?thesis by (simp add: fill_argument_def write32_area)
qed

lemma link_apart:
  assumes "a \<in> area b 512" shows "a \<notin> area (b + 512) 4"
proof
  assume "a \<in> area (b + 512) 4"
  then have "unat (a - (b + 512)) < 4" by (simp add: area_def)
  then have "unat ((a - (b + 512)) + 512) = unat (a - (b + 512)) + unat (512 :: u32)"
    by (intro unat_add_no_wrap) simp
  with assms show False by (simp add: area_def)
qed

lemma fill_argument_string:
  assumes "c_string m t w" "area b 516 \<inter> area t (Suc (length w)) = {}"
  shows "c_string (fill_argument m b t) b (take 511 w)" "read32 (fill_argument m b t) (b + 512) = 0"
proof -
  let ?m = "strncpy m b t 512"
  have le: "Suc (length (take 511 w)) \<le> 512" by simp
  have "area b (Suc (length (take 511 w))) \<subseteq> area b 516" by (rule area_mono) simp
  then have "apart t (Suc (length w)) b (Suc (length (take 511 w)))" using assms(2) by (intro apart_areas) blast
  then have "?m = write_bytes m b (take 511 w @ [0])" using strncpy_c_string [OF assms(1), of b 512] by simp
  moreover have "0 \<notin> set (take 511 w)" using assms(1) by (auto simp: c_string_iff_nth dest: in_set_takeD)
  ultimately have str: "c_string ?m b (take 511 w)" by (simp add: c_string_write_bytes)
  show "c_string (fill_argument m b t) b (take 511 w)"
    unfolding fill_argument_def
    by (rule c_string_cong [OF str]) (use area_mono [OF le, of b] link_apart write32_area in blast)
qed (simp add: fill_argument_def)

section \<open>One word at a time\<close>

function split_words :: "u8 list \<Rightarrow> u8 list \<Rightarrow> u8 list list" where
  "split_words ds xs =
     (let ys = dropWhile (\<lambda>c. c \<in> set ds) xs
      in if ys = [] then []
         else takeWhile (\<lambda>c. c \<notin> set ds) ys # split_words ds (tl (dropWhile (\<lambda>c. c \<notin> set ds) ys)))"
  by pat_completeness auto
termination
proof (relation "measure (\<lambda>(ds, xs). length xs)")
  fix ds xs ys :: "u8 list"
  assume ys: "ys = dropWhile (\<lambda>c. c \<in> set ds) xs" "ys \<noteq> []"
  have "length (tl (dropWhile (\<lambda>c. c \<notin> set ds) ys)) < length ys"
    using ys(2) length_dropWhile_le [of "\<lambda>c. c \<notin> set ds" ys] by (cases ys) (auto simp: less_Suc_eq_le)
  then show "((ds, tl (dropWhile (\<lambda>c. c \<notin> set ds) ys)), (ds, xs)) \<in> measure (\<lambda>(ds, xs). length xs)"
    using length_dropWhile_le [of "\<lambda>c. c \<in> set ds" xs] ys(1) by simp
qed simp

declare split_words.simps [simp del]

lemma c_string_area: "c_string m p (xs @ ys) \<Longrightarrow> c_string m (p + of_nat (length xs)) ys"
  by (simp add: c_string_append)

text \<open>What one call of \<open>strtok\<close> leaves: the word, and the rest of the string for the next call.\<close>

lemma strtok_next_word:
  assumes d: "c_string m d ds" and s: "c_string m sp s" and sp: "sp \<noteq> 0" "unat sp + length s < 2 ^ 32"
    and ws: "split_words ds s = w # ws"
  obtains t m' sp' s' where "strtok m sp 0 d = Some (t, m', sp')" "t \<noteq> 0" "c_string m' t w"
    "area t (Suc (length w)) \<subseteq> area sp (Suc (length s))" "sp' \<noteq> 0" "c_string m' sp' s'" "split_words ds s' = ws"
    "unat sp' + length s' < 2 ^ 32" "area sp' (Suc (length s')) \<subseteq> area sp (Suc (length s))"
    "\<And>a. a \<notin> area sp (Suc (length s)) \<Longrightarrow> m' a = m a"
proof -
  obtain skip ys rest where ys: "s = skip @ ys" "set skip \<subseteq> set ds" "ys \<noteq> []" "hd ys \<notin> set ds"
    and w: "w = takeWhile (\<lambda>c. c \<notin> set ds) ys" and r: "rest = dropWhile (\<lambda>c. c \<notin> set ds) ys"
    and ws': "ws = split_words ds (tl rest)"
  proof
    let ?ys = "dropWhile (\<lambda>c. c \<in> set ds) s"
    show "s = takeWhile (\<lambda>c. c \<in> set ds) s @ ?ys" by simp
    show "set (takeWhile (\<lambda>c. c \<in> set ds) s) \<subseteq> set ds" by (auto dest: set_takeWhileD)
    show "?ys \<noteq> []" and "w = takeWhile (\<lambda>c. c \<notin> set ds) ?ys"
      and "ws = split_words ds (tl (dropWhile (\<lambda>c. c \<notin> set ds) ?ys))"
      using ws by (auto simp: split_words.simps [of ds s] Let_def split: if_splits)
    then show "hd ?ys \<notin> set ds" using hd_dropWhile by blast
  qed (rule refl)
  have w0: "w \<noteq> []" "set w \<inter> set ds = {}"
    using ys(3,4) unfolding w by (auto simp: takeWhile_eq_Nil_iff dest: set_takeWhileD)
  have rest: "rest = [] \<or> hd rest \<in> set ds" using hd_dropWhile [of "\<lambda>c. c \<notin> set ds" ys] r by auto
  have split: "s = skip @ w @ rest" unfolding ys(1) w r by simp
  note len = arg_cong [OF split, of length, simplified]
  have off: "unat (sp + of_nat k) = unat sp + k" "sp + of_nat k \<noteq> 0" if "k \<le> length s" for k
  proof -
    show u: "unat (sp + of_nat k) = unat sp + k" using that sp(2) by (intro unat_offset) simp
    show "sp + of_nat k \<noteq> 0"
    proof
      assume "sp + of_nat k = 0"
      with u have "unat sp = 0" by simp
      with sp(1) show False by (simp add: unat_eq_zero)
    qed
  qed
  let ?q = "sp + of_nat (length skip)"
  have q: "?q \<noteq> 0" using off(2) [of "length skip"] len by simp
  have s': "c_string m sp (skip @ w @ rest)" using s split by simp
  note tok = strtok_word [OF d s' sp(1) q ys(2) w0 rest, of 0 sp]
  have qw: "?q + of_nat (length w) = sp + of_nat (length skip + length w)" by simp
  have cq: "c_string m ?q (w @ rest)" using s' by (rule c_string_area)
  have sub: "area (sp + of_nat k) (Suc n) \<subseteq> area sp (Suc (length s))" if "k + n \<le> length s" for k n
    using area_offset [of sp k "Suc n"] area_mono [of "k + Suc n" "Suc (length s)" sp] that by auto
  have aw: "area ?q (Suc (length w)) \<subseteq> area sp (Suc (length s))" using len by (intro sub) simp
  show ?thesis
  proof (cases "rest = []")
    case True
    show ?thesis
    proof (rule that [where s' = "[]"])
      show "strtok m sp 0 d = Some (?q, m, ?q + of_nat (length w))" using tok True by (simp add: Let_def)
      show "?q + of_nat (length w) \<noteq> 0" unfolding qw using len by (intro off) simp
      show "unat (?q + of_nat (length w)) + length ([] :: u8 list) < 2 ^ 32"
        unfolding qw using off(1) [of "length skip + length w"] len sp by simp
      show "c_string m ?q w" using cq True by simp
      then show "c_string m (?q + of_nat (length w)) []" by (simp add: c_string_iff_nth)
      show "area (?q + of_nat (length w)) (Suc (length ([] :: u8 list))) \<subseteq> area sp (Suc (length s))"
        unfolding qw using len by (intro sub) simp
    qed (use q aw ws' True in simp_all)
  next
    case False
    then obtain y ys' where y: "rest = y # ys'" by (cases rest) auto
    let ?m = "m(?q + of_nat (length w) := 0)" and ?sp = "?q + of_nat (length w) + 1"
    have sp': "?sp = sp + of_nat (length skip + length w + 1)" by simp
    have ls: "length s = length skip + length w + 1 + length ys'" using len y by simp
    have cut: "c_string ?m ?q w" "c_string ?m ?sp ys'" using c_string_cut [of m ?q w y ys'] cq y by simp_all
    have "strtok m sp 0 d = Some (?q, ?m, ?sp)" using tok False by (simp add: Let_def)
    then show ?thesis
    proof (rule that [OF _ q cut(1) aw])
      show "?sp \<noteq> 0" unfolding sp' by (rule off) (simp add: ls)
      show "c_string ?m ?sp ys'" by (rule cut)
      show "unat ?sp + length ys' < 2 ^ 32"
        unfolding sp' using off(1) [of "length skip + length w + 1"] ls sp by simp
      show "area ?sp (Suc (length ys')) \<subseteq> area sp (Suc (length s))"
        unfolding sp' using ls by (intro sub) simp
      show "?m a = m a" if "a \<notin> area sp (Suc (length s))" for a
      proof -
        have "?q + of_nat (length w) \<in> area sp (Suc (length s))"
          unfolding qw by (rule area_member) (simp add: ls)
        with that show ?thesis by auto
      qed
    qed (use ws' y in simp)
  qed
qed

lemma strtok_no_word:
  assumes "c_string m d ds" "c_string m sp s" "split_words ds s = []" shows "strtok m sp 0 d = Some (0, m, 0)"
proof -
  have "dropWhile (\<lambda>c. c \<in> set ds) s = []"
    using assms(3) by (simp add: split_words.simps [of ds s] Let_def split: if_splits)
  then have "set s \<subseteq> set ds" by (auto simp: dropWhile_eq_Nil_conv)
  then show ?thesis using strtok_none [OF assms(1,2), of 0 sp] by simp
qed

section \<open>A command as a list of arguments\<close>

text \<open>The linked list at \<open>a\<close> holds the words.\<close>

fun holds_words :: "mem \<Rightarrow> addr \<Rightarrow> u8 list list \<Rightarrow> bool" where
  "holds_words m a [] \<longleftrightarrow> a = 0"
| "holds_words m a (w # ws) \<longleftrightarrow> a \<noteq> 0 \<and> c_string m a w \<and> holds_words m (read32 m (a + 512)) ws"

text \<open>Blocks of an argument each, apart from one another and from the area \<open>X\<close>.\<close>

fun separate :: "addr set \<Rightarrow> addr list \<Rightarrow> bool" where
  "separate X [] \<longleftrightarrow> True"
| "separate X (b # bs) \<longleftrightarrow> b \<noteq> 0 \<and> area b 516 \<inter> X = {} \<and> separate (X \<union> area b 516) bs"

lemma separateD: "separate X bs \<Longrightarrow> b \<in> set bs \<Longrightarrow> area b 516 \<inter> X = {}"
  by (induction bs arbitrary: X) auto

lemma separate_mono: "separate X bs \<Longrightarrow> Y \<subseteq> X \<Longrightarrow> separate Y bs"
proof (induction bs arbitrary: X Y)
  case (Cons b bs)
  then show ?case using Cons.IH [of "X \<union> area b 516" "Y \<union> area b 516"] by auto
qed simp

text \<open>The state between two words: a word in the text area \<open>T\<close>, and the string that is left.\<close>

definition pending :: "addr set \<Rightarrow> mem \<Rightarrow> addr \<Rightarrow> addr \<Rightarrow> u8 list list \<Rightarrow> bool" where
  "pending T m token sp ws \<longleftrightarrow>
     (case ws of
        [] \<Rightarrow> token = 0 \<and> sp = 0
      | w # ws \<Rightarrow> token \<noteq> 0 \<and> c_string m token w \<and> area token (Suc (length w)) \<subseteq> T \<and> sp \<noteq> 0
          \<and> (\<exists>s. c_string m sp s \<and> split_words [0x20] s = ws \<and> unat sp + length s < 2 ^ 32
                \<and> area sp (Suc (length s)) \<subseteq> T))"

lemma strtok_pending:
  assumes d: "c_string m blank [0x20]" and s: "c_string m sp s" "sp \<noteq> 0" "unat sp + length s < 2 ^ 32"
    "area sp (Suc (length s)) \<subseteq> T"
  obtains token m' sp' where "strtok m sp 0 blank = Some (token, m', sp')" "pending T m' token sp' (split_words [0x20] s)"
    "\<And>a. a \<notin> T \<Longrightarrow> m' a = m a"
proof (cases "split_words [0x20] s")
  case Nil
  then show ?thesis using strtok_no_word [OF d s(1)] that by (auto simp: pending_def)
next
  case (Cons w ws)
  obtain t m' sp' s' where "strtok m sp 0 blank = Some (t, m', sp')" "t \<noteq> 0" "c_string m' t w"
    "area t (Suc (length w)) \<subseteq> area sp (Suc (length s))" "sp' \<noteq> 0" "c_string m' sp' s'" "split_words [0x20] s' = ws"
    "unat sp' + length s' < 2 ^ 32" "area sp' (Suc (length s')) \<subseteq> area sp (Suc (length s))"
    "\<And>a. a \<notin> area sp (Suc (length s)) \<Longrightarrow> m' a = m a"
    using strtok_next_word [OF d s(1-3) Cons] by metis
  then show ?thesis using s(4) Cons by (intro that [of t m' sp']) (auto simp: pending_def intro!: exI [of _ s'])
qed

lemma pending_cong:
  assumes "pending T m token sp ws" "\<And>a. a \<in> T \<Longrightarrow> m' a = m a" shows "pending T m' token sp ws"
  using assms c_string_cong [of m _ _ m'] unfolding pending_def by (cases ws) (auto, blast+)

lemma parse_loop_words:
  assumes "separate (T \<union> area blank 2 \<union> area current 516) blocks"
    and "c_string m blank [0x20]" "T \<inter> area blank 2 = {}" "area current 516 \<inter> (T \<union> area blank 2) = {}"
    and "pending T m token sp ws" "read32 m (current + 512) = 0"
  shows "\<exists>m' sp' blocks'. parse_loop blank current token m sp blocks = Some (m', sp', blocks')
    \<and> (sp' = 0 \<longleftrightarrow> length ws \<le> length blocks)
    \<and> holds_words m' (read32 m' (current + 512)) (map (take 511) (take (length blocks) ws))
    \<and> (\<forall>a. a \<notin> T \<and> a \<notin> area (current + 512) 4 \<and> (\<forall>b \<in> set blocks. a \<notin> area b 516) \<longrightarrow> m' a = m a)"
  using assms
proof (induction blocks arbitrary: current token m sp ws)
  case Nil
  show ?case
  proof (cases ws)
    case Nil
    then show ?thesis using Nil.prems(5,6) by (simp add: parse_loop.simps pending_def)
  next
    case (Cons w ws')
    then show ?thesis using Nil.prems(5,6) by (simp add: parse_loop.simps pending_def next_block_def)
  qed
next
  case (Cons b bs)
  show ?case
  proof (cases ws)
    case Nil
    then show ?thesis using Cons.prems(5,6) by (simp add: parse_loop.simps pending_def)
  next
    case w: (Cons w ws')
    note sep = Cons.prems(1) [simplified]
    from Cons.prems(5) [unfolded w] obtain s where tok: "token \<noteq> 0" "c_string m token w" "area token (Suc (length w)) \<subseteq> T"
      and s: "sp \<noteq> 0" "c_string m sp s" "split_words [0x20] s = ws'" "unat sp + length s < 2 ^ 32" "area sp (Suc (length s)) \<subseteq> T"
      by (auto simp: pending_def)
    let ?m1 = "fill_argument m b token"
    let ?m2 = "write32 ?m1 (current + 512) b"
    have next4: "area (current + 512) 4 \<subseteq> area current 516" using area_offset [of current 512 4] by simp
    have nextb: "area (b + 512) 4 \<subseteq> area b 516" using area_offset [of b 512 4] by simp
    have b512: "area b 512 \<subseteq> area b 516" by (rule area_mono) simp
    have m1: "?m1 a = m a" if "a \<notin> area b 516" for a using that by (rule fill_argument_area)
    have m2: "?m2 a = ?m1 a" if "a \<notin> area (current + 512) 4" for a using that by (rule write32_area)
    have same: "?m2 a = m a" if "a \<in> T \<union> area blank 2" for a
    proof -
      have "a \<notin> area b 516" "a \<notin> area (current + 512) 4" using that sep Cons.prems(4) next4 by blast+
      then show ?thesis using m1 [of a] m2 [of a] by simp
    qed
    have two: "area blank (Suc (length [0x20 :: u8])) = area blank 2" by (simp add: numeral_2_eq_2)
    have blank2: "c_string ?m2 blank [0x20]"
      by (rule c_string_cong [OF Cons.prems(2)]) (rule same, use two in auto)
    have sp2: "c_string ?m2 sp s" by (rule c_string_cong [OF s(2)]) (rule same, use s(5) in auto)
    obtain token' m3 sp' where st: "strtok ?m2 sp 0 blank = Some (token', m3, sp')"
      and pend: "pending T m3 token' sp' ws'" and m3: "\<And>a. a \<notin> T \<Longrightarrow> m3 a = ?m2 a"
      using strtok_pending [OF blank2 sp2 s(1,4,5)] s(3) by metis
    have in_b: "m3 a = ?m1 a" if "a \<in> area b 516" for a
    proof -
      have "a \<notin> T" "a \<notin> area (current + 512) 4" using that sep next4 by blast+
      then show ?thesis using m2 m3 by simp
    qed
    have fill: "c_string ?m1 b (take 511 w)" "read32 ?m1 (b + 512) = 0"
      using fill_argument_string [OF tok(2), of b] sep tok(3) by blast+
    have "read32 m3 (b + 512) = 0" using read32_cong [of "b + 512" m3 ?m1] in_b nextb fill(2) by auto
    moreover have "c_string m3 blank [0x20]"
      by (rule c_string_cong [OF blank2]) (rule m3, use Cons.prems(3) two in auto)
    moreover have "separate (T \<union> area blank 2 \<union> area b 516) bs" by (rule separate_mono) (use sep in auto)
    ultimately obtain m' sp'' blocks' where
      loop: "parse_loop blank b token' m3 sp' bs = Some (m', sp'', blocks')" "sp'' = 0 \<longleftrightarrow> length ws' \<le> length bs"
      "holds_words m' (read32 m' (b + 512)) (map (take 511) (take (length bs) ws'))"
      and frame: "\<And>a. a \<notin> T \<Longrightarrow> a \<notin> area (b + 512) 4 \<Longrightarrow> (\<And>c. c \<in> set bs \<Longrightarrow> a \<notin> area c 516) \<Longrightarrow> m' a = m3 a"
      using Cons.IH [of b m3 token' sp' ws'] sep Cons.prems(3) pend by blast
    have others: "c \<in> set bs \<Longrightarrow> area c 516 \<inter> (T \<union> area blank 2 \<union> area current 516 \<union> area b 516) = {}" for c
      using separateD [of _ bs c] sep by blast
    have "c_string m' b (take 511 w)"
    proof (rule c_string_cong [OF fill(1)])
      fix a assume "a \<in> area b (Suc (length (take 511 w)))"
      then have a: "a \<in> area b 512" using area_mono [of "Suc (length (take 511 w))" 512 b] by auto
      then have "a \<in> area b 516" "a \<notin> area (b + 512) 4" using b512 link_apart by blast+
      then have "m' a = m3 a" using sep others by (intro frame) blast+
      then show "m' a = ?m1 a" using in_b \<open>a \<in> area b 516\<close> by simp
    qed
    moreover have "read32 m' (current + 512) = b"
    proof -
      have "m' a = ?m2 a" if a: "a \<in> area (current + 512) 4" for a
      proof -
        have "a \<in> area current 516" using a next4 by blast
        then have "m' a = m3 a" using nextb others Cons.prems(4) sep by (intro frame) blast+
        moreover have "a \<notin> T" using \<open>a \<in> area current 516\<close> Cons.prems(4) by blast
        ultimately show ?thesis using m3 by simp
      qed
      then have "read32 m' (current + 512) = read32 ?m2 (current + 512)" by (rule read32_cong)
      then show ?thesis by simp
    qed
    moreover have "m' a = m a" if "a \<notin> T \<and> a \<notin> area (current + 512) 4 \<and> (\<forall>c \<in> set (b # bs). a \<notin> area c 516)" for a
    proof -
      have "m' a = m3 a" using that nextb by (intro frame) auto
      then show ?thesis using that m1 [of a] m2 [of a] m3 [of a] by simp
    qed
    moreover have "parse_loop blank current token m sp (b # bs) = Some (m', sp'', blocks')"
      using tok(1) sep loop(1) st by (subst parse_loop.simps) (simp add: next_block_def Let_def)
    ultimately show ?thesis using loop(2,3) sep w by (intro exI [of _ m'] exI [of _ sp''] exI [of _ blocks']) simp
  qed
qed

lemma area_range: "unat p + n \<le> 2 ^ 32 \<Longrightarrow> a \<in> area p n \<Longrightarrow> unat p \<le> unat a \<and> unat a < unat p + n"
  using unat_add_no_wrap [of p "a - p"] by (simp add: area_def)

lemma area_disjoint: "unat p + n \<le> unat q \<Longrightarrow> unat q + k \<le> 2 ^ 32 \<Longrightarrow> area p n \<inter> area q k = {}"
  using area_range [of p n] area_range [of q k] by fastforce

lemma strtok_start: "p \<noteq> 0 \<Longrightarrow> strtok m 0 p d = strtok m p 0 d"
  by (simp add: strtok_def Let_def)

section \<open>Properties\<close>



end
