(* ===== verification/Programs.thy ===== *)
theory Programs
  imports Stdlib "HOL-Library.Stream"
begin

unbundle bit_operations_syntax

text \<open>
  The rest of the C code of the user programs: the routines the library shares with the kernel
  (\<^verbatim>\<open>programs/stdlib/src/memory.c\<close> and the first ones of \<^verbatim>\<open>programs/stdlib/src/string.c\<close>), the
  wrappers of system calls, the start of a program (\<^verbatim>\<open>programs/stdlib/src/start.c\<close>) and the program
  \<^verbatim>\<open>programs/blank/blank.c\<close>.
\<close>

section \<open>Routines shared with the kernel\<close>

text \<open>The statements are those of the kernel's \<^verbatim>\<open>memory.c\<close> and \<^verbatim>\<open>string.c\<close>, over the memory of the program.\<close>

definition lib_memset :: "mem \<Rightarrow> addr \<Rightarrow> int \<Rightarrow> u32 \<Rightarrow> mem" where "lib_memset = memset"
definition lib_memcmp :: "mem \<Rightarrow> addr \<Rightarrow> addr \<Rightarrow> int \<Rightarrow> int" where "lib_memcmp = memcmp"
definition lib_memcpy :: "mem \<Rightarrow> addr \<Rightarrow> addr \<Rightarrow> u32 \<Rightarrow> mem" where "lib_memcpy = memcpy"

definition lib_tolower :: "u8 \<Rightarrow> u8" where "lib_tolower = tolower"
definition lib_strlen :: "mem \<Rightarrow> addr \<Rightarrow> int option" where "lib_strlen = strlen"
definition lib_strnlen :: "mem \<Rightarrow> addr \<Rightarrow> int \<Rightarrow> int" where "lib_strnlen = strnlen"
definition lib_strnlen_terminator :: "mem \<Rightarrow> addr \<Rightarrow> int \<Rightarrow> u8 \<Rightarrow> int" where
  "lib_strnlen_terminator = strnlen_terminator"
definition lib_istrncmp :: "mem \<Rightarrow> addr \<Rightarrow> addr \<Rightarrow> int \<Rightarrow> int" where "lib_istrncmp = istrncmp"
definition lib_strncmp :: "mem \<Rightarrow> addr \<Rightarrow> addr \<Rightarrow> int \<Rightarrow> int" where "lib_strncmp = strncmp"
definition lib_strcpy :: "mem \<Rightarrow> addr \<Rightarrow> addr \<Rightarrow> mem option" where "lib_strcpy = strcpy"
definition lib_strncpy :: "mem \<Rightarrow> addr \<Rightarrow> addr \<Rightarrow> int \<Rightarrow> mem" where "lib_strncpy = strncpy"
definition lib_isdigit :: "u8 \<Rightarrow> bool" where "lib_isdigit = isdigit"
definition lib_tonumericdigit :: "u8 \<Rightarrow> int" where "lib_tonumericdigit = tonumericdigit"

section \<open>Wrappers of system calls\<close>

text \<open>
  \<open>peachos_malloc\<close> and \<open>peachos_free\<close>, which no file of the repository defines, are parameters that
  work on the state \<open>'s\<close> of the system.
\<close>

definition lib_malloc :: "(u32 \<Rightarrow> 's \<Rightarrow> addr \<times> 's) \<Rightarrow> u32 \<Rightarrow> 's \<Rightarrow> addr \<times> 's" where
  "lib_malloc peachos_malloc sz s = peachos_malloc sz s"

definition lib_free :: "(addr \<Rightarrow> 's \<Rightarrow> 's) \<Rightarrow> addr \<Rightarrow> 's \<Rightarrow> 's" where
  "lib_free peachos_free ptr s = peachos_free ptr s"

text \<open>The character printed and the result.\<close>

definition lib_putchar :: "int \<Rightarrow> call list \<times> int" where
  "lib_putchar c = ([Putchar (word_of_int c)], 0)"

section \<open>Programs\<close>

text \<open>
  What a program does is the sequence of its calls: it ends with a result, or it never does.
\<close>

datatype behaviour = Ends "call list" int | Forever "call stream"

record process_arguments =
  arg_count :: int
  arg_vector :: addr

text \<open>The result of \<open>main\<close> is not used; the caller, in assembly, then leaves the program.\<close>

definition c_start :: "(int \<Rightarrow> addr \<Rightarrow> behaviour) \<Rightarrow> process_arguments \<Rightarrow> call list + call stream" where
  "c_start main arguments =
     (case main (arg_count arguments) (arg_vector arguments) of
        Ends calls res \<Rightarrow> Inl calls
      | Forever calls \<Rightarrow> Inr calls)"

text \<open>
  A string that is printed is cut to the 1023 characters which the system call takes.
\<close>

definition printed_string :: "mem \<Rightarrow> addr \<Rightarrow> u8 list" where
  "printed_string m p = bytes_at m p (nat (lib_strnlen m p 1023))"

definition blank_main :: "mem \<Rightarrow> int \<Rightarrow> addr \<Rightarrow> behaviour" where
  "blank_main m argc argv = Forever (sconst (Print (printed_string m (read32 m argv))))"

lemma printed_string_c_string:
  assumes "c_string m p xs" shows "printed_string m p = take 1023 xs"
proof -
  have "lib_strnlen m p 1023 = int (min 1023 (length xs))"
    using strnlen_c_string [OF assms, of 1023] by (simp add: lib_strnlen_def)
  then have "printed_string m p = bytes_at m p (min 1023 (length xs))" by (simp add: printed_string_def)
  then show ?thesis using assms by (auto simp: list_eq_iff_nth_eq c_string_iff_nth)
qed

text \<open>
  The program \<open>blank\<close> never ends, and all it does is to print its first argument again and again.
\<close>
lemma blank_prints_forever:
  assumes "c_string m (read32 m (arg_vector arguments)) xs"
  shows "c_start (blank_main m) arguments = Inr (sconst (Print (take 1023 xs)))"
  using assms by (simp add: c_start_def blank_main_def printed_string_c_string)

end
