(* ===== verification/Fat16_Mount.thy ===== *)
theory Fat16_Mount
  imports Volume
begin

text \<open>
  Mounting: what \<open>fat16_resolve\<close> of \<^verbatim>\<open>src/fs/fat/fat16.c\<close> makes of the bytes of a drive, that the result
  is a volume as the theory \<open>Volume\<close> describes it, and which entries of its root directory are looked at.
\<close>

section \<open>The volume on the drive\<close>

text \<open>The first 62 bytes, the first sector of the root directory, and its bytes.\<close>

definition volume_header :: "device \<Rightarrow> fat_h" where
  "volume_header dev = map (\<lambda>i. disk_byte dev (int i)) [0..<62]"

definition root_sector :: "fat_h \<Rightarrow> int" where
  "root_sector h = uint (fat_copies h) * uint (sectors_per_fat h) + uint (reserved_sectors h)"

definition root_bytes :: "device \<Rightarrow> disk \<Rightarrow> u8 list" where
  "root_bytes dev disk = map (\<lambda>i. disk_byte dev (root_sector (volume_header dev) * sector_size disk + int i))
     [0..<32 * unat (root_dir_entries (volume_header dev))]"

text \<open>
  The first byte of entry \<open>i\<close> of a directory that starts at position \<open>q\<close>: zero ends the
  directory, \<open>0xE5\<close> marks a deleted entry. The entries that count are those before the end that
  are not deleted.
\<close>

definition entry_mark :: "device \<Rightarrow> int \<Rightarrow> nat \<Rightarrow> u8" where
  "entry_mark dev q i = disk_byte dev (q + 32 * int i)"

definition ends_at :: "device \<Rightarrow> int \<Rightarrow> nat \<Rightarrow> bool" where
  "ends_at dev q k \<longleftrightarrow> entry_mark dev q k = 0 \<and> (\<forall>i<k. entry_mark dev q i \<noteq> 0)"

definition used_entries :: "device \<Rightarrow> int \<Rightarrow> nat \<Rightarrow> nat list" where
  "used_entries dev q k = filter (\<lambda>i. entry_mark dev q i \<noteq> 0xE5) [0..<k]"

definition mounted :: "device \<Rightarrow> addr \<Rightarrow> disk \<Rightarrow> nat \<Rightarrow> fat_private" where
  "mounted dev d disk k =
     (let h = volume_header dev; r = root_sector h; n = uint (root_dir_entries h) * 32 in
      \<lparr>header = h,
       root_directory = \<lparr>dir_bytes = root_bytes dev disk,
         dir_total = int (length (used_entries dev (r * sector_size disk) k)),
         sector_pos = r, ending_sector_pos = r + n sdiv sector_size disk\<rparr>,
       cluster_read_stream = Some \<lparr>pos = 0, stream_disk = d\<rparr>,
       fat_read_stream = Some \<lparr>pos = 0, stream_disk = d\<rparr>,
       directory_stream = Some \<lparr>pos = r * sector_size disk + n, stream_disk = d\<rparr>\<rparr>)"

section \<open>Lemmas\<close>

lemma ends_at_Suc: "ends_at dev q (Suc k) \<longleftrightarrow> entry_mark dev q 0 \<noteq> 0 \<and> ends_at dev (q + 32) k"
proof -
  have "entry_mark dev (q + 32) i = entry_mark dev q (Suc i)" for i
    by (simp add: entry_mark_def algebra_simps)
  then show ?thesis by (auto simp: ends_at_def less_Suc_eq_0_disj)
qed

lemma used_entries_Suc:
  "length (used_entries dev q (Suc k)) =
     (if entry_mark dev q 0 = 0xE5 then 0 else 1) + length (used_entries dev (q + 32) k)"
proof -
  have "entry_mark dev (q + 32) i = entry_mark dev q (Suc i)" for i
    by (simp add: entry_mark_def algebra_simps)
  moreover have "[0..<Suc k] = 0 # map Suc [0..<k]" by (simp add: map_Suc_upt upt_conv_Cons)
  ultimately show ?thesis by (simp add: used_entries_def filter_map o_def del: upt_Suc)
qed

text \<open>The count runs to the end of the directory and leaves out what is deleted.\<close>

lemma total_items_loop_counts:
  "0 \<le> pos s \<Longrightarrow> stream_disk s = d \<Longrightarrow> ends_at dev (pos s) k \<Longrightarrow>
   \<exists>s'. total_items_loop dev d s i = Some (i + int (length (used_entries dev (pos s) k)), s')
     \<and> 0 \<le> pos s' \<and> stream_disk s' = d"
proof (induction k arbitrary: s i)
  case 0
  have read: "diskstreamer_read dev d s 32 =
      (ALL_OK, map (\<lambda>i. disk_byte dev (pos s + int i)) [0..<32], s\<lparr>pos := pos s + 32\<rparr>)"
    using diskstreamer_read_bytes [of s 32 d dev] 0 by simp
  have "map (\<lambda>i. disk_byte dev (pos s + int i)) [0..<32] ! 0 = 0"
    using 0 by (simp add: ends_at_def entry_mark_def)
  then show ?case
    using read 0 by (subst total_items_loop.simps) (simp add: used_entries_def)
next
  case (Suc k)
  let ?s = "s\<lparr>pos := pos s + 32\<rparr>"
  have read: "diskstreamer_read dev d s 32 = (ALL_OK, map (\<lambda>i. disk_byte dev (pos s + int i)) [0..<32], ?s)"
    using diskstreamer_read_bytes [of s 32 d dev] Suc.prems by simp
  have first: "map (\<lambda>i. disk_byte dev (pos s + int i)) [0..<32] ! 0 = entry_mark dev (pos s) 0"
    by (simp add: entry_mark_def)
  have nz: "entry_mark dev (pos s) 0 \<noteq> 0" and ends: "ends_at dev (pos ?s) k"
    using Suc.prems(3) by (simp_all add: ends_at_Suc)
  let ?i = "if entry_mark dev (pos s) 0 = 0xE5 then i else i + 1"
  have "total_items_loop dev d s i = total_items_loop dev d ?s ?i"
    using read first nz by (subst total_items_loop.simps) simp
  then show ?case
    using Suc.IH [OF _ _ ends, of ?i] Suc.prems(1,2) used_entries_Suc [of dev "pos s" k]
    by (auto simp: add.assoc)
qed

lemma volume_header_read:
  "stream_disk s = d \<Longrightarrow> pos s = 0 \<Longrightarrow> \<exists>s'. diskstreamer_read dev d s 62 = (ALL_OK, volume_header dev, s')"
  using diskstreamer_read_bytes [of s 62 d dev] by (simp add: volume_header_def)

lemma uint_root_sector: "0 \<le> root_sector h"
  by (simp add: root_sector_def)

lemma root_position:
  assumes "0 \<le> sector_size disk" "root_sector h * sector_size disk < 2 ^ 31"
  shows "sint ((word_of_int (root_sector h) :: u32) * word_of_int (sector_size disk)) = root_sector h * sector_size disk"
proof -
  have "(word_of_int (root_sector h) :: u32) * word_of_int (sector_size disk)
      = word_of_int (root_sector h * sector_size disk)" by simp
  moreover have "0 \<le> root_sector h * sector_size disk" using assms(1) uint_root_sector [of h] by simp
  ultimately show ?thesis
    using assms(2) sint_word_of_int_small [of "root_sector h * sector_size disk"] by simp
qed

text \<open>What \<open>fat16_resolve\<close> gives for a drive with the signature and a root directory that ends.\<close>

lemma fat16_resolve_mounts:
  assumes "d \<noteq> 0" "disk_id disk = 0" "0 < sector_size disk" "signature (volume_header dev) = 0x29"
    and "root_sector (volume_header dev) * sector_size disk < 2 ^ 31"
    and "ends_at dev (root_sector (volume_header dev) * sector_size disk) k"
  shows "fat16_resolve dev d (\<lambda>_. True) disk = Some (Inr (mounted dev d disk k))"
proof -
  let ?h = "volume_header dev"
  let ?q = "root_sector ?h * sector_size disk" and ?n = "uint (root_dir_entries ?h) * 32"
  let ?s = "\<lparr>pos = 0, stream_disk = d\<rparr>"
  let ?p = "(fat16_init_private d (\<lambda>_. True) disk)\<lparr>header := ?h\<rparr>"
  have q: "0 \<le> ?q" using assms(3) uint_root_sector [of ?h] by simp
  have new: "diskstreamer_new d True (disk_id disk) = Some ?s"
    using assms(1,2) by (simp add: diskstreamer_new_def disk_get_def)
  obtain s' where s': "total_items_loop dev d \<lparr>pos = ?q, stream_disk = d\<rparr> 0
      = Some (int (length (used_entries dev ?q k)), s')" "0 \<le> pos s'" "stream_disk s' = d"
    using total_items_loop_counts [of "\<lparr>pos = ?q, stream_disk = d\<rparr>" d dev k 0] q assms(6) by auto
  have count: "fat16_get_total_items_for_directory dev d disk ?p (word_of_int (root_sector ?h))
      = Some (int (length (used_entries dev ?q k)), ?p\<lparr>directory_stream := Some s'\<rparr>)"
    using s' new root_position [of disk ?h] assms(3,5)
    by (simp add: fat16_get_total_items_for_directory_def fat16_init_private_def diskstreamer_seek_def Let_def)
  have read: "diskstreamer_read dev d (s'\<lparr>pos := ?q\<rparr>) ?n
      = (ALL_OK, root_bytes dev disk, s'\<lparr>pos := ?q + ?n\<rparr>)"
    using diskstreamer_read_bytes [of "s'\<lparr>pos := ?q\<rparr>" ?n d dev] q s'(3)
    by (simp add: root_bytes_def nat_mult_distrib mult.commute)
  have "s'\<lparr>pos := ?q + ?n\<rparr> = \<lparr>pos = ?q + ?n, stream_disk = d\<rparr>" using s'(3) by simp
  then have "fat16_get_root_directory dev d (\<lambda>_. True) disk ?p = Some (ALL_OK, mounted dev d disk k)"
    using assms(3) count read new
    by (simp add: fat16_get_root_directory_def fat16_sector_to_absolute_def diskstreamer_seek_def
        root_sector_def [symmetric] mounted_def fat16_init_private_def Let_def)
  moreover obtain s1 where "diskstreamer_read dev d ?s 62 = (ALL_OK, ?h, s1)"
    using volume_header_read [of ?s d dev] by auto
  ultimately show ?thesis using assms(4) new by (simp add: fat16_resolve_def Let_def)
qed

lemma mounted_fields [simp]:
  "header (mounted dev d disk k) = volume_header dev"
  "dir_bytes (root_directory (mounted dev d disk k)) = root_bytes dev disk"
  "dir_total (root_directory (mounted dev d disk k))
     = int (length (used_entries dev (root_sector (volume_header dev) * sector_size disk) k))"
  "stream_ready d (cluster_read_stream (mounted dev d disk k))"
  by (simp_all add: mounted_def Let_def stream_ready_def)

section \<open>Properties\<close>


text \<open>
  C39: Deleted entries hide files. The number of entries leaves out the deleted ones, but the search counts them:
  behind \<open>n\<close> deleted entries the last \<open>n\<close> files of the root directory are not found.
\<close>
theorem mount_hides_last_entries:
  assumes "d \<noteq> 0" "disk_id disk = 0" "0 < sector_size disk" "signature (volume_header dev) = 0x29"
    and "q = root_sector (volume_header dev) * sector_size disk" "q < 2 ^ 31" "ends_at dev q k"
    and "n = length (used_entries dev q k)" "\<And>j. j < n \<Longrightarrow> attribute (drop (32 * j) (root_bytes dev disk)) AND 0x10 = 0"
    and "n \<le> i" "i < k" "entry_mark dev q i \<noteq> 0xE5"
    and "names_equal (fat16_get_full_relative_filename (drop (32 * i) (root_bytes dev disk))) name"
    and "\<And>j. j < n \<Longrightarrow> \<not> names_equal (fat16_get_full_relative_filename (drop (32 * j) (root_bytes dev disk))) name"
  shows "\<exists>p. fat16_resolve dev d (\<lambda>_. True) disk = Some (Inr p)
    \<and> dir_item (root_directory p) i = drop (32 * i) (root_bytes dev disk)
    \<and> fat16_open dev d (\<lambda>_. True) disk p [name] FILE_MODE_READ = Some (Inl EIO, p)"
proof -
  let ?p = "mounted dev d disk k"
  have item: "dir_item (root_directory ?p) j = drop (32 * j) (root_bytes dev disk)" for j
    by (simp add: dir_item_def)
  have total: "nat (dir_total (root_directory ?p)) = n" using assms(5,8) by simp
  have "find_item_loop dev d (\<lambda>_. True) disk (root_directory ?p) name n ?p = Some (None, ?p)"
    using find_item_loop_last [of "\<lambda>_. True" n "root_directory ?p" dev d disk name ?p] assms(9,14)
    by (simp add: item filter_False)
  then have "fat16_open dev d (\<lambda>_. True) disk ?p [name] FILE_MODE_READ = Some (Inl EIO, ?p)"
    by (simp add: fat16_open_def fat16_get_directory_entry_def fat16_find_item_in_directory_def total del: mounted_fields)
  then show ?thesis using fat16_resolve_mounts [of d disk dev k] assms(1-7) item by auto
qed

section \<open>A drive with a deleted entry\<close>

text \<open>
  One reserved sector, no table, sixteen entries in the root directory: a deleted one, the file \<open>A\<close> at
  cluster 2, and the end.
\<close>

definition mount_device :: device where
  "mount_device s =
     (if s = 0 then (replicate 512 0)[13 := 1, 14 := 1, 17 := 16, 38 := 0x29]
      else if s = 1 then sample_item[0 := 0xE5] @ sample_item @ replicate 448 0
      else replicate 512 0)"

lemma mount_device_bytes:
  "i < 512 \<Longrightarrow> disk_byte mount_device (int i) = mount_device 0 ! i"
  "i < 512 \<Longrightarrow> disk_byte mount_device (512 + int i) = mount_device 1 ! i"
  using disk_byte_in_sector [of "int i" 0 mount_device] disk_byte_in_sector [of "int i" 512 mount_device] by simp_all

lemma mount_header:
  "i < 62 \<Longrightarrow> volume_header mount_device ! i = mount_device 0 ! i"
  by (simp add: volume_header_def mount_device_bytes)

lemma mount_header_fields:
  "signature (volume_header mount_device) = 0x29" "sectors_per_cluster (volume_header mount_device) = 1"
  "root_sector (volume_header mount_device) = 1" "root_dir_entries (volume_header mount_device) = 16"
  by (simp_all add: signature_def sectors_per_cluster_def root_sector_def fat_copies_def sectors_per_fat_def
      reserved_sectors_def root_dir_entries_def le16_def mount_header) (simp_all add: mount_device_def)

lemma mount_entries:
  "ends_at mount_device 512 2" "used_entries mount_device 512 2 = [1]" "entry_mark mount_device 512 1 = 0x41"
proof -
  have mark: "entry_mark mount_device 512 i = mount_device 1 ! (32 * i)" if "i < 16" for i
    using that mount_device_bytes(2) [of "32 * i"] by (simp add: entry_mark_def)
  have "entry_mark mount_device 512 0 = 0xE5" "entry_mark mount_device 512 2 = 0"
    by (simp_all add: mark) (simp_all add: mount_device_def sample_item_def nth_append)
  moreover show "entry_mark mount_device 512 1 = 0x41"
    by (simp add: mark) (simp add: mount_device_def sample_item_def nth_append)
  moreover have "[0..<2] = [0, 1]" by (simp add: upt_rec)
  ultimately show "ends_at mount_device 512 2" "used_entries mount_device 512 2 = [1]"
    by (auto simp: ends_at_def used_entries_def less_2_cases_iff)
qed

lemma mount_root_bytes: "root_bytes mount_device sample_disk = mount_device 1"
proof -
  have "length (mount_device 1) = 512" by (simp add: mount_device_def)
  then show ?thesis
    by (intro nth_equalityI) (simp_all add: root_bytes_def mount_header_fields sample_disk_def mount_device_bytes(2))
qed

lemma mount_items: "drop 32 (mount_device 1) = sample_item @ replicate 448 0"
  "mount_device 1 = sample_item[0 := 0xE5] @ sample_item @ replicate 448 0"
  by (simp_all add: mount_device_def)

lemma mount_names:
  "fat16_get_full_relative_filename (sample_item[0 := 0xE5] @ xs) = [0xE5]"
  "fat16_get_full_relative_filename (sample_item @ xs) = [0x41]"
  by (simp_all add: fat16_get_full_relative_filename_def sample_item_def Let_def)

lemma mount_plain:
  "plain_file sample_disk (mounted mount_device 0x9000 sample_disk 2) (sample_item[0 := 0xE5] @ xs)"
  by (simp add: plain_file_def attribute_def fat16_get_first_cluster_def high_16_bits_first_cluster_def
      low_16_bits_first_cluster_def le16_def cluster_position_def fat16_cluster_to_sector_def sample_disk_def
      mounted_def Let_def mount_header_fields sample_item_def nth_append nth_Cons')


theorem mount_hides_last_entries_witness:
  "\<exists>p. fat16_resolve mount_device 0x9000 (\<lambda>_. True) sample_disk = Some (Inr p)
    \<and> dir_item (root_directory p) 1 = sample_item @ replicate 448 0
    \<and> fat16_open mount_device 0x9000 (\<lambda>_. True) sample_disk p [[0x61]] FILE_MODE_READ = Some (Inl EIO, p)"
proof -
  have disk: "disk_id sample_disk = 0" "sector_size sample_disk = 512" by (simp_all add: sample_disk_def)
  have q: "512 = root_sector (volume_header mount_device) * sector_size sample_disk"
    by (simp add: mount_header_fields disk)
  have names: "names_equal [0x41] [0x61]" "\<not> names_equal [0xE5] [0x61]"
    by (simp_all add: names_equal_iff tolower_def)
  have plain: "attribute (sample_item[0 := 0xE5] @ xs) AND 0x10 = 0" for xs
    using mount_plain by (simp add: plain_file_def)
  show ?thesis
    using mount_hides_last_entries [of "0x9000" sample_disk mount_device, OF _ disk(1) _ mount_header_fields(1) q _ mount_entries(1) refl,
        of 1 "[0x61]"] disk(2) names mount_entries(3)
    by (auto simp: mount_root_bytes mount_items mount_names mount_entries plain)
qed

end
