(* ===== verification/Fat16_Chain.thy ===== *)
theory Fat16_Chain
  imports Fat16
begin

text \<open>
  Files of several clusters: the chain of a file as \<open>fat16_get_cluster_for_offset\<close> of
  \<^verbatim>\<open>src/fs/fat/fat16.c\<close> follows it through the table, and the bytes that \<open>fat16_read\<close> delivers along it.
\<close>

section \<open>The chain\<close>

text \<open>
  The entry of a cluster at the position where the driver reads it, and the cluster \<open>n\<close> steps further
  on; the entries at which the driver stops are an error.
\<close>

definition fat_entry :: "device \<Rightarrow> disk \<Rightarrow> fat_h \<Rightarrow> int \<Rightarrow> int" where
  "fat_entry dev disk h cluster =
     (let q = uint (reserved_sectors h) * sector_size disk * (cluster * 2)
      in uint (le16 [disk_byte dev q, disk_byte dev (q + 1)] 0))"

fun chain :: "device \<Rightarrow> disk \<Rightarrow> fat_h \<Rightarrow> int \<Rightarrow> nat \<Rightarrow> int" where
  "chain dev disk h cluster 0 = cluster"
| "chain dev disk h cluster (Suc n) =
     (let entry = fat_entry dev disk h cluster
      in if entry \<in> {0xFF8, 0xFFF, 0xFF7, 0xFF0, 0xFF6, 0} then - errno EIO else chain dev disk h entry n)"

text \<open>Byte \<open>j\<close> of a read at \<open>offset\<close>: every cluster's worth of bytes comes from the next cluster of the chain.\<close>

definition chain_position :: "device \<Rightarrow> disk \<Rightarrow> fat_private \<Rightarrow> int \<Rightarrow> int \<Rightarrow> nat \<Rightarrow> int" where
  "chain_position dev disk p cluster offset k =
     chain dev disk (header p) cluster (nat (offset div size_of_cluster_bytes disk p) + k)"

definition chain_byte :: "device \<Rightarrow> disk \<Rightarrow> fat_private \<Rightarrow> int \<Rightarrow> int \<Rightarrow> nat \<Rightarrow> u8" where
  "chain_byte dev disk p cluster offset j =
     (let z = size_of_cluster_bytes disk p
      in disk_byte dev (cluster_position disk p (chain_position dev disk p cluster offset (j div nat z))
           + offset mod z + int (j mod nat z)))"

text \<open>The clusters a read of \<open>n\<close> bytes goes to are there.\<close>

definition chain_ok :: "device \<Rightarrow> disk \<Rightarrow> fat_private \<Rightarrow> int \<Rightarrow> int \<Rightarrow> int \<Rightarrow> bool" where
  "chain_ok dev disk p cluster offset n \<longleftrightarrow>
     (\<forall>k. int k * size_of_cluster_bytes disk p < n \<longrightarrow>
        0 \<le> chain_position dev disk p cluster offset k
        \<and> 0 \<le> cluster_position disk p (chain_position dev disk p cluster offset k))"

text \<open>A volume whose table can be addressed, with streams on the disk.\<close>

definition chain_ready :: "addr \<Rightarrow> disk \<Rightarrow> fat_private \<Rightarrow> bool" where
  "chain_ready d disk p \<longleftrightarrow> stream_ready d (cluster_read_stream p) \<and> stream_ready d (fat_read_stream p)
     \<and> 0 < sector_size disk \<and> 0 < size_of_cluster_bytes disk p
     \<and> uint (reserved_sectors (header p)) * sector_size disk * 131072 \<le> 2 ^ 31"

section \<open>Lemmas\<close>

lemma private_update_fields [simp]:
  "size_of_cluster_bytes disk (p\<lparr>fat_read_stream := f\<rparr>) = size_of_cluster_bytes disk p"
  "size_of_cluster_bytes disk (p\<lparr>cluster_read_stream := f\<rparr>) = size_of_cluster_bytes disk p"
  "cluster_position disk (p\<lparr>fat_read_stream := f\<rparr>) c = cluster_position disk p c"
  "cluster_position disk (p\<lparr>cluster_read_stream := f\<rparr>) c = cluster_position disk p c"
  "chain_position dev disk (p\<lparr>fat_read_stream := f\<rparr>) c offset k = chain_position dev disk p c offset k"
  "chain_position dev disk (p\<lparr>cluster_read_stream := f\<rparr>) c offset k = chain_position dev disk p c offset k"
  by (simp_all add: size_of_cluster_bytes_def cluster_position_def fat16_cluster_to_sector_def chain_position_def)

lemma private_update_reads [simp]:
  "chain_byte dev disk (p\<lparr>fat_read_stream := f\<rparr>) c offset = chain_byte dev disk p c offset"
  "chain_byte dev disk (p\<lparr>cluster_read_stream := f\<rparr>) c offset = chain_byte dev disk p c offset"
  "chain_ok dev disk (p\<lparr>fat_read_stream := f\<rparr>) c offset n = chain_ok dev disk p c offset n"
  "chain_ok dev disk (p\<lparr>cluster_read_stream := f\<rparr>) c offset n = chain_ok dev disk p c offset n"
  by (simp_all add: chain_byte_def chain_ok_def fun_eq_iff)

lemma fat_entry_range: "0 \<le> fat_entry dev disk h c \<and> fat_entry dev disk h c < 65536"
  using unsigned_less [of "le16 [disk_byte dev (uint (reserved_sectors h) * sector_size disk * (c * 2)),
      disk_byte dev (uint (reserved_sectors h) * sector_size disk * (c * 2) + 1)] 0"]
  by (simp add: fat_entry_def Let_def)

lemma get_fat_entry_reads:
  assumes "chain_ready d disk p" "0 \<le> cluster" "cluster < 65536"
  shows "\<exists>s'. stream_ready d (Some s') \<and>
    fat16_get_fat_entry dev d disk p cluster = (fat_entry dev disk (header p) cluster, p\<lparr>fat_read_stream := Some s'\<rparr>)"
proof -
  obtain s where s: "fat_read_stream p = Some s" "0 \<le> pos s" "stream_disk s = d"
    using assms(1) by (auto simp: chain_ready_def stream_ready_def split: option.splits)
  define b where "b = uint (reserved_sectors (header p)) * sector_size disk"
  define q where "q = b * (cluster * 2)"
  have b: "0 \<le> b" "b * 131072 \<le> 2 ^ 31" using assms(1) by (simp_all add: chain_ready_def b_def)
  have "b * (cluster * 2) \<le> b * 131070" using b(1) assms(3) by (intro mult_left_mono) simp_all
  moreover have "b * 131070 < 2 ^ 31" using b by simp
  ultimately have q: "0 \<le> q" "q < 2 ^ 31" using b(1) assms(2) by (simp_all add: q_def)
  have "fat16_get_first_fat_sector p * word_of_int (sector_size disk) * word_of_int (cluster * 2) = (word_of_int q :: u32)"
    unfolding q_def b_def fat16_get_first_fat_sector_def ucast_eq [of "reserved_sectors (header p)"]
    by (simp only: of_int_mult)
  then have seek: "sint (fat16_get_first_fat_sector p * word_of_int (sector_size disk) * word_of_int (cluster * 2)) = q"
    using q sint_word_of_int_small [of q] by simp
  have two: "[0..<nat 2] = [0, 1]" by (simp add: upt_rec)
  obtain s1 s2 where "diskstreamer_seek s q = (ALL_OK, s1)"
      "diskstreamer_read dev d s1 2 = (ALL_OK, [disk_byte dev q, disk_byte dev (q + 1)], s2)"
      "0 \<le> pos s2 \<and> stream_disk s2 = d"
    using disk_bytes.read_at [of s d q 2 dev] s q(1) two by auto
  then show ?thesis
    using s seek by (intro exI [of _ s2])
      (simp add: fat16_get_fat_entry_def fat_entry_def stream_ready_def b_def [symmetric] q_def [symmetric] Let_def)
qed

text \<open>The loop follows the chain, and changes nothing but the stream on the table.\<close>

lemma cluster_loop_chain:
  "chain_ready d disk p \<Longrightarrow> 0 \<le> cluster \<Longrightarrow> cluster < 65536 \<Longrightarrow>
   \<exists>s'. stream_ready d (Some s') \<and> cluster_loop dev d disk p cluster n
     = (chain dev disk (header p) cluster n, p\<lparr>fat_read_stream := Some s'\<rparr>)"
proof (induction n arbitrary: p cluster)
  case 0
  then obtain s where "fat_read_stream p = Some s"
    by (auto simp: chain_ready_def stream_ready_def split: option.splits)
  then show ?case using 0 by (intro exI [of _ s]) (auto simp: chain_ready_def)
next
  case (Suc n)
  obtain s where s: "stream_ready d (Some s)"
      "fat16_get_fat_entry dev d disk p cluster = (fat_entry dev disk (header p) cluster, p\<lparr>fat_read_stream := Some s\<rparr>)"
    using get_fat_entry_reads [OF Suc.prems] by blast
  let ?p = "p\<lparr>fat_read_stream := Some s\<rparr>" and ?e = "fat_entry dev disk (header p) cluster"
  have "chain_ready d disk ?p" using Suc.prems(1) s(1) by (simp add: chain_ready_def)
  then obtain s' where "stream_ready d (Some s')"
      "cluster_loop dev d disk ?p ?e n = (chain dev disk (header p) ?e n, p\<lparr>fat_read_stream := Some s'\<rparr>)"
    using Suc.IH [of ?p ?e] fat_entry_range [of dev disk "header p" cluster] by auto
  then show ?case using s by (auto simp: Let_def)
qed

lemma sdiv_smod_pos: "0 \<le> (a :: int) \<Longrightarrow> 0 < b \<Longrightarrow> a sdiv b = a div b \<and> a smod b = a mod b"
  by (simp add: signed_divide_int_def signed_modulo_int_def sgn_if)

lemma chain_byte_next:
  assumes "0 < size_of_cluster_bytes disk p" "0 \<le> offset" "z = size_of_cluster_bytes disk p"
  shows "chain_byte dev disk p c (offset + z) j = chain_byte dev disk p c offset (nat z + j)"
    "chain_position dev disk p c (offset + z) k = chain_position dev disk p c offset (Suc k)"
proof -
  have "z \<noteq> 0" using assms(1,3) by simp
  then have "(offset + z) div z = offset div z + 1" "(offset + z) mod z = offset mod z"
    using div_add_self2 [of z offset] by simp_all
  moreover have "nat (offset div z + 1) = Suc (nat (offset div z))"
    using assms by (simp add: pos_imp_zdiv_nonneg_iff nat_add_distrib)
  moreover have "nat z \<noteq> 0" using assms(1,3) by simp
  then have "(nat z + j) div nat z = Suc (j div nat z)" "(nat z + j) mod nat z = j mod nat z"
    using div_add_self1 [of "nat z" j] by simp_all
  ultimately show "chain_byte dev disk p c (offset + z) j = chain_byte dev disk p c offset (nat z + j)"
    "chain_position dev disk p c (offset + z) k = chain_position dev disk p c offset (Suc k)"
    by (simp_all add: chain_byte_def chain_position_def Let_def assms(3) [symmetric])
qed

lemma chain_ok_next:
  assumes "chain_ok dev disk p c offset n" "0 < size_of_cluster_bytes disk p" "0 \<le> offset"
  shows "chain_ok dev disk p c (offset + size_of_cluster_bytes disk p) (n - size_of_cluster_bytes disk p)"
  unfolding chain_ok_def
proof (intro allI impI)
  fix k assume "int k * size_of_cluster_bytes disk p < n - size_of_cluster_bytes disk p"
  then have "int (Suc k) * size_of_cluster_bytes disk p < n" by (simp add: algebra_simps)
  then show "0 \<le> chain_position dev disk p c (offset + size_of_cluster_bytes disk p) k \<and>
      0 \<le> cluster_position disk p (chain_position dev disk p c (offset + size_of_cluster_bytes disk p) k)"
    using assms(1) chain_byte_next(2) [OF assms(2,3) refl] unfolding chain_ok_def by metis
qed

text \<open>One cluster's worth: the seek and the read of a round.\<close>

lemma one_round:
  assumes "chain_ready d disk p" "stream_ready d (Some s)" "0 \<le> cluster" "cluster < 65536" "0 \<le> offset" "0 < n"
    and "chain_ok dev disk p cluster offset n" "t = min (size_of_cluster_bytes disk p) n"
  shows "\<exists>f s1 s2. stream_ready d (Some f) \<and> stream_ready d (Some s2)
    \<and> fat16_get_cluster_for_offset dev d disk p cluster offset
        = Some (chain_position dev disk p cluster offset 0, p\<lparr>fat_read_stream := Some f\<rparr>)
    \<and> diskstreamer_seek s (cluster_position disk p (chain_position dev disk p cluster offset 0)
        + offset smod size_of_cluster_bytes disk p) = (ALL_OK, s1)
    \<and> diskstreamer_read dev d s1 t = (ALL_OK, map (chain_byte dev disk p cluster offset) [0..<nat t], s2)"
proof -
  let ?z = "size_of_cluster_bytes disk p" and ?c = "chain_position dev disk p cluster offset 0"
  have z: "0 < ?z" using assms(1) by (simp add: chain_ready_def)
  note sd = sdiv_smod_pos [OF assms(5) z]
  obtain f where f: "stream_ready d (Some f)"
      "cluster_loop dev d disk p cluster (nat (offset div ?z)) = (?c, p\<lparr>fat_read_stream := Some f\<rparr>)"
    using cluster_loop_chain [OF assms(1,3,4)] by (fastforce simp: chain_position_def)
  have "int 0 * ?z < n" using assms(6) by simp
  then have pos: "0 \<le> cluster_position disk p ?c" using assms(7) unfolding chain_ok_def by blast
  have m: "0 \<le> offset mod ?z" using z by simp
  have t: "0 \<le> t" "t \<le> ?z" using assms(6,8) z by simp_all
  obtain s1 s2 where s: "diskstreamer_seek s (cluster_position disk p ?c + offset mod ?z) = (ALL_OK, s1)"
      "diskstreamer_read dev d s1 t = (ALL_OK, map (\<lambda>i. disk_byte dev (cluster_position disk p ?c + offset mod ?z + int i)) [0..<nat t], s2)"
      "0 \<le> pos s2 \<and> stream_disk s2 = d"
    using disk_bytes.read_at [of s d "cluster_position disk p ?c + offset mod ?z" t dev] assms(2) pos m t(1)
    by (auto simp: stream_ready_def)
  have "map (\<lambda>i. disk_byte dev (cluster_position disk p ?c + offset mod ?z + int i)) [0..<nat t]
      = map (chain_byte dev disk p cluster offset) [0..<nat t]"
    using t(2) z by (intro map_cong) (auto simp: chain_byte_def Let_def)
  then show ?thesis
    using f s sd z by (intro exI [of _ f] exI [of _ s1] exI [of _ s2])
      (simp add: fat16_get_cluster_for_offset_def stream_ready_def)
qed

lemma read_from_stream_chain:
  assumes "chain_ready d disk p" "stream_ready d (Some s)" "0 \<le> cluster" "cluster < 65536" "0 \<le> offset" "0 < n"
    and "chain_ok dev disk p cluster offset n"
  shows "\<exists>f s'. stream_ready d (Some f) \<and> stream_ready d (Some s')
    \<and> fat16_read_internal_from_stream dev d disk s p cluster offset n
      = Some (0, map (chain_byte dev disk p cluster offset) [0..<nat n], s', p\<lparr>fat_read_stream := Some f\<rparr>)"
  using assms
proof (induction "nat n" arbitrary: n s p offset rule: less_induct)
  case less
  let ?z = "size_of_cluster_bytes disk p"
  define t where "t = min ?z n"
  have z: "0 < ?z" using less.prems(1) by (simp add: chain_ready_def)
  obtain f s1 s2 where r: "stream_ready d (Some f)" "stream_ready d (Some s2)"
      "fat16_get_cluster_for_offset dev d disk p cluster offset
        = Some (chain_position dev disk p cluster offset 0, p\<lparr>fat_read_stream := Some f\<rparr>)"
      "diskstreamer_seek s (cluster_position disk p (chain_position dev disk p cluster offset 0) + offset smod ?z) = (ALL_OK, s1)"
      "diskstreamer_read dev d s1 t = (ALL_OK, map (chain_byte dev disk p cluster offset) [0..<nat t], s2)"
    using one_round [OF less.prems t_def] by blast
  have c: "\<not> chain_position dev disk p cluster offset 0 < 0"
  proof -
    have "int 0 * ?z < n" using less.prems(6) by simp
    then show ?thesis using less.prems(7) unfolding chain_ok_def by (meson not_le)
  qed
  have t: "(if ?z < n then ?z else n) = t" by (simp add: t_def)
  let ?p = "p\<lparr>fat_read_stream := Some f\<rparr>"
  note step = fat16_read_internal_from_stream.simps [of dev d disk s p cluster offset n]
  have run: "fat16_read_internal_from_stream dev d disk s p cluster offset n =
     (if 0 < n - t then Option.bind (fat16_read_internal_from_stream dev d disk s2 ?p cluster (offset + t) (n - t))
        (\<lambda>(res, bytes', stream, private). Some (res, map (chain_byte dev disk p cluster offset) [0..<nat t] @ bytes', stream, private))
      else Some (0, map (chain_byte dev disk p cluster offset) [0..<nat t], s2, ?p))"
    by (subst step) (simp only: r(3-5) option.case prod.case sum.case c if_False Let_def cluster_position_def [symmetric]
        private_update_fields t)
  show ?case
  proof (cases "?z < n")
    case False
    then have "t = n" by (simp add: t_def)
    then show ?thesis using run r(1,2) by auto
  next
    case True
    then have tz: "t = ?z" by (simp add: t_def)
    have "chain_ready d disk ?p" using less.prems(1) r(1) by (simp add: chain_ready_def)
    moreover have "chain_ok dev disk ?p cluster (offset + ?z) (n - ?z)"
      using chain_ok_next [OF less.prems(7) z less.prems(5)] by simp
    ultimately obtain f' s' where f': "stream_ready d (Some f')" "stream_ready d (Some s')"
        "fat16_read_internal_from_stream dev d disk s2 ?p cluster (offset + ?z) (n - ?z)
          = Some (0, map (chain_byte dev disk p cluster (offset + ?z)) [0..<nat (n - ?z)], s', p\<lparr>fat_read_stream := Some f'\<rparr>)"
      using less.hyps [of "n - ?z" ?p s2 "offset + ?z"] less.prems(3-6) r(2) True z by auto
    have "chain_byte dev disk p cluster (offset + ?z) = (\<lambda>j. chain_byte dev disk p cluster offset (nat ?z + j))"
      using chain_byte_next(1) [OF z less.prems(5) refl] by (simp add: fun_eq_iff)
    then have "map (chain_byte dev disk p cluster offset) [0..<nat ?z] @ map (chain_byte dev disk p cluster (offset + ?z)) [0..<nat (n - ?z)]
        = map (chain_byte dev disk p cluster offset) [0..<nat ?z + nat (n - ?z)]"
      using map_upt_append [of "chain_byte dev disk p cluster offset" "nat ?z"] by simp
    moreover have "nat ?z + nat (n - ?z) = nat n" using True z by (simp add: nat_add_distrib [symmetric])
    ultimately show ?thesis using run f' True tz by auto
  qed
qed

lemma first_cluster_range: "0 \<le> sint (fat16_get_first_cluster item)" "sint (fat16_get_first_cluster item) < 65536"
proof -
  let ?w = "high_16_bits_first_cluster item OR low_16_bits_first_cluster item"
  have "uint (ucast v :: u32) = uint v" for v :: u16
  proof -
    have "uint v < 65536" using unsigned_less [of v] by simp
    then show ?thesis by (simp add: unsigned_ucast_eq take_bit_int_eq_self)
  qed
  then have "uint (fat16_get_first_cluster item) = uint ?w"
    by (simp add: fat16_get_first_cluster_def unsigned_or_eq)
  moreover have "uint ?w < 65536" using unsigned_less [of ?w] by simp
  ultimately have small: "uint (fat16_get_first_cluster item) < 65536" by simp
  then have "sint (word_of_int (uint (fat16_get_first_cluster item)) :: u32) = uint (fat16_get_first_cluster item)"
    by (intro sint_word_of_int_small) (simp_all add: order_trans [OF _ unsigned_greater_eq])
  with small show "0 \<le> sint (fat16_get_first_cluster item)" "sint (fat16_get_first_cluster item) < 65536"
    by simp_all
qed

lemma read_internal_chain:
  assumes "chain_ready d disk p" "0 \<le> cluster" "cluster < 65536" "0 \<le> offset" "0 < n"
    and "chain_ok dev disk p cluster offset n"
  shows "\<exists>f s. stream_ready d (Some f) \<and> stream_ready d (Some s)
    \<and> fat16_read_internal dev d disk p cluster offset n
      = Some (0, map (chain_byte dev disk p cluster offset) [0..<nat n], p\<lparr>fat_read_stream := Some f, cluster_read_stream := Some s\<rparr>)"
proof -
  obtain s where s: "cluster_read_stream p = Some s" "stream_ready d (Some s)"
    using assms(1) by (auto simp: chain_ready_def stream_ready_def split: option.splits)
  show ?thesis
    using read_from_stream_chain [OF assms(1) s(2) assms(2-6)] s(1) by (auto simp: fat16_read_internal_def)
qed

text \<open>The blocks of a read, one after the other.\<close>

definition chain_blocks :: "device \<Rightarrow> disk \<Rightarrow> fat_private \<Rightarrow> int \<Rightarrow> int \<Rightarrow> int \<Rightarrow> nat \<Rightarrow> u8 list" where
  "chain_blocks dev disk p cluster offset n k =
     concat (map (\<lambda>i. map (chain_byte dev disk p cluster (offset + int i * n)) [0..<nat n]) [0..<k])"

lemma chain_blocks_Suc:
  "chain_blocks dev disk p cluster offset n (Suc k)
   = map (chain_byte dev disk p cluster offset) [0..<nat n] @ chain_blocks dev disk p cluster (offset + n) n k"
proof -
  have "[0..<Suc k] = 0 # map Suc [0..<k]" by (simp add: map_Suc_upt upt_conv_Cons)
  then show ?thesis by (simp add: chain_blocks_def o_def algebra_simps del: upt_Suc)
qed

lemma read_loop_chain:
  assumes "chain_ready d disk p" "0 \<le> offset" "0 < sint n" "offset + int k * sint n < 2 ^ 31"
    and "\<And>i. i < k \<Longrightarrow> chain_ok dev disk p (sint (fat16_get_first_cluster item)) (offset + int i * sint n) (sint n)"
  shows "\<exists>p'. fat16_read_loop dev d disk p item offset n k
    = Some (0, chain_blocks dev disk p (sint (fat16_get_first_cluster item)) offset (sint n) k, p')"
  using assms
proof (induction k arbitrary: p offset)
  case 0
  then show ?case by (simp add: chain_blocks_def)
next
  case (Suc k)
  let ?c = "sint (fat16_get_first_cluster item)"
  have "chain_ok dev disk p ?c offset (sint n)" using Suc.prems(5) [of 0] by simp
  then obtain f s where r: "stream_ready d (Some f)" "stream_ready d (Some s)"
      "fat16_read_internal dev d disk p ?c offset (sint n) = Some (0, map (chain_byte dev disk p ?c offset) [0..<nat (sint n)],
         p\<lparr>fat_read_stream := Some f, cluster_read_stream := Some s\<rparr>)"
    using read_internal_chain [OF Suc.prems(1) first_cluster_range [of item] Suc.prems(2,3)] by blast
  let ?p = "p\<lparr>fat_read_stream := Some f, cluster_read_stream := Some s\<rparr>"
  have le: "0 \<le> int k * sint n" using Suc.prems(3) by simp
  have total: "offset + int (Suc k) * sint n = offset + sint n + int k * sint n" by (simp add: algebra_simps)
  have "offset + sint n < 2 ^ 31" using Suc.prems(4) le unfolding total by linarith
  then have next_offset: "sint (word_of_int offset + n) = offset + sint n"
    using Suc.prems(2,3) sint_word_of_int_small [of "offset + sint n"] by simp
  have "chain_ready d disk ?p" using Suc.prems(1) r(1,2) by (simp add: chain_ready_def)
  moreover have "offset + sint n + int k * sint n < 2 ^ 31" using Suc.prems(4) unfolding total .
  moreover have "chain_ok dev disk ?p ?c (offset + sint n + int i * sint n) (sint n)" if "i < k" for i
    using Suc.prems(5) [of "Suc i"] that by (simp add: algebra_simps)
  ultimately obtain p' where "fat16_read_loop dev d disk ?p item (offset + sint n) n k
      = Some (0, chain_blocks dev disk p ?c (offset + sint n) (sint n) k, p')"
    using Suc.IH [of ?p "offset + sint n"] Suc.prems(2,3) by (fastforce simp: chain_blocks_def)
  then show ?case using r(3) next_offset by (simp add: chain_blocks_Suc)
qed

section \<open>Properties\<close>


text \<open>
  The file of the small volume, from its start: behind cluster 2 the table names cluster \<open>0x404\<close>, sector 1036, all
  of whose bytes are 12.
\<close>

lemma sample_chain:
  "chain_position sample_device sample_disk sample_private 2 0 0 = 2"
  "chain_position sample_device sample_disk sample_private 2 0 1 = 1028"
proof -
  have "fat_entry sample_device sample_disk (header sample_private) 2 = 0x404"
    by (simp add: fat_entry_def sample_private_def sample_disk_def reserved_sectors_def le16_def disk_byte_def sample_device_def)
  then show "chain_position sample_device sample_disk sample_private 2 0 0 = 2"
    "chain_position sample_device sample_disk sample_private 2 0 1 = 1028"
    by (simp_all add: chain_position_def sample_cluster_bytes)
qed

lemma sample_next_position: "cluster_position sample_disk sample_private 1028 = 530432"
  by (simp add: cluster_position_def fat16_cluster_to_sector_def sample_private_def sample_disk_def sectors_per_cluster_def)

lemma sample_chain_bytes:
  "map (chain_byte sample_device sample_disk sample_private 2 0) [0..<513] = replicate 512 10 @ [12]"
proof (rule nth_equalityI)
  fix i assume "i < length (map (chain_byte sample_device sample_disk sample_private 2 0) [0..<513])"
  then have i: "i < 513" by simp
  have "chain_byte sample_device sample_disk sample_private 2 0 i = (if i < 512 then 10 else 12)"
  proof (cases "i < 512")
    case True
    then have "(5120 + int i) div 512 = 10" by simp
    with True show ?thesis
      by (simp add: chain_byte_def sample_cluster_bytes sample_chain sample_cluster_position disk_byte_def sample_device_def)
  next
    case False
    then have "i = 512" using i by simp
    then show ?thesis
      using sample_chain(2) by (simp add: chain_byte_def sample_cluster_bytes sample_next_position disk_byte_def sample_device_def)
  qed
  then show "map (chain_byte sample_device sample_disk sample_private 2 0) [0..<513] ! i = (replicate 512 10 @ [12]) ! i"
    using i by (simp add: nth_append)
qed simp


end
