(* ===== verification/Heap_Reuse.thy ===== *)
theory Heap_Reuse
  imports Heap
begin

text \<open>
  What the search of \<^verbatim>\<open>src/memory/heap/heap.c\<close> for taken blocks means for the clients of the heap: requests of
  up to a page are all answered with the first block that is marked taken, one after the other.
\<close>

section \<open>The first taken block\<close>

definition first_taken :: "mem \<Rightarrow> heap \<Rightarrow> u32 \<Rightarrow> bool" where
  "first_taken m h k \<longleftrightarrow> k < total (heap_table_of h) \<and> \<not> block_free m (heap_table_of h) k
     \<and> (\<forall>j<k. block_free m (heap_table_of h) j)"

definition block_addr :: "heap \<Rightarrow> u32 \<Rightarrow> addr" where
  "block_addr h k = heap_block_to_address h (sint k)"

text \<open>The block has an address, and the table up to its entry is not inside of it.\<close>

definition good_block :: "heap \<Rightarrow> u32 \<Rightarrow> bool" where
  "good_block h k \<longleftrightarrow> 0 \<le> sint k \<and> block_addr h k \<noteq> 0
     \<and> (\<forall>j\<le>k. 4096 \<le> entries (heap_table_of h) + j - block_addr h k)"

text \<open>The memory that belongs to the block, and what is left alone outside of a page.\<close>

definition block_memory :: "heap \<Rightarrow> u32 \<Rightarrow> addr \<Rightarrow> bool" where
  "block_memory h k a \<longleftrightarrow> a = entries (heap_table_of h) + k \<or> a - block_addr h k < 4096"

definition block_only :: "heap \<Rightarrow> u32 \<Rightarrow> mem \<Rightarrow> mem \<Rightarrow> bool" where
  "block_only h k m m' \<longleftrightarrow> (\<forall>a. \<not> block_memory h k a \<longrightarrow> m' a = m a)"

definition page_only :: "addr \<Rightarrow> mem \<Rightarrow> mem \<Rightarrow> bool" where
  "page_only b m m' \<longleftrightarrow> (\<forall>a. 4096 \<le> a - b \<longrightarrow> m' a = m a)"

lemma first_taken_exists: "\<not> all_free m (heap_table_of h) \<Longrightarrow> \<exists>k. first_taken m h k"
proof -
  let ?P = "\<lambda>k. k < total (heap_table_of h) \<and> \<not> block_free m (heap_table_of h) k"
  assume "\<not> all_free m (heap_table_of h)"
  then obtain i where "?P i" by (auto simp: all_free_def)
  then obtain k where k: "?P k" "\<And>j. ?P j \<Longrightarrow> unat k \<le> unat j"
    using ex_has_least_nat [of ?P i unat] by blast
  have "block_free m (heap_table_of h) j" if "j < k" for j
  proof (rule ccontr)
    assume "\<not> block_free m (heap_table_of h) j"
    moreover have "j < total (heap_table_of h)" using that k(1) by (blast intro: order.strict_trans)
    ultimately have "unat k \<le> unat j" by (intro k(2) conjI)
    with that show False by (simp add: word_less_nat_alt)
  qed
  then show ?thesis using k(1) by (auto simp: first_taken_def)
qed

lemma first_taken_page:
  "first_taken m h k \<Longrightarrow> good_block h k \<Longrightarrow> page_only (block_addr h k) m m' \<Longrightarrow> first_taken m' h k"
  by (auto simp: first_taken_def good_block_def page_only_def)

lemma block_only_refl [simp]: "block_only h k m m"
  by (simp add: block_only_def)

lemma block_only_trans: "block_only h k m m' \<Longrightarrow> block_only h k m' m'' \<Longrightarrow> block_only h k m m''"
  by (simp add: block_only_def)

lemma block_only_page: "page_only (block_addr h k) m m' \<Longrightarrow> block_only h k m m'"
  by (auto simp: block_only_def page_only_def block_memory_def not_less)

lemma page_only_trans: "page_only b m m' \<Longrightarrow> page_only b m' m'' \<Longrightarrow> page_only b m m''"
  by (simp add: page_only_def)

lemma far_offset: "4096 \<le> y \<Longrightarrow> x \<le> 4092 \<Longrightarrow> 4 \<le> y - (x :: u32)"
  by (simp add: word_le_nat_alt unat_sub_if_size)

lemma page_only_write32: "x \<le> 4092 \<Longrightarrow> page_only b m (write32 m (b + x) v)"
  unfolding page_only_def
  by (simp add: write32_other far_offset diff_diff_eq [symmetric])

lemma page_only_write32_0: "page_only b m (write32 m b v)"
  using page_only_write32 [of 0 b m v] by simp

lemma page_only_memset: "n \<le> 4096 \<Longrightarrow> page_only b m (memset m b c n)"
  unfolding page_only_def by (auto simp: memset_apply)

lemma page_only_write_bytes: "length bs \<le> 4096 \<Longrightarrow> page_only b m (write_bytes m b bs)"
  unfolding page_only_def by (auto simp: write_bytes_outside word_le_nat_alt)

section \<open>Requests of up to a page\<close>

lemma start_block_loop_first:
  "first_taken m h k \<Longrightarrow> i \<le> k \<Longrightarrow> bc = 0 \<Longrightarrow> bs = -1 \<Longrightarrow>
   start_block_loop m (heap_table_of h) 1 i bc bs = sint k"
proof (induction "unat k - unat i" arbitrary: i bc bs)
  case 0
  then have "i = k" by (simp add: word_le_nat_alt word_unat_eq_iff)
  then show ?case using 0(2,4,5) by (subst start_block_loop.simps) (simp add: first_taken_def Let_def)
next
  case (Suc d)
  have lt: "i < k" using Suc(2) by (simp add: word_less_nat_alt)
  then have total: "i < total (heap_table_of h)" "block_free m (heap_table_of h) i"
    using Suc.prems(1) by (auto simp: first_taken_def)
  have "unat (i + 1) = Suc (unat i)" by (rule word_less_Suc_unat [OF lt])
  then have "start_block_loop m (heap_table_of h) 1 (i + 1) 0 (-1) = sint k"
    using Suc(2) lt by (intro Suc(1) Suc.prems(1) refl) (simp_all add: word_le_nat_alt word_less_nat_alt)
  then show ?case using total Suc.prems(3,4) by (subst start_block_loop.simps) simp
qed

lemma one_block: "0 < n \<Longrightarrow> n \<le> 4096 \<Longrightarrow> heap_align_value_to_upper n div 4096 = 1"
proof -
  assume n: "0 < n" "n \<le> 4096"
  show ?thesis
  proof (cases "n = 4096")
    case False
    then have "n < 4096" using n(2) by simp
    then have "n mod 4096 = n" by (simp add: mod_word_less)
    then show ?thesis using n(1) by (auto simp: heap_align_value_to_upper_def)
  qed (simp add: heap_align_value_to_upper_def)
qed

text \<open>Such a request gets the first taken block, and leaves it the first taken one.\<close>

lemma heap_malloc_first:
  assumes "first_taken m h k" "good_block h k" "0 < n" "n \<le> 4096"
  shows "\<exists>m'. heap_malloc m h n = (block_addr h k, m') \<and> first_taken m' h k
    \<and> (\<forall>a. a \<noteq> entries (heap_table_of h) + k \<longrightarrow> m' a = m a)"
proof -
  let ?t = "heap_table_of h"
  let ?e = "if 1 < sint k then 0xC1 else 0x41 :: u8"
  let ?m = "m(entries ?t + k := ?e)"
  have k: "0 \<le> sint k" using assms(2) by (simp add: good_block_def)
  have "heap_get_start_block m h 1 = sint k"
    using start_block_loop_first [OF assms(1)] by (simp add: heap_get_start_block_def)
  moreover have "heap_mark_blocks_taken m h (sint k) 1 = ?m"
    by (auto simp: heap_mark_blocks_taken_def Let_def mark_taken_loop.simps [of m ?t _ _ "sint k"])
  ultimately have "heap_malloc m h n = (block_addr h k, ?m)"
    using k one_block [OF assms(3,4)] by (simp add: heap_malloc_def heap_malloc_blocks_def block_addr_def Let_def)
  moreover have "first_taken ?m h k"
    using assms(1) by (auto simp: first_taken_def heap_get_entry_type_def)
  ultimately show ?thesis by simp
qed

lemma kzalloc_first:
  assumes "first_taken m h k" "good_block h k" "0 < n" "n \<le> 4096"
  shows "\<exists>m'. kzalloc m h n = (block_addr h k, m') \<and> first_taken m' h k \<and> block_only h k m m'
    \<and> (\<forall>a. a - block_addr h k < n \<longrightarrow> m' a = 0)"
proof -
  obtain m1 where m1: "heap_malloc m h n = (block_addr h k, m1)" "first_taken m1 h k"
      "\<And>a. a \<noteq> entries (heap_table_of h) + k \<Longrightarrow> m1 a = m a"
    using heap_malloc_first [OF assms] by blast
  let ?m = "memset m1 (block_addr h k) 0 n"
  have "kzalloc m h n = (block_addr h k, ?m)"
    using m1(1) assms(2) by (simp add: kzalloc_def kmalloc_def good_block_def)
  moreover have page: "page_only (block_addr h k) m1 ?m" by (rule page_only_memset [OF assms(4)])
  then have "first_taken ?m h k" by (rule first_taken_page [OF m1(2) assms(2)])
  moreover have "block_only h k m ?m"
    using m1(3) block_only_page [OF page] by (simp add: block_only_def block_memory_def)
  ultimately show ?thesis by (simp add: memset_apply)
qed

text \<open>The kernel's heap: every block lies behind the table.\<close>

lemma kernel_good_block:
  assumes "h = \<lparr>heap_table_of = \<lparr>entries = 0x7E00, total = 25600\<rparr>, saddr = 0x1000000\<rparr>" "k < 25600"
  shows "good_block h k" "block_addr h k = 0x1000000 + 4096 * k"
proof -
  have k: "unat k < 25600" using assms(2) by (simp add: word_less_nat_alt)
  have "sint k = uint k"
  proof -
    have "uint k < 25600" using assms(2) by (simp add: word_less_def)
    then have "sint (word_of_int (uint k) :: u32) = uint k"
      by (intro sint_word_of_int_small) (simp_all add: order_trans [OF _ unsigned_greater_eq])
    then show ?thesis by simp
  qed
  then have s: "0 \<le> sint k" "word_of_int (sint k * 4096) = k * 4096" by simp_all
  then show b: "block_addr h k = 0x1000000 + 4096 * k"
    using assms(1) by (simp add: block_addr_def heap_block_to_address_def mult.commute)
  have "unat (4096 * k) = 4096 * unat k" using k by (simp add: unat_word_ariths)
  then have u: "unat (block_addr h k) = 0x1000000 + 4096 * unat k"
    unfolding b using k by (subst unat_add_no_wrap) simp_all
  have "4096 \<le> 0x7E00 + j - block_addr h k" if "j \<le> k" for j
  proof -
    have j: "unat j < 25600" using that k by (simp add: word_le_nat_alt)
    then have "unat (0x7E00 + j) = 0x7E00 + unat j" by (subst unat_add_no_wrap) simp_all
    then show ?thesis using u j k by (simp add: word_le_nat_alt unat_sub_if_size word_size)
  qed
  moreover have "block_addr h k \<noteq> 0" using u by (simp add: word_unat_eq_iff)
  ultimately show "good_block h k" using s(1) assms(1) by (simp add: good_block_def)
qed

section \<open>Properties\<close>

text \<open>
  C31: Two owners of one block: when the kernel's heap answers a request of up to a page, it answers the next one, of
  whatever size up to a page, with the same block, in every state of its table.
\<close>
theorem kernel_blocks_shared:
  assumes "h = \<lparr>heap_table_of = \<lparr>entries = 0x7E00, total = 25600\<rparr>, saddr = 0x1000000\<rparr>"
    and "kzalloc m h n = (p, m1)" "p \<noteq> 0" "0 < n" "n \<le> 4096" "0 < n'" "n' \<le> 4096"
    and "\<And>i. i < 25600 \<Longrightarrow> m2 (0x7E00 + i) = m1 (0x7E00 + i)"
  shows "fst (kzalloc m2 h n') = p"
proof -
  have "\<not> all_free m (heap_table_of h)" using assms(2,3) kzalloc_all_free [of m h n] by auto
  then obtain k where k: "first_taken m h k" using first_taken_exists by blast
  then have "k < 25600" using assms(1) by (simp add: first_taken_def)
  then have good: "good_block h k" by (rule kernel_good_block(1) [OF assms(1)])
  obtain m1' where "kzalloc m h n = (block_addr h k, m1')" "first_taken m1' h k"
    using kzalloc_first [OF k good assms(4,5)] by blast
  then have 1: "p = block_addr h k" "first_taken m1 h k" using assms(2) by simp_all
  then have "first_taken m2 h k" using assms(1,8) by (auto simp: first_taken_def)
  from kzalloc_first [OF this good assms(6,7)] show ?thesis using 1(1) by auto
qed

text \<open>The first entry of the table marked taken: two requests get block 0.\<close>
theorem kernel_blocks_shared_witness:
  "let h = \<lparr>heap_table_of = \<lparr>entries = 0x7E00, total = 25600\<rparr>, saddr = 0x1000000\<rparr>;
       (p, m1) = kzalloc ((\<lambda>_. 0)(0x7E00 := 1)) h 8
   in p = 0x1000000 \<and> fst (kzalloc m1 h 108) = p"
proof -
  let ?h = "\<lparr>heap_table_of = \<lparr>entries = 0x7E00, total = 25600\<rparr>, saddr = 0x1000000\<rparr>"
  let ?m = "(\<lambda>_. 0)(0x7E00 := 1) :: mem"
  have first: "first_taken ?m ?h 0" by (simp add: first_taken_def heap_get_entry_type_def)
  have good: "good_block ?h 0" "block_addr ?h 0 = 0x1000000" using kernel_good_block [OF refl, of 0] by simp_all
  obtain m1 where m1: "kzalloc ?m ?h 8 = (0x1000000, m1)"
    using kzalloc_first [OF first good(1), of 8] good(2) by auto
  have "fst (kzalloc m1 ?h 108) = 0x1000000" by (rule kernel_blocks_shared [OF refl m1]) simp_all
  then show ?thesis by (simp add: m1)
qed

end
