(* ===== verification/Path_Open.thy ===== *)
theory Path_Open
  imports Pparser Volume Heap_Reuse
begin

text \<open>
  \<open>fopen\<close> of \<^verbatim>\<open>src/fs/file.c\<close> from the string of the path on: the path parser of \<^verbatim>\<open>src/fs/pparser.c\<close>
  puts the parts of the path into memory, and the calls of the theory \<open>File\<close> go on with them. Here the two are
  composed, over the heap they share.
\<close>

section \<open>The composition\<close>

text \<open>
  The names of a list of parts, each the string at the address in its first word. \<open>None\<close> when the list or a
  string does not end.
\<close>

partial_function (option) part_names :: "mem \<Rightarrow> addr \<Rightarrow> u8 list list option" where
  "part_names m part =
     (if part = 0 then Some []
      else case strlen m (read32 m part) of
        None \<Rightarrow> None
      | Some len \<Rightarrow>
          Option.bind (part_names m (read32 m (part + 4))) (\<lambda>names.
            Some (bytes_at m (read32 m part) (nat len) # names)))"

text \<open>
  The part of \<open>fopen\<close> behind the parser is \<open>fopen\<close> of the theory \<open>File\<close>; the block of the descriptor is
  allocated when a place for it was found.
\<close>

definition fopen_path ::
    "(addr \<Rightarrow> 'w filesystem_functions) \<Rightarrow> addr \<Rightarrow> addr \<Rightarrow> heap \<Rightarrow> addr \<Rightarrow> addr \<Rightarrow> mem \<Rightarrow> 'w vfs
      \<Rightarrow> (int \<times> mem \<times> 'w vfs) option" where
  "fopen_path ops the_disk disk_fs h filename mode_str m s =
     Option.bind (pathparser_parse m h filename 0) (\<lambda>(root_path, m).
       if root_path = 0 then Some (0, m, s)
       else if read32 m (root_path + 4) = 0 then Some (0, m, s)
       else if disk_get the_disk (sint (read32 m root_path)) = 0 then Some (0, m, s)
       else
         map_option (\<lambda>parts.
             let (desc, m') = kzalloc m h 16;
                 (fd, s) = fopen ops the_disk disk_fs (desc \<noteq> 0)
                   (Some (sint (read32 m root_path), parts)) m mode_str s
             in (fd, if fd = 0 then m else m', s))
           (part_names m (read32 m (root_path + 4))))"

section \<open>Lemmas\<close>

text \<open>A string that lies outside of the memory of a block is still there after the block was written.\<close>

definition string_outside :: "heap \<Rightarrow> u32 \<Rightarrow> addr \<Rightarrow> nat \<Rightarrow> bool" where
  "string_outside h k p n \<longleftrightarrow> (\<forall>i\<le>n. \<not> block_memory h k (p + of_nat i))"

lemma c_string_block_only:
  "c_string m p xs \<Longrightarrow> string_outside h k p (length xs) \<Longrightarrow> block_only h k m m' \<Longrightarrow> c_string m' p xs"
  by (rule c_string_frame) (auto simp: string_outside_def block_only_def)

lemma string_outside_shift:
  assumes "string_outside h k p n" "j \<le> n" shows "string_outside h k (p + of_nat j) (n - j)"
  unfolding string_outside_def
proof (intro allI impI)
  fix i assume "i \<le> n - j"
  then have "\<not> block_memory h k (p + of_nat (j + i))"
    using assms unfolding string_outside_def by (metis Nat.le_diff_conv2 add.commute)
  then show "\<not> block_memory h k (p + of_nat j + of_nat i)" by (simp add: ac_simps)
qed

lemma block_apart:
  assumes "string_outside h k p n" "l \<le> 4096" shows "apart p (Suc n) (block_addr h k) l"
  unfolding apart_def
proof (intro allI impI notI)
  fix i j assume i: "i < Suc n" "j < l" and e: "p + of_nat i = block_addr h k + of_nat j"
  have "(of_nat j :: u32) < 4096" using i(2) assms(2) by (simp add: word_less_nat_alt unat_of_nat)
  then have "block_memory h k (p + of_nat i)" by (simp add: block_memory_def e)
  then show False using assms(1) i(1) by (simp add: string_outside_def)
qed

text \<open>
  One part of a path, when the heap answers with the block \<open>k\<close>: an empty part leaves the start of the block
  zero; any other is in the block, and the rest of the path is unread.
\<close>

lemma get_path_part_block:
  assumes "first_taken m h k" "good_block h k" "c_string m path xs" "string_outside h k path (length xs)"
    and "length xs \<le> 4096"
  shows "(\<exists>path' m'. pathparser_get_path_part m h path = Some (0, path', m') \<and> (\<forall>a. a - block_addr h k < 108 \<longrightarrow> m' a = 0))
    \<or> (\<exists>path' m' ys. pathparser_get_path_part m h path = Some (block_addr h k, path', m') \<and> first_taken m' h k
        \<and> c_string m' path' ys \<and> string_outside h k path' (length ys) \<and> length ys < length xs \<and> block_only h k m m')"
proof -
  let ?b = "block_addr h k"
  obtain ys rest where xs: "xs = ys @ rest" and noslash: "0x2F \<notin> set ys" and stop: "rest = [] \<or> hd rest = 0x2F"
  proof
    show "xs = takeWhile (\<lambda>c. c \<noteq> 0x2F) xs @ dropWhile (\<lambda>c. c \<noteq> 0x2F) xs" by simp
    show "0x2F \<notin> set (takeWhile (\<lambda>c. c \<noteq> 0x2F) xs)" by (auto dest: set_takeWhileD)
    show "dropWhile (\<lambda>c. c \<noteq> 0x2F) xs = [] \<or> hd (dropWhile (\<lambda>c. c \<noteq> 0x2F) xs) = 0x2F"
      using hd_dropWhile [of "\<lambda>c. c \<noteq> 0x2F" xs] by auto
  qed
  obtain m1 where m1: "kzalloc m h 108 = (?b, m1)" "first_taken m1 h k" "block_only h k m m1"
      "\<And>a. a - ?b < 108 \<Longrightarrow> m1 a = 0"
    using kzalloc_first [OF assms(1,2), of 108] by auto
  have c1: "c_string m1 path (ys @ rest)" using c_string_block_only [OF assms(3,4) m1(3)] xs by simp
  have len: "length ys \<le> 4096" using assms(5) xs by simp
  have ap: "apart path (Suc (length (ys @ rest))) ?b (length ys)"
    using block_apart [OF assms(4) len] xs by simp
  let ?m = "write_bytes m1 ?b ys" and ?p = "path + of_nat (length ys)"
  have loop: "path_part_loop m1 ?b path 0 = Some (?m, ?p, of_nat (length ys))"
    using path_part_loop_c_string [OF c1 noslash stop, of ?b 0] ap by simp
  show ?thesis
  proof (cases "ys = []")
    case True
    have "kfree m1 h ?b a = 0" if "a - ?b < 108" for a
      using m1(4) [OF that] heap_free_zero [of m1 h ?b a] by (auto simp: kfree_def)
    then show ?thesis using loop m1(1) True by (simp add: pathparser_get_path_part_def Let_def)
  next
    case False
    define path' where "path' = (if ?m ?p = 0x2F then ?p + 1 else ?p)"
    have "(of_nat (length ys) :: u32) \<noteq> 0" using False len by (simp add: word_unat_eq_iff unat_of_nat)
    then have run: "pathparser_get_path_part m h path = Some (?b, path', ?m)"
      using loop m1(1) by (simp add: pathparser_get_path_part_def path'_def Let_def)
    have page: "page_only ?b m1 ?m" by (rule page_only_write_bytes [OF len])
    have same: "block_only h k m ?m" by (rule block_only_trans [OF m1(3) block_only_page [OF page]])
    have rest: "c_string ?m ?p rest"
      using c_string_append_right [of ?m path ys rest] c_string_block_only [OF assms(3,4) same] xs by simp
    have out: "string_outside h k ?p (length rest)"
      using string_outside_shift [OF assms(4), of "length ys"] xs by simp
    have "c_string ?m path' (tl rest) \<and> string_outside h k path' (length (tl rest))"
    proof (cases rest)
      case Nil
      then show ?thesis using rest out by (simp add: path'_def)
    next
      case (Cons c cs)
      then have "path' = ?p + 1" using rest stop by (simp add: path'_def)
      then show ?thesis using rest out Cons string_outside_shift [OF out, of 1] by simp
    qed
    moreover have "length (tl rest) < length xs" using xs False by (cases rest) auto
    moreover have "first_taken ?m h k" by (rule first_taken_page [OF m1(2) assms(2) page])
    ultimately show ?thesis using run same by blast
  qed
qed

text \<open>With its structure in the same block.\<close>

lemma parse_path_part_block:
  assumes "first_taken m h k" "good_block h k" "c_string m path xs" "string_outside h k path (length xs)"
    and "length xs \<le> 4096" "last_part = 0 \<or> last_part = block_addr h k"
  shows "(\<exists>path' m'. pathparser_parse_path_part m h last_part path = Some (0, path', m')
        \<and> (\<forall>a. a - block_addr h k < 108 \<longrightarrow> m' a = 0))
    \<or> (\<exists>path' m' ys. pathparser_parse_path_part m h last_part path = Some (block_addr h k, path', m') \<and> first_taken m' h k
        \<and> c_string m' path' ys \<and> string_outside h k path' (length ys) \<and> length ys < length xs)"
  using get_path_part_block [OF assms(1-5)]
proof (elim disjE exE conjE)
  fix path' m'
  assume "pathparser_get_path_part m h path = Some (0, path', m')" "\<forall>a. a - block_addr h k < 108 \<longrightarrow> m' a = 0"
  then show ?thesis by (simp add: pathparser_parse_path_part_def)
next
  fix path' m' ys
  let ?b = "block_addr h k"
  assume r: "pathparser_get_path_part m h path = Some (?b, path', m')" "first_taken m' h k"
    "c_string m' path' ys" "string_outside h k path' (length ys)" "length ys < length xs" "block_only h k m m'"
  have b: "?b \<noteq> 0" using assms(2) by (simp add: good_block_def)
  obtain m2 where m2: "kzalloc m' h 8 = (?b, m2)" "first_taken m2 h k" "block_only h k m' m2"
    using kzalloc_first [OF r(2) assms(2), of 8] by auto
  let ?m3 = "write32 (write32 m2 ?b ?b) (?b + 4) 0"
  let ?m4 = "if last_part \<noteq> 0 then write32 ?m3 (last_part + 4) ?b else ?m3"
  have run: "pathparser_parse_path_part m h last_part path = Some (?b, path', ?m4)"
    using r(1) m2(1) b by (simp add: pathparser_parse_path_part_def Let_def)
  have "page_only ?b m2 ?m3"
    by (rule page_only_trans [OF page_only_write32_0 page_only_write32]) simp
  then have page: "page_only ?b m2 ?m4"
    using assms(6) page_only_trans [OF _ page_only_write32, of ?b m2 ?m3 4 ?b] by auto
  have "c_string ?m4 path' ys"
    by (rule c_string_block_only [OF r(3,4) block_only_trans [OF m2(3) block_only_page [OF page]]])
  then show ?thesis
    using run r(4,5) first_taken_page [OF m2(2) assms(2) page] by blast
qed

lemma parse_parts_loop_unfold:
  "parse_parts_loop m h part path =
     (if part = 0 then Some m
      else case pathparser_parse_path_part m h part path of
             None \<Rightarrow> None
           | Some (part, path, m) \<Rightarrow> parse_parts_loop m h part path)"
  by (subst parse_parts_loop.simps) simp

text \<open>The parts are read to the end of the path, and the last request cleared the block.\<close>

lemma parse_parts_loop_block:
  "first_taken m h k \<Longrightarrow> good_block h k \<Longrightarrow> c_string m path xs \<Longrightarrow> string_outside h k path (length xs) \<Longrightarrow>
   length xs \<le> 4096 \<Longrightarrow>
   \<exists>m'. parse_parts_loop m h (block_addr h k) path = Some m' \<and> (\<forall>a. a - block_addr h k < 108 \<longrightarrow> m' a = 0)"
proof (induction "length xs" arbitrary: m path xs rule: less_induct)
  case less
  have b: "block_addr h k \<noteq> 0" using less.prems(2) by (simp add: good_block_def)
  from parse_path_part_block [OF less.prems disjI2 [OF refl]] show ?case
  proof (elim disjE exE conjE)
    fix path' m'
    assume "pathparser_parse_path_part m h (block_addr h k) path = Some (0, path', m')"
      "\<forall>a. a - block_addr h k < 108 \<longrightarrow> m' a = 0"
    then show ?thesis using b by (simp add: parse_parts_loop_unfold)
  next
    fix path' m' ys
    assume r: "pathparser_parse_path_part m h (block_addr h k) path = Some (block_addr h k, path', m')" "first_taken m' h k"
      "c_string m' path' ys" "string_outside h k path' (length ys)" "length ys < length xs"
    have "parse_parts_loop m h (block_addr h k) path = parse_parts_loop m' h (block_addr h k) path'"
      using b r(1) parse_parts_loop_unfold [of m h "block_addr h k" path] by simp
    moreover have "\<exists>m''. parse_parts_loop m' h (block_addr h k) path' = Some m'' \<and> (\<forall>a. a - block_addr h k < 108 \<longrightarrow> m'' a = 0)"
      using less.hyps [OF r(5,2) less.prems(2) r(3,4)] r(5) less.prems(5) by simp
    ultimately show ?thesis by simp
  qed
qed

text \<open>A parsed path is the block, and has no parts.\<close>

lemma pathparser_parse_block:
  assumes "first_taken m h k" "good_block h k" "c_string m path xs" "string_outside h k path (length xs)"
  shows "\<exists>r m'. pathparser_parse m h path cd = Some (r, m') \<and> (r = 0 \<or> read32 m' (r + 4) = 0)"
proof (cases "108 < length xs \<or> \<not> valid_path xs")
  case True
  then show ?thesis using pathparser_refuses [OF assms(3)] by blast
next
  case False
  let ?b = "block_addr h k"
  have b: "?b \<noteq> 0" using assms(2) by (simp add: good_block_def)
  obtain m1 where m1: "kzalloc m h 8 = (?b, m1)" "first_taken m1 h k" "block_only h k m m1"
    using kzalloc_first [OF assms(1,2), of 8] by auto
  define m2 where "m2 = write32 (write32 m1 ?b (word_of_int (tonumericdigit (m path)))) (?b + 4) 0"
  have page: "page_only ?b m1 m2"
    unfolding m2_def by (rule page_only_trans [OF page_only_write32_0 page_only_write32]) simp
  have first: "first_taken m2 h k" by (rule first_taken_page [OF m1(2) assms(2) page])
  have same: "block_only h k m m2" by (rule block_only_trans [OF m1(3) block_only_page [OF page]])
  have len: "3 \<le> length xs" "length xs \<le> 108" using False by (auto simp: valid_path_def)
  have "c_string m2 (path + of_nat 3) (drop 3 xs)"
    using c_string_append_right [of m2 path "take 3 xs" "drop 3 xs"] c_string_block_only [OF assms(3,4) same] len by simp
  then have c: "c_string m2 (path + 3) (drop 3 xs)" by simp
  have out: "string_outside h k (path + 3) (length (drop 3 xs))"
    using string_outside_shift [OF assms(4) len(1)] by simp
  have zero: "read32 m' (?b + 4) = 0" if "\<forall>a. a - ?b < 108 \<longrightarrow> m' a = 0" for m'
    using that by (simp add: read32_def add.assoc)
  have run: "pathparser_parse m h path cd =
      (case pathparser_parse_path_part m2 h 0 (path + 3) of
         None \<Rightarrow> None
       | Some (first_part, tmp_path, m) \<Rightarrow>
           if first_part = 0 then Some (?b, m)
           else case pathparser_parse_path_part (write32 m (?b + 4) first_part) h first_part tmp_path of
             None \<Rightarrow> None
           | Some (part, tmp_path, m) \<Rightarrow> map_option (\<lambda>m. (?b, m)) (parse_parts_loop m h part tmp_path))"
    using strlen_c_string [OF assms(3)] valid_format_c_string [OF assms(3)] False m1(1) b len
    unfolding pathparser_parse_def pathparser_get_drive_by_path_def pathparser_create_root_def Let_def m2_def
    by simp
  have "length (drop 3 xs) \<le> 4096" using len(2) by simp
  from parse_path_part_block [OF first assms(2) c out this disjI1 [OF refl]] show ?thesis
  proof (elim disjE exE conjE)
    fix path' m'
    assume "pathparser_parse_path_part m2 h 0 (path + 3) = Some (0, path', m')" "\<forall>a. a - ?b < 108 \<longrightarrow> m' a = 0"
    then show ?thesis using run zero by simp
  next
    fix path' m' ys
    assume r: "pathparser_parse_path_part m2 h 0 (path + 3) = Some (?b, path', m')" "first_taken m' h k"
      "c_string m' path' ys" "string_outside h k path' (length ys)" "length ys < length (drop 3 xs)"
    let ?m = "write32 m' (?b + 4) ?b"
    have short: "length ys \<le> 4096" using r(5) len(2) by simp
    have page': "page_only ?b m' ?m" by (rule page_only_write32) simp
    have "\<exists>m''. parse_parts_loop ?m h ?b path' = Some m'' \<and> (\<forall>a. a - ?b < 108 \<longrightarrow> m'' a = 0)"
      using first_taken_page [OF r(2) assms(2) page'] assms(2)
        c_string_block_only [OF r(3,4) block_only_page [OF page']] r(4) short
      by (intro parse_parts_loop_block)
    moreover have "pathparser_parse m h path cd = map_option (\<lambda>m. (?b, m)) (parse_parts_loop ?m h ?b path')"
      using run r(1) b parse_parts_loop_unfold [of ?m h ?b path']
      by (auto split: option.splits prod.splits)
    ultimately show ?thesis using zero by auto
  qed
qed

section \<open>Properties\<close>

text \<open>
  C34: No file is ever opened: \<open>fopen\<close> returns 0 on the kernel's heap, in every state of its table, for every path, disk
  and filesystem. The blocks of the parsed path are one and the same, and what the parser clears last
  is the structure it returns.
\<close>
theorem fopen_path_never_opens:
  assumes "h = \<lparr>heap_table_of = \<lparr>entries = 0x7E00, total = 25600\<rparr>, saddr = 0x1000000\<rparr>" "c_string m path xs"
    and "\<And>i. i \<le> length xs \<Longrightarrow> 25600 \<le> path + of_nat i - 0x7E00 \<and> 0x6400000 \<le> path + of_nat i - 0x1000000"
  shows "\<exists>m'. fopen_path ops the_disk disk_fs h path mode_str m s = Some (0, m', s)"
proof (cases "all_free m (heap_table_of h)")
  case True
  have "kzalloc m h 8 = (0, m)" by (rule kzalloc_all_free [OF True])
  then show ?thesis
    using strlen_c_string [OF assms(2)] valid_format_c_string [OF assms(2)]
    by (auto simp: fopen_path_def pathparser_parse_def pathparser_get_drive_by_path_def pathparser_create_root_def Let_def)
next
  case False
  then obtain k where k: "first_taken m h k" using first_taken_exists by blast
  then have kt: "k < 25600" using assms(1) by (simp add: first_taken_def)
  note good = kernel_good_block [OF assms(1) kt]
  have "string_outside h k path (length xs)"
    unfolding string_outside_def
  proof (intro allI impI)
    fix i assume "i \<le> length xs"
    then have far: "25600 \<le> path + of_nat i - 0x7E00" "0x6400000 \<le> path + of_nat i - 0x1000000"
      using assms(3) by blast+
    then have "path + of_nat i \<noteq> 0x7E00 + k" using kt by auto
    moreover have "4096 \<le> path + of_nat i - 0x1000000 - 4096 * k"
      using far(2) kt by (simp add: word_le_nat_alt word_less_nat_alt unat_sub_if_size unat_word_ariths)
    ultimately show "\<not> block_memory h k (path + of_nat i)"
      using assms(1) good(2) by (simp add: block_memory_def diff_diff_eq not_less)
  qed
  from pathparser_parse_block [OF k good(1) assms(2) this, of 0] show ?thesis
    by (auto simp: fopen_path_def)
qed

text \<open>The path \<open>0:/a\<close> of the small volume, with the first block marked taken: the FAT16 driver is on the disk.\<close>
theorem fopen_path_never_opens_witness:
  "\<exists>m'. fopen_path (\<lambda>_. fat16_functions sample_device 0x9000 (\<lambda>_. True) sample_disk (\<lambda>_. 0x5000)) 0x9000 0x7000
     \<lparr>heap_table_of = \<lparr>entries = 0x7E00, total = 25600\<rparr>, saddr = 0x1000000\<rparr> 0x100 0x200
     ((\<lambda>_. 0)(0x7E00 := 1, 0x100 := 0x30, 0x101 := 0x3A, 0x102 := 0x2F, 0x103 := 0x61, 0x200 := 0x72)) sample_volume
     = Some (0, m', sample_volume)"
proof (rule fopen_path_never_opens [OF refl, of _ _ "[0x30, 0x3A, 0x2F, 0x61]"])
  fix i assume "i \<le> length [0x30, 0x3A, 0x2F, 0x61 :: u8]"
  then have "i = 0 \<or> i = 1 \<or> i = 2 \<or> i = 3 \<or> i = 4" by auto
  then show "25600 \<le> 0x100 + of_nat i - (0x7E00 :: u32) \<and> 0x6400000 \<le> 0x100 + of_nat i - (0x1000000 :: u32)"
    by auto
qed simp

end
