(* ===== verification/Load_Call.thy ===== *)
theory Load_Call
  imports User_Strings Pparser Kernel
begin

text \<open>
  The system call that starts a program, from the string of the caller to the path the loader gets
  (\<open>isr80h_command6_process_load_start\<close> of \<^verbatim>\<open>src/isr80h/process.c\<close>).
\<close>

section \<open>The path\<close>

text \<open>\<open>0:/\<close>, and what is written to the local array of 108 bytes when the name has 107 characters.\<close>

definition drive_path :: "u8 list \<Rightarrow> u8 list" where
  "drive_path name = [0x30, 0x3A, 0x2F] @ name"

lemma c_string_drive_path:
  assumes "0 \<notin> set name" "length name < 2 ^ 31"
  shows "c_string (write_bytes (write_bytes m path drive_prefix) (path + 3) (name @ [0])) path (drive_path name)"
proof -
  let ?m = "m(path + 3 := 0)" and ?p = "[0x30, 0x3A, 0x2F] :: u8 list"
  have "path + 3 \<noteq> path" "path + 3 \<noteq> path + 1" "path + 3 \<noteq> path + 2" by simp_all
  then have "write_bytes m path drive_prefix = write_bytes ?m path ?p"
    by (simp add: drive_prefix_def fun_eq_iff)
  then have "write_bytes (write_bytes m path drive_prefix) (path + 3) (name @ [0])
      = write_bytes (write_bytes ?m path ?p) (path + of_nat (length ?p)) (name @ [0])" by simp
  also have "\<dots> = write_bytes ?m path (drive_path name @ [0])"
    by (simp only: write_bytes_append [symmetric] drive_path_def append_assoc)
  finally show ?thesis
    using assms by (simp only:, intro c_string_write_bytes) (auto simp: drive_path_def)
qed

lemma copy_string_from_task_fields:
  "task_at (snd (copy_string_from_task t virt buf mx s)) = task_at s"
  "current_task (snd (copy_string_from_task t virt buf mx s)) = current_task s"
  by (simp_all add: copy_string_from_task_def kernel_page_def Let_def split: prod.split)

section \<open>Properties\<close>


text \<open>The loader of the small image; the string \<open>Hi\<close> of the small program: the loader is called with \<open>0:/Hi\<close>.\<close>

definition sample_loader :: "unit loader" where
  "sample_loader = c_loader (context_of sample_image)"


end
