(* ===== verification/Layouts.thy ===== *)
theory Layouts
  imports Elf Kernel
begin

unbundle bit_operations_syntax

text \<open>
  The packed structures of the headers: ELF files (\<^verbatim>\<open>src/loader/format/elf.h\<close>), the FAT16 volume
  (\<^verbatim>\<open>src/fs/fat/fat16.c\<close>), the task segment (\<^verbatim>\<open>src/task/tss.h\<close>) and the arguments of programs
  (\<^verbatim>\<open>src/task/process.h\<close>), as lists of members with their
  types in the order of the source. The other theories read and write single members at fixed
  places; here these places are those of the structures.
\<close>

section \<open>Packed structures\<close>

datatype ctype = Uint8 | Uint16 | Uint32 | Int32 | Bytes nat

type_synonym layout = "(string \<times> ctype) list"

fun sizeof_type :: "ctype \<Rightarrow> nat" where
  "sizeof_type Uint8 = 1"
| "sizeof_type Uint16 = 2"
| "sizeof_type Uint32 = 4"
| "sizeof_type Int32 = 4"
| "sizeof_type (Bytes n) = n"

definition sizeof :: "layout \<Rightarrow> nat" where
  "sizeof L = sum_list (map (sizeof_type \<circ> snd) L)"

text \<open>The place of the \<open>i\<close>-th member, and the place of a member by its name.\<close>

definition member_place :: "layout \<Rightarrow> nat \<Rightarrow> nat" where
  "member_place L i = sizeof (take i L)"

fun place_of :: "layout \<Rightarrow> string \<Rightarrow> nat" where
  "place_of [] f = 0"
| "place_of ((g, t) # L) f = (if f = g then 0 else sizeof_type t + place_of L f)"

text \<open>The bytes of a structure with given values, the lowest byte of a number first.\<close>

definition number_bytes :: "nat \<Rightarrow> nat \<Rightarrow> u8 list" where
  "number_bytes n v = map (\<lambda>i. of_nat (v div 256 ^ i)) [0..<n]"

definition put_struct :: "layout \<Rightarrow> nat list \<Rightarrow> u8 list" where
  "put_struct L vs = concat (map2 (\<lambda>(f, t) v. number_bytes (sizeof_type t) v) L vs)"

section \<open>The structures\<close>

definition elf32_phdr :: layout where
  "elf32_phdr = [(''p_type'', Uint32), (''p_offset'', Int32), (''p_vaddr'', Uint32), (''p_paddr'', Uint32),
     (''p_filesz'', Uint32), (''p_memsz'', Uint32), (''p_flags'', Uint32), (''p_align'', Uint32)]"

definition elf32_shdr :: layout where
  "elf32_shdr = [(''sh_name'', Uint32), (''sh_type'', Uint32), (''sh_flags'', Uint32), (''sh_addr'', Uint32),
     (''sh_offset'', Int32), (''sh_size'', Uint32), (''sh_link'', Uint32), (''sh_info'', Uint32),
     (''sh_addralign'', Uint32), (''sh_entsize'', Uint32)]"

definition elf_header_struct :: layout where
  "elf_header_struct = [(''e_ident'', Bytes 16), (''e_type'', Uint16), (''e_machine'', Uint16),
     (''e_version'', Uint32), (''e_entry'', Uint32), (''e_phoff'', Int32), (''e_shoff'', Int32),
     (''e_flags'', Uint32), (''e_ehsize'', Uint16), (''e_phentsize'', Uint16), (''e_phnum'', Uint16),
     (''e_shentsize'', Uint16), (''e_shnum'', Uint16), (''e_shstrndx'', Uint16)]"

text \<open>The union has two members of the same size.\<close>

definition elf32_dyn :: layout where
  "elf32_dyn = [(''d_tag'', Int32), (''d_un'', Uint32)]"

definition elf32_sym :: layout where
  "elf32_sym = [(''st_name'', Uint32), (''st_value'', Uint32), (''st_size'', Uint32), (''st_info'', Uint8),
     (''st_other'', Uint8), (''st_shndx'', Uint16)]"

definition fat_header_extended :: layout where
  "fat_header_extended = [(''drive_number'', Uint8), (''win_nt_bit'', Uint8), (''signature'', Uint8),
     (''volume_id'', Uint32), (''volume_id_string'', Bytes 11), (''system_id_string'', Bytes 8)]"

definition fat_header :: layout where
  "fat_header = [(''short_jmp_ins'', Bytes 3), (''oem_identifier'', Bytes 8), (''bytes_per_sector'', Uint16),
     (''sectors_per_cluster'', Uint8), (''reserved_sectors'', Uint16), (''fat_copies'', Uint8),
     (''root_dir_entries'', Uint16), (''number_of_sectors'', Uint16), (''media_type'', Uint8),
     (''sectors_per_fat'', Uint16), (''sectors_per_track'', Uint16), (''number_of_heads'', Uint16),
     (''hidden_setors'', Uint32), (''sectors_big'', Uint32)]"

text \<open>The only member of the union follows the first header.\<close>

definition fat_h_struct :: layout where
  "fat_h_struct = fat_header @ fat_header_extended"

definition fat_directory_item_struct :: layout where
  "fat_directory_item_struct = [(''filename'', Bytes 8), (''ext'', Bytes 3), (''attribute'', Uint8),
     (''reserved'', Uint8), (''creation_time_tenths_of_a_sec'', Uint8), (''creation_time'', Uint16),
     (''creation_date'', Uint16), (''last_access'', Uint16), (''high_16_bits_first_cluster'', Uint16),
     (''last_mod_time'', Uint16), (''last_mod_date'', Uint16), (''low_16_bits_first_cluster'', Uint16),
     (''filesize'', Uint32)]"

definition tss_struct :: layout where
  "tss_struct = map (\<lambda>f. (f, Uint32))
     [''link'', ''esp0'', ''ss0'', ''esp1'', ''esp2'', ''ss2'', ''sr3'', ''eip'', ''eflags'', ''eax'', ''ecx'', ''edx'',
      ''ebx'', ''esp'', ''ebp'', ''esi'', ''edi'', ''es'', ''cs'', ''ss'', ''ds'', ''fs'', ''gs'', ''ldtr'', ''iopb'']"

text \<open>The structures of \<^verbatim>\<open>src/task/process.h\<close> that a program reads; pointers have four bytes.\<close>

definition command_argument_struct :: layout where
  "command_argument_struct = [(''argument'', Bytes 512), (''next'', Uint32)]"

definition process_arguments_struct :: layout where
  "process_arguments_struct = [(''argc'', Int32), (''argv'', Uint32)]"

definition process_allocation_struct :: layout where
  "process_allocation_struct = [(''ptr'', Uint32), (''size'', Uint32)]"

lemmas layouts = command_argument_struct_def process_arguments_struct_def process_allocation_struct_def
  elf32_phdr_def elf32_shdr_def elf_header_struct_def elf32_dyn_def elf32_sym_def
  fat_header_extended_def fat_header_def fat_h_struct_def fat_directory_item_struct_def tss_struct_def

section \<open>Members at their places\<close>

lemma sizeof_simps [simp]: "sizeof [] = 0" "sizeof ((f, t) # L) = sizeof_type t + sizeof L"
  by (simp_all add: sizeof_def)

lemma length_number_bytes [simp]: "length (number_bytes n v) = n"
  by (simp add: number_bytes_def)

lemma put_struct_simps [simp]:
  "put_struct [] vs = []" "put_struct ((f, t) # L) (v # vs) = number_bytes (sizeof_type t) v @ put_struct L vs"
  by (simp_all add: put_struct_def)

lemma length_put_struct: "length vs = length L \<Longrightarrow> length (put_struct L vs) = sizeof L"
  by (induction L vs rule: list_induct2') auto

text \<open>The bytes of a member are a section of the bytes of the structure.\<close>

lemma put_struct_member:
  assumes "length vs = length L" "i < length L" "k < sizeof_type (snd (L ! i))"
  shows "put_struct L vs ! (member_place L i + k) = of_nat (vs ! i div 256 ^ k)"
  using assms
proof (induction L vs arbitrary: i rule: list_induct2')
  case (4 e L v vs)
  obtain f t where e: "e = (f, t)" by fastforce
  show ?case
  proof (cases i)
    case 0
    with 4 e show ?thesis by (simp add: member_place_def nth_append number_bytes_def)
  next
    case (Suc j)
    have "put_struct L vs ! (member_place L j + k) = of_nat (vs ! j div 256 ^ k)"
      using 4 Suc by simp
    with e Suc show ?thesis by (simp add: member_place_def nth_append add.assoc)
  qed
qed simp_all

lemma member_fits:
  "i < length L \<Longrightarrow> member_place L i + sizeof_type (snd (L ! i)) \<le> sizeof L"
  by (induction L arbitrary: i) (auto simp: member_place_def nth_Cons split: nat.splits)

text \<open>Numbers from their bytes.\<close>

lemma byte16: "ucast (of_nat v :: u8) OR push_bit 8 (ucast (of_nat (v div 256) :: u8)) = (of_nat v :: u16)"
proof (rule bit_word_eqI)
  fix n assume "n < LENGTH(16)"
  moreover have "v div 256 = drop_bit 8 v" by (simp add: drop_bit_eq_div)
  ultimately show "bit (ucast (of_nat v :: u8) OR push_bit 8 (ucast (of_nat (v div 256) :: u8)) :: u16) n = bit (of_nat v :: u16) n"
    by (cases "n < 8") (auto simp: bit_simps bit_of_nat_iff not_less)
qed

lemma byte32:
  "ucast (of_nat v :: u8) OR push_bit 8 (ucast (of_nat (v div 256) :: u8))
    OR push_bit 16 (ucast (of_nat (v div 65536) :: u8)) OR push_bit 24 (ucast (of_nat (v div 16777216) :: u8))
   = (of_nat v :: u32)"
proof (rule bit_word_eqI)
  fix n assume "n < LENGTH(32)"
  moreover have "v div 256 = drop_bit 8 v" "v div 65536 = drop_bit 16 v" "v div 16777216 = drop_bit 24 v"
    by (simp_all add: drop_bit_eq_div)
  ultimately show "bit (ucast (of_nat v :: u8) OR push_bit 8 (ucast (of_nat (v div 256) :: u8))
    OR push_bit 16 (ucast (of_nat (v div 65536) :: u8)) OR push_bit 24 (ucast (of_nat (v div 16777216) :: u8)) :: u32) n
    = bit (of_nat v :: u32) n"
    by (cases "n < 8"; cases "n < 16"; cases "n < 24") (auto simp: bit_simps bit_of_nat_iff not_less)
qed

text \<open>Members of one, two and four bytes of a structure in a list of bytes.\<close>

lemma struct_member:
  assumes "length vs = length L" "i < length L"
  shows "sizeof_type (snd (L ! i)) = 1 \<Longrightarrow> put_struct L vs ! member_place L i = of_nat (vs ! i)"
    and "sizeof_type (snd (L ! i)) = 2 \<Longrightarrow> le16 (put_struct L vs) (member_place L i) = of_nat (vs ! i)"
    and "sizeof_type (snd (L ! i)) = 4 \<Longrightarrow> le32 (put_struct L vs) (member_place L i) = of_nat (vs ! i)"
proof -
  note m = put_struct_member [OF assms]
  show "sizeof_type (snd (L ! i)) = 1 \<Longrightarrow> put_struct L vs ! member_place L i = of_nat (vs ! i)"
    using m [of 0] by simp
  show "sizeof_type (snd (L ! i)) = 2 \<Longrightarrow> le16 (put_struct L vs) (member_place L i) = of_nat (vs ! i)"
    using m [of 0] m [of 1] byte16 [of "vs ! i"] by (simp add: le16_def)
  show "sizeof_type (snd (L ! i)) = 4 \<Longrightarrow> le32 (put_struct L vs) (member_place L i) = of_nat (vs ! i)"
    using m [of 0] m [of 1] m [of 2] m [of 3] byte32 [of "vs ! i"] by (simp add: le32_def)
qed

text \<open>The same in memory.\<close>

lemma read_written:
  assumes "length bs \<le> 2 ^ 32"
  shows "i + 2 \<le> length bs \<Longrightarrow> read16 (write_bytes m p bs) (p + of_nat i) = le16 bs i"
    and "i + 4 \<le> length bs \<Longrightarrow> read32 (write_bytes m p bs) (p + of_nat i) = le32 bs i"
proof -
  have at: "write_bytes m p bs (p + of_nat i + k) = bs ! (i + unat k)" if "i + unat k < length bs" for k
    using write_bytes_inside [OF that assms, of m p] by (simp add: add.assoc)
  show "i + 2 \<le> length bs \<Longrightarrow> read16 (write_bytes m p bs) (p + of_nat i) = le16 bs i"
    using at [of 0] at [of 1] by (simp add: read16_def le16_def)
  show "i + 4 \<le> length bs \<Longrightarrow> read32 (write_bytes m p bs) (p + of_nat i) = le32 bs i"
    using at [of 0] at [of 1] at [of 2] at [of 3] by (simp add: read32_def le32_def)
qed

lemma struct_in_memory:
  assumes "length vs = length L" "i < length L" "sizeof L \<le> 2 ^ 32"
  shows "sizeof_type (snd (L ! i)) = 2
      \<Longrightarrow> read16 (write_bytes m p (put_struct L vs)) (p + of_nat (member_place L i)) = of_nat (vs ! i)"
    and "sizeof_type (snd (L ! i)) = 4
      \<Longrightarrow> read32 (write_bytes m p (put_struct L vs)) (p + of_nat (member_place L i)) = of_nat (vs ! i)"
  using member_fits [OF assms(2)] read_written [of "put_struct L vs" "member_place L i" m p]
    struct_member [OF assms(1,2)] assms(3) length_put_struct [OF assms(1)] by simp_all

text \<open>The kernel builds its own argument as the structure says: the text first, then the link.\<close>

lemma one_argument_struct:
  "sizeof command_argument_struct = 516"
  "one_argument a word m = write32 (write_bytes m (a + of_nat (place_of command_argument_struct ''argument'')) (word @ [0]))
     (a + of_nat (place_of command_argument_struct ''next'')) 0"
  by (simp_all add: layouts one_argument_def)

section \<open>Properties\<close>

text \<open>
  A program header and an ELF header that lie in memory as their structures say are read as they
  were written: every reader of the loader gives the value of its member, and the headers have 32
  and 52 bytes, by which the loader steps from one program header to the next.
\<close>
theorem elf_structs_read:
  assumes "length ps = 8" "length es = 14"
  shows "sizeof elf32_phdr = 32 \<and> sizeof elf_header_struct = 52 \<and> sizeof elf32_shdr = 40
    \<and> (let m' = write_bytes m p (put_struct elf32_phdr ps) in
        p_type m' p = of_nat (ps ! 0) \<and> p_offset m' p = of_nat (ps ! 1) \<and> p_vaddr m' p = of_nat (ps ! 2)
        \<and> p_filesz m' p = of_nat (ps ! 4) \<and> p_memsz m' p = of_nat (ps ! 5) \<and> p_flags m' p = of_nat (ps ! 6))
    \<and> (let m' = write_bytes m p (put_struct elf_header_struct es) in
        e_type m' p = of_nat (es ! 1) \<and> e_entry m' p = of_nat (es ! 4) \<and> e_phoff m' p = of_nat (es ! 5)
        \<and> e_shoff m' p = of_nat (es ! 6) \<and> e_phnum m' p = of_nat (es ! 10) \<and> e_shstrndx m' p = of_nat (es ! 13))"
proof -
  note P = struct_in_memory [of ps elf32_phdr _ m p] and E = struct_in_memory [of es elf_header_struct _ m p]
  have "length ps = length elf32_phdr" "length es = length elf_header_struct"
    using assms by (simp_all add: layouts)
  then show ?thesis
    using P(2) [of 0] P(2) [of 1] P(2) [of 2] P(2) [of 4] P(2) [of 5] P(2) [of 6]
      E(1) [of 1] E(2) [of 4] E(2) [of 5] E(2) [of 6] E(1) [of 10] E(1) [of 13]
    by (simp add: layouts member_place_def Let_def p_type_def p_offset_def p_vaddr_def p_filesz_def
        p_memsz_def p_flags_def e_type_def e_entry_def e_phoff_def e_shoff_def e_phnum_def e_shstrndx_def)
qed

theorem elf_structs_read_witness:
  "p_memsz (write_bytes (\<lambda>_. 0) 0x1000 (put_struct elf32_phdr [1, 0x1000, 0x400000, 0x400000, 300, 500, 7, 4096])) 0x1000 = 500"
  using elf_structs_read [of "[1, 0x1000, 0x400000, 0x400000, 300, 500, 7, 4096]"
      "[0, 2, 3, 1, 0x400000, 52, 0, 0, 52, 32, 1, 40, 0, 0]" "\<lambda>_. 0" "0x1000"]
  by (simp add: Let_def)

text \<open>
  The header of a volume and an entry of a directory are read as their structures say, and have the
  62 and 32 bytes that the driver reads for them.
\<close>
theorem fat_structs_read:
  assumes "length hs = 20" "length ds = 13"
  shows "sizeof fat_h_struct = 62 \<and> sizeof fat_directory_item_struct = 32
    \<and> (let h = put_struct fat_h_struct hs in
        sectors_per_cluster h = of_nat (hs ! 3) \<and> reserved_sectors h = of_nat (hs ! 4)
        \<and> fat_copies h = of_nat (hs ! 5) \<and> root_dir_entries h = of_nat (hs ! 6)
        \<and> sectors_per_fat h = of_nat (hs ! 9) \<and> signature h = of_nat (hs ! 16))
    \<and> (let item = put_struct fat_directory_item_struct ds in
        attribute item = of_nat (ds ! 2) \<and> high_16_bits_first_cluster item = of_nat (ds ! 8)
        \<and> low_16_bits_first_cluster item = of_nat (ds ! 11) \<and> filesize item = of_nat (ds ! 12))"
proof -
  note H = struct_member [of hs fat_h_struct] and D = struct_member [of ds fat_directory_item_struct]
  have "length hs = length fat_h_struct" "length ds = length fat_directory_item_struct"
    using assms by (simp_all add: layouts)
  then show ?thesis
    using H(1) [of 3] H(2) [of 4] H(1) [of 5] H(2) [of 6] H(2) [of 9] H(1) [of 16]
      D(1) [of 2] D(2) [of 8] D(2) [of 11] D(3) [of 12]
    by (simp add: layouts member_place_def Let_def sectors_per_cluster_def reserved_sectors_def fat_copies_def
        root_dir_entries_def sectors_per_fat_def signature_def attribute_def high_16_bits_first_cluster_def
        low_16_bits_first_cluster_def filesize_def)
qed

theorem fat_structs_read_witness:
  "filesize (put_struct fat_directory_item_struct [0, 0, 0x20, 0, 0, 0, 0, 0, 0, 0, 0, 2, 1234]) = 1234"
  using fat_structs_read [of "replicate 20 0" "[0, 0, 0x20, 0, 0, 0, 0, 0, 0, 0, 0, 2, 1234]"]
  by (simp add: Let_def)

text \<open>
  The task segment the kernel sets up has 100 bytes, the limit of its descriptor: the kernel's
  stack and data segment stand in \<open>esp0\<close> and \<open>ss0\<close>, and every other member is zero.
\<close>
theorem setup_tss_members:
  assumes "f \<in> fst ` set tss_struct"
  shows "sizeof tss_struct = 100
    \<and> read32 (setup_tss t m) (t + of_nat (place_of tss_struct f))
        = (if f = ''esp0'' then 0x600000 else if f = ''ss0'' then KERNEL_DATA_SELECTOR else 0)"
proof -
  let ?z = "memset m t 0 100"
  have zero: "read32 ?z (t + k) = 0" if "k \<le> 96" for k
  proof -
    have "k + 1 < 100" "k + 2 < 100" "k + 3 < 100" "k < 100" using that by unat_arith+
    then show ?thesis by (simp add: read32_def memset_apply add.assoc)
  qed
  have "read32 (setup_tss t m) (t + k) = (if k = 8 then 0x10 else if k = 4 then 0x600000 else 0)"
    if "k \<le> 96" "k \<in> {0, 4, 8} \<or> 12 \<le> k" for k
  proof -
    have far: "4 \<le> (t + k) - (t + j)" "4 \<le> (t + j) - (t + k)" if "j \<in> {4, 8}" "k \<noteq> j" for j
    proof -
      have "(t + k) - (t + j) = k - j" "(t + j) - (t + k) = j - k" by simp_all
      then show "4 \<le> (t + k) - (t + j)" "4 \<le> (t + j) - (t + k)"
        using that \<open>k \<le> 96\<close> \<open>k \<in> {0, 4, 8} \<or> 12 \<le> k\<close> by (auto; unat_arith)+
    qed
    show ?thesis
      using far [of 4] far [of 8] zero [OF that(1)] far
      by (auto simp: setup_tss_def read32_write32_other)
  qed
  note word = this
  have first: "read32 (setup_tss t m) t = 0" using word [of 0] by simp
  have "sizeof tss_struct = 100" by (simp add: tss_struct_def)
  moreover have "read32 (setup_tss t m) (t + of_nat (place_of tss_struct f))
        = (if f = ''esp0'' then 0x600000 else if f = ''ss0'' then 0x10 else 0)"
    using assms by (auto simp: tss_struct_def word first)
  ultimately show ?thesis by blast
qed

theorem setup_tss_members_witness:
  "read32 (setup_tss 0x120000 (\<lambda>_. 1)) (0x120000 + of_nat (place_of tss_struct ''esp0'')) = 0x600000"
  using setup_tss_members [of "''esp0''" "0x120000" "\<lambda>_. 1"] by (simp add: tss_struct_def)

end
